(* ===== verification/Snsd_Prelude.thy ===== *)
theory Snsd_Prelude
  imports Main "HOL-Library.Word"
begin

text \<open>
  Shared vocabulary of the development.

  \<^item> Machine integers: an unsigned C integer that the code compares, masks or lets wrap is a
    word of its width.  Signed integers (\<open>int\<close>, \<open>time_t\<close>, \<open>long long\<close>),
    whose overflow is undefined in C, are \<open>int\<close>; buffer offsets and lengths are
    \<open>nat\<close>.
  \<^item> Error codes: the negated \<open>errno\<close> values the functions return, as a datatype; a
    function that returns 0 or a negated code returns \<open>errno + unit\<close>.
  \<^item> Scanning loops over the fixed tables (\<open>for (i = 0; i < N; i++) if (...) return i\<close>)
    are \<open>first_idx\<close>; \<open>memcpy\<close> into and out of a packed structure is
    \<open>mem_put\<close> and \<open>mem_get\<close>.
  \<^item> \<open>inv_system\<close> is the interface between a component's step relation and its
    invariant; every component that is a state machine interprets it.
\<close>

unbundle bit_operations_syntax

named_theorems snsd_layout "lengths and fields of packed byte layouts"
named_theorems snsd_frame "what an operation leaves unchanged"

type_synonym u8 = "8 word"
type_synonym u16 = "16 word"
type_synonym u32 = "32 word"
type_synonym u64 = "64 word"

datatype errno =
  EPERM | ENOENT | EIO | ENXIO | EAGAIN | ENOMEM | EACCES | EFAULT | ENODEV | EINVAL | ERANGE

type_synonym 'a result = "errno + 'a"

section \<open>Scanning loops\<close>

fun first_idx :: "('a \<Rightarrow> bool) \<Rightarrow> 'a list \<Rightarrow> nat option" where
  "first_idx P [] = None"
| "first_idx P (x # xs) = (if P x then Some 0 else map_option Suc (first_idx P xs))"

lemma first_idx_None [simp]: "first_idx P xs = None \<longleftrightarrow> (\<forall>x \<in> set xs. \<not> P x)"
  by (induction xs) auto

lemma first_idx_Some:
  "first_idx P xs = Some i \<longleftrightarrow> i < length xs \<and> P (xs ! i) \<and> (\<forall>j < i. \<not> P (xs ! j))"
proof (induction xs arbitrary: i)
  case Nil
  then show ?case by simp
next
  case (Cons x xs)
  then show ?case by (cases i) (auto simp: less_Suc_eq_0_disj)
qed

lemma first_idx_SomeD:
  assumes "first_idx P xs = Some i"
  shows "i < length xs" and "P (xs ! i)" and "\<And>j. j < i \<Longrightarrow> \<not> P (xs ! j)"
  using assms by (simp_all add: first_idx_Some)

lemma first_idx_ex: "x \<in> set xs \<Longrightarrow> P x \<Longrightarrow> \<exists>i. first_idx P xs = Some i"
  by (cases "first_idx P xs") auto

lemma first_idx_unique:
  assumes "i < length xs" and "P (xs ! i)" and "\<And>j. j < length xs \<Longrightarrow> P (xs ! j) \<Longrightarrow> j = i"
  shows "first_idx P xs = Some i"
proof -
  have "\<not> P (xs ! j)" if "j < i" for j
  proof
    assume "P (xs ! j)"
    moreover have "j < length xs" using that assms(1) by simp
    ultimately have "j = i" by (rule assms(3) [rotated])
    with that show False by simp
  qed
  with assms(1,2) show ?thesis by (simp add: first_idx_Some)
qed

section \<open>Bytes in packed structures\<close>

definition mem_get :: "nat \<Rightarrow> nat \<Rightarrow> 'a list \<Rightarrow> 'a list" where
  "mem_get off n m = take n (drop off m)"

definition mem_put :: "nat \<Rightarrow> 'a list \<Rightarrow> 'a list \<Rightarrow> 'a list" where
  "mem_put off src m = take off m @ src @ drop (off + length src) m"

lemma length_mem_get [simp]: "off + n \<le> length m \<Longrightarrow> length (mem_get off n m) = n"
  by (simp add: mem_get_def)

lemma length_mem_put [simp]:
  "off + length src \<le> length m \<Longrightarrow> length (mem_put off src m) = length m"
  by (simp add: mem_put_def)

lemma nth_mem_put:
  assumes "off + length src \<le> length m" and "i < length m"
  shows "mem_put off src m ! i =
    (if off \<le> i \<and> i < off + length src then src ! (i - off) else m ! i)"
  using assms by (auto simp: mem_put_def nth_append min_def)

lemma nth_mem_get: "i < n \<Longrightarrow> off + n \<le> length m \<Longrightarrow> mem_get off n m ! i = m ! (off + i)"
  by (simp add: mem_get_def)

lemma mem_get_put_same:
  assumes "off + length src \<le> length m"
  shows "mem_get off (length src) (mem_put off src m) = src"
  using assms by (simp add: mem_get_def mem_put_def)

lemma mem_get_put_other:
  assumes "off' + n \<le> off \<or> off + length src \<le> off'"
    and "off + length src \<le> length m" and "off' + n \<le> length m"
  shows "mem_get off' n (mem_put off src m) = mem_get off' n m"
  using assms by (intro nth_equalityI) (auto simp: nth_mem_get nth_mem_put)

lemma mem_get_0 [simp]: "mem_get 0 n m = take n m"
  by (simp add: mem_get_def)

section \<open>Network byte order\<close>

definition be16 :: "nat \<Rightarrow> u8 list" where
  "be16 n = [word_of_nat (n div 256), word_of_nat n]"

definition be16_val :: "u8 \<Rightarrow> u8 \<Rightarrow> nat" where
  "be16_val a b = 256 * unat a + unat b"

definition be32_val :: "u8 list \<Rightarrow> nat" where
  "be32_val bs = foldl (\<lambda>n b. 256 * n + unat b) 0 bs"

lemma length_be16 [simp, snsd_layout]: "length (be16 n) = 2"
  by (simp add: be16_def)

lemma unat_lt_256: "unat (b :: u8) < 256"
  using unsigned_less [of b, where ?'a = nat] by simp

lemma be16_val_less [simp]: "be16_val a b < 65536"
  using unat_lt_256 [of a] unat_lt_256 [of b] by (simp add: be16_val_def)

lemma be16_val_be16:
  assumes "n < 65536"
  shows "be16_val (word_of_nat (n div 256)) (word_of_nat n) = n"
proof -
  have "n div 256 < 256" using assms by simp
  then show ?thesis by (simp add: be16_val_def unat_of_nat)
qed

lemma be16_be16_val [simp]: "be16 (be16_val a b) = [a, b]"
proof -
  have "unat b < 256" by (rule unat_lt_256)
  then have "(256 * unat a + unat b) div 256 = unat a" by simp
  moreover have "unat (word_of_nat (256 * unat a + unat b) :: u8) = unat b"
    using \<open>unat b < 256\<close> by (simp only: unat_of_nat) (simp add: take_bit_eq_mod)
  then have "(word_of_nat (256 * unat a + unat b) :: u8) = b"
    by (simp only: word_unat_eq_iff)
  ultimately show ?thesis by (simp add: be16_def be16_val_def)
qed

section \<open>Step relations and invariants\<close>

locale inv_system =
  fixes start :: "'s \<Rightarrow> bool"
    and step :: "'s \<Rightarrow> 's \<Rightarrow> bool"
    and inv :: "'s \<Rightarrow> bool"
  assumes inv_start: "start s \<Longrightarrow> inv s"
    and inv_step: "inv s \<Longrightarrow> step s t \<Longrightarrow> inv t"
begin

lemma inv_steps: "step\<^sup>*\<^sup>* s t \<Longrightarrow> inv s \<Longrightarrow> inv t"
  by (induction rule: rtranclp_induct) (auto intro: inv_step)

lemma inv_reachable: "start s \<Longrightarrow> step\<^sup>*\<^sup>* s t \<Longrightarrow> inv t"
  by (rule inv_steps [OF _ inv_start])

end

end
