(* ===== verification/Snsd_Types.thy ===== *)
theory Snsd_Types
  imports Snsd_Prelude
begin

text \<open>
  The types several components share: the enumerations and small predicates of
  \<open>src/snsd.h\<close> and the connect request of \<open>src/snsd_connect.h\<close>.  Addresses are the
  16-byte arrays of the code; an IPv4 address uses the first four bytes.
\<close>

definition AF_INET :: nat where
  [simp]: "AF_INET = 2"

definition AF_INET6 :: nat where
  [simp]: "AF_INET6 = 10"

definition IPV4_ADDR_LENGTH :: nat where
  [simp]: "IPV4_ADDR_LENGTH = 4"

definition IPV6_ADDR_LENGTH :: nat where
  [simp]: "IPV6_ADDR_LENGTH = 16"

text \<open>
  \<open>enum SNSD_PROTOCOL_E\<close>.  The values come from the network and from the configuration
  file and may be any number, so a protocol is a number and the enumerators are constants.
\<close>

definition SNSD_PROTOCOL_ROCE :: nat where
  [simp]: "SNSD_PROTOCOL_ROCE = 1"

definition SNSD_PROTOCOL_TCP :: nat where
  [simp]: "SNSD_PROTOCOL_TCP = 2"

definition SNSD_PROTOCOL_ISCSI :: nat where
  [simp]: "SNSD_PROTOCOL_ISCSI = 3"

definition SNSD_PROTOCOL_BUTT :: nat where
  [simp]: "SNSD_PROTOCOL_BUTT = 4"

datatype snsd_mode = SNSD_MODE_SW | SNSD_MODE_DC

definition IFF_RUNNING :: u16 where
  [simp]: "IFF_RUNNING = 0x40"

definition is_linkup :: "u16 \<Rightarrow> bool" where
  "is_linkup flags \<longleftrightarrow> flags AND IFF_RUNNING = IFF_RUNNING"

text \<open>
  \<open>snsd_ip_match\<close>: equal addresses of the given family; no address of an unknown family
  matches, not even itself.
\<close>

definition snsd_ip_match :: "nat \<Rightarrow> u8 list \<Rightarrow> u8 list \<Rightarrow> bool" where
  "snsd_ip_match family ip1 ip2 \<longleftrightarrow>
    (if family = AF_INET \<and> take IPV4_ADDR_LENGTH ip1 = take IPV4_ADDR_LENGTH ip2 then True
     else if family = AF_INET6 \<and> take IPV6_ADDR_LENGTH ip1 = take IPV6_ADDR_LENGTH ip2 then True
     else False)"

lemma snsd_ip_match_sym: "snsd_ip_match f a b \<longleftrightarrow> snsd_ip_match f b a"
  by (auto simp: snsd_ip_match_def)

lemma snsd_ip_match_trans:
  "snsd_ip_match f a b \<Longrightarrow> snsd_ip_match f b c \<Longrightarrow> snsd_ip_match f a c"
  by (auto simp: snsd_ip_match_def split: if_splits)

lemma snsd_ip_match_refl: "snsd_ip_match f a a \<longleftrightarrow> f = AF_INET \<or> f = AF_INET6"
  by (auto simp: snsd_ip_match_def)

section \<open>Connect requests\<close>

record connect_param =
  cp_protocol :: nat
  cp_portid :: u16
  cp_family :: nat
  cp_traddr :: "u8 list"
  cp_host_traddr :: "u8 list"
  cp_subsysnqn :: "u8 list"
  cp_mode :: snsd_mode
  cp_action_flag :: nat

definition zero_connect_param :: connect_param where
  "zero_connect_param = \<lparr>cp_protocol = 0, cp_portid = 0, cp_family = 0,
    cp_traddr = replicate 16 0, cp_host_traddr = replicate 16 0,
    cp_subsysnqn = replicate 256 0, cp_mode = SNSD_MODE_SW, cp_action_flag = 0\<rparr>"

definition SNSD_DISCONNECT_FORCEDLY :: nat where
  [simp]: "SNSD_DISCONNECT_FORCEDLY = 1"

text \<open>
  A toolbox is the table of callbacks of one kind of task.  A callback may be a null pointer
  (\<open>None\<close>).  Callbacks see the outside world (the kernel's NVMe devices) as a value of
  type \<open>'w\<close> and own a context of type \<open>'c\<close>; a task whose toolbox has no
  \<open>ctx_init\<close> has a null context.
\<close>

record ('w, 'c) conn_toolbox =
  tb_ctx_init :: "('w \<Rightarrow> connect_param \<Rightarrow> u64 \<Rightarrow> 'c option) option"
  tb_handle :: "('w \<Rightarrow> 'c option \<Rightarrow> nat \<Rightarrow> u64 \<Rightarrow> int \<times> 'c option) option"
  tb_recheck :: "('w \<Rightarrow> 'c option \<Rightarrow> int) option"
  tb_ctx_reinit :: "('c option \<Rightarrow> u64 \<Rightarrow> 'c option) option"

record ('w, 'c) connect_template =
  ct_protocol :: nat
  ct_connect_toolbox :: "('w, 'c) conn_toolbox"
  ct_disconn_toolbox :: "('w, 'c) conn_toolbox"
  ct_dcbatch_toolbox :: "('w, 'c) conn_toolbox"

section \<open>Time and files\<close>

text \<open>\<open>times_msec\<close>, from the seconds and the nanoseconds of the clock.\<close>

definition times_msec :: "int \<Rightarrow> int \<Rightarrow> int" where
  "times_msec tv_sec tv_nsec = tv_sec * 1000 + tv_nsec div 1000 div 1000"

text \<open>A file name that is not resolved gives the \<open>errno\<close> of \<open>realpath\<close>; printing the message may change it.\<close>

record file_env =
  fe_realpath :: "string \<Rightarrow> int + string"
  fe_open :: "string \<Rightarrow> int \<Rightarrow> int"
  fe_access :: "string \<Rightarrow> int \<Rightarrow> int"
  fe_log :: "int \<Rightarrow> int"

definition PATH_MAX :: nat where
  [simp]: "PATH_MAX = 4096"

definition check_and_open_file :: "file_env \<Rightarrow> int \<Rightarrow> string \<Rightarrow> int \<Rightarrow> int" where
  "check_and_open_file env errno input_path flag =
    (if length input_path > PATH_MAX then - fe_log env errno
     else case fe_realpath env input_path of
       Inl e \<Rightarrow> - fe_log env e
     | Inr path \<Rightarrow> fe_open env path flag)"

definition snsd_check_file :: "file_env \<Rightarrow> int \<Rightarrow> string \<Rightarrow> int \<Rightarrow> int" where
  "snsd_check_file env errno input_path flag =
    (if length input_path > PATH_MAX then - fe_log env errno
     else case fe_realpath env input_path of
       Inl e \<Rightarrow> - fe_log env e
     | Inr path \<Rightarrow> fe_access env path flag)"

text \<open>The callers take a result that is not negative for a descriptor; it is one if the name is short.\<close>

lemma check_and_open_file_descriptor:
  assumes "0 \<le> check_and_open_file env errno input_path flag" and "length input_path \<le> PATH_MAX"
    and "\<And>e. fe_realpath env input_path = Inl e \<Longrightarrow> 0 < fe_log env e"
  shows "\<exists>path. fe_realpath env input_path = Inr path \<and>
    check_and_open_file env errno input_path flag = fe_open env path flag"
  using assms by (fastforce simp: check_and_open_file_def split: sum.splits)

text \<open>A name that is too long reads an \<open>errno\<close> nobody has set: 0, and the caller goes on with descriptor 0.\<close>

lemma long_name_gives_descriptor:
  "\<exists>env input_path. (\<forall>path flag. fe_open env path flag = - 1) \<and> (\<forall>e. fe_log env e = e) \<and>
    (\<forall>path e. fe_realpath env path = Inl e \<longrightarrow> 0 < e) \<and> check_and_open_file env 0 input_path flag = 0"
  by (intro exI [of _ "\<lparr>fe_realpath = \<lambda>_. Inl 36, fe_open = \<lambda>_ _. - 1, fe_access = \<lambda>_ _. - 1, fe_log = \<lambda>e. e\<rparr>"]
      exI [of _ "replicate 4097 CHR ''a''"]) (simp add: check_and_open_file_def)

end
