(* ===== verification/Snsd_Peon.thy ===== *)
theory Snsd_Peon
  imports Snsd_Types
begin

text \<open>
  \<open>src/snsd_conn_peon.c\<close>: the task scheduler.  Four static peons (connect, disconnect,
  batch disconnect, recheck) and any number of dynamic disconnect peons each own a wait list
  and a processing list of tasks.  A task is an element of exactly one list, as an intrusive
  list node is; \<open>pt_id\<close> is its address, by which a worker that processes it finds it again.

  Every function that runs under \<open>peon_list_lock\<close> is one function of the system state
  here; the interleaving of the workers is the step relation of \<open>Snsd_Peon_Steps\<close>.
\<close>

section \<open>State\<close>

datatype peon_type =
  PEON_TYPE_CONNECT | PEON_TYPE_DISCONN | PEON_TYPE_DCBATCH | PEON_TYPE_RECHECK

datatype peon_task_state = PEON_TASK_STATE_LIVE | PEON_TASK_STATE_DEAD

text \<open>\<open>enum peon_task_action\<close> is a bit set; NONE is the empty one.\<close>

datatype peon_task_action = PEON_TASK_ACTION_DISCARD | PEON_TASK_ACTION_WAIT

record ('w, 'c) peon_task =
  pt_id :: nat
  pt_tm :: int
  pt_next_run :: int
  pt_sn :: u64
  pt_state :: peon_task_state
  pt_toolbox :: "('w, 'c) conn_toolbox"
  pt_ctx :: "'c option"
  pt_param :: connect_param

record ('w, 'c) peon =
  pe_type :: peon_type
  pe_dynamic :: bool
  pe_wait_list :: "('w, 'c) peon_task list"
  pe_proc_list :: "('w, 'c) peon_task list"
  pe_restrain_time :: u32
  pe_normal_period :: nat
  pe_fast_period :: nat
  pe_worker_num :: nat
  pe_worker_all_count :: int

datatype peon_ref = Static peon_type | Dyn nat

record ('w, 'c) peon_sys =
  ps_peons :: "peon_ref \<Rightarrow> ('w, 'c) peon option"
  ps_sn :: u64
  ps_dyn_worker_num :: u32
  ps_next_addr :: nat

definition PEON_CONNECT_WORKER_NUM :: nat where [simp]: "PEON_CONNECT_WORKER_NUM = 1"
definition PEON_DISCONN_WORKER_NUM :: nat where [simp]: "PEON_DISCONN_WORKER_NUM = 16"
definition PEON_DCBATCH_WORKER_NUM :: nat where [simp]: "PEON_DCBATCH_WORKER_NUM = 1"
definition PEON_RECHECK_WORKER_NUM :: nat where [simp]: "PEON_RECHECK_WORKER_NUM = 1"
definition PEON_DYN_DISCONN_WORKER_LIMIT :: u32 where [simp]: "PEON_DYN_DISCONN_WORKER_LIMIT = 512"
definition PEON_WORKER_PERIOD_NORMAL :: nat where [simp]: "PEON_WORKER_PERIOD_NORMAL = 10"
definition PEON_WORKER_PERIOD_FAST :: nat where [simp]: "PEON_WORKER_PERIOD_FAST = 1"
definition PEON_RECHECK_WORKER_PERIOD :: nat where [simp]: "PEON_RECHECK_WORKER_PERIOD = 60"
definition PEON_DEFAULT_RESTRAIN_TIME :: u32 where [simp]: "PEON_DEFAULT_RESTRAIN_TIME = 3"
definition PEON_FAIL_RETRY_INTERVAL :: int where [simp]: "PEON_FAIL_RETRY_INTERVAL = 60"

text \<open>
  A function that takes a lock it already holds never returns; its result is \<open>Stuck\<close>.
\<close>

datatype 'a call = Done 'a | Stuck

definition upd_peon ::
  "peon_ref \<Rightarrow> (('w, 'c) peon \<Rightarrow> ('w, 'c) peon) \<Rightarrow> ('w, 'c) peon_sys \<Rightarrow> ('w, 'c) peon_sys" where
  "upd_peon r f s = s\<lparr>ps_peons := (ps_peons s)(r := map_option f (ps_peons s r))\<rparr>"

definition wait_list :: "peon_ref \<Rightarrow> ('w, 'c) peon_sys \<Rightarrow> ('w, 'c) peon_task list" where
  "wait_list r s = (case ps_peons s r of None \<Rightarrow> [] | Some pe \<Rightarrow> pe_wait_list pe)"

definition proc_list :: "peon_ref \<Rightarrow> ('w, 'c) peon_sys \<Rightarrow> ('w, 'c) peon_task list" where
  "proc_list r s = (case ps_peons s r of None \<Rightarrow> [] | Some pe \<Rightarrow> pe_proc_list pe)"

section \<open>Serial numbers\<close>

definition peon_sn_generate :: "('w, 'c) peon_sys \<Rightarrow> ('w, 'c) peon_sys \<times> u64" where
  "peon_sn_generate s =
    (let sn = ps_sn s + 1;
         sn = (if sn = 0 then sn + 1 else sn)
     in (s\<lparr>ps_sn := sn\<rparr>, sn))"

section \<open>Construction\<close>

text \<open>
  \<open>peon_worker_env\<close>: the number of workers and their periods.  The names of the workers,
  used only in log lines, are left out.
\<close>

record peon_worker_env =
  we_num :: nat
  we_normal_period :: nat
  we_fast_period :: nat

definition peon_worker_envs :: "peon_type \<Rightarrow> peon_worker_env" where
  "peon_worker_envs ty = (case ty of
      PEON_TYPE_CONNECT \<Rightarrow>
        \<lparr>we_num = PEON_CONNECT_WORKER_NUM, we_normal_period = PEON_WORKER_PERIOD_NORMAL,
         we_fast_period = PEON_WORKER_PERIOD_FAST\<rparr>
    | PEON_TYPE_DISCONN \<Rightarrow>
        \<lparr>we_num = PEON_DISCONN_WORKER_NUM, we_normal_period = PEON_WORKER_PERIOD_NORMAL,
         we_fast_period = PEON_WORKER_PERIOD_FAST\<rparr>
    | PEON_TYPE_DCBATCH \<Rightarrow>
        \<lparr>we_num = PEON_DCBATCH_WORKER_NUM, we_normal_period = PEON_WORKER_PERIOD_NORMAL,
         we_fast_period = PEON_WORKER_PERIOD_FAST\<rparr>
    | PEON_TYPE_RECHECK \<Rightarrow>
        \<lparr>we_num = PEON_RECHECK_WORKER_NUM, we_normal_period = PEON_RECHECK_WORKER_PERIOD,
         we_fast_period = PEON_RECHECK_WORKER_PERIOD\<rparr>)"

definition peon_dyn_worker_env :: peon_worker_env where
  "peon_dyn_worker_env =
    \<lparr>we_num = 1, we_normal_period = PEON_WORKER_PERIOD_NORMAL,
     we_fast_period = PEON_WORKER_PERIOD_FAST\<rparr>"

text \<open>
  \<open>peon_construct\<close>: \<open>calloc\<close> clears the peon, so its type is CONNECT (0) until the
  caller sets it.  With a worker routine (\<open>routine\<close>) it starts one thread per worker and
  counts them; \<open>thread_ok i\<close> is whether starting the i-th one succeeds.
\<close>

definition peon_construct ::
  "bool \<Rightarrow> (nat \<Rightarrow> bool) \<Rightarrow> peon_worker_env \<Rightarrow> bool \<Rightarrow> bool \<Rightarrow> ('w, 'c) peon option" where
  "peon_construct calloc_ok thread_ok env routine dynamic =
    (if \<not> calloc_ok then None
     else if routine \<and> \<not> list_all thread_ok [0..<we_num env] then None
     else Some \<lparr>pe_type = PEON_TYPE_CONNECT, pe_dynamic = dynamic, pe_wait_list = [],
       pe_proc_list = [], pe_restrain_time = 0, pe_normal_period = we_normal_period env,
       pe_fast_period = we_fast_period env,
       pe_worker_num = (if routine then we_num env else 0), pe_worker_all_count = 0\<rparr>)"

definition peon_set_disconn_restrain_time ::
  "u32 \<Rightarrow> ('w, 'c) peon_sys \<Rightarrow> ('w, 'c) peon_sys" where
  "peon_set_disconn_restrain_time restrain_time s =
    upd_peon (Static PEON_TYPE_CONNECT)
      (\<lambda>pe. pe\<lparr>pe_restrain_time :=
        (if restrain_time \<noteq> 0 then 0 else PEON_DEFAULT_RESTRAIN_TIME)\<rparr>)
      (upd_peon (Static PEON_TYPE_DISCONN) (\<lambda>pe. pe\<lparr>pe_restrain_time := restrain_time\<rparr>) s)"

definition peon_types :: "peon_type list" where
  "peon_types = [PEON_TYPE_CONNECT, PEON_TYPE_DISCONN, PEON_TYPE_DCBATCH, PEON_TYPE_RECHECK]"

text \<open>
  \<open>peon_init\<close>: all four peons or none; \<open>built ty\<close> is the outcome of
  \<open>peon_construct\<close> for one of them.
\<close>

definition peon_init ::
  "(peon_type \<Rightarrow> ('w, 'c) peon option) \<Rightarrow> int \<Rightarrow> ('w, 'c) peon_sys \<Rightarrow> ('w, 'c) peon_sys result" where
  "peon_init built restrain_time s =
    (if list_all (\<lambda>ty. built ty \<noteq> None) peon_types then
       Inr (peon_set_disconn_restrain_time (word_of_int restrain_time)
         (s\<lparr>ps_sn := 0,
            ps_peons := (\<lambda>r. case r of
              Static ty \<Rightarrow> map_option (\<lambda>pe. pe\<lparr>pe_type := ty\<rparr>) (built ty)
            | Dyn _ \<Rightarrow> None)\<rparr>))
     else Inl ENOMEM)"

section \<open>Adding a task\<close>

text \<open>
  What the outside answers during one call: the clock, whether \<open>calloc\<close> succeeds, how the
  creation of a dynamic peon goes, the configured restrain time and the state of the world the
  callbacks see.
\<close>

datatype dyn_outcome = DynStarted | DynNoMemory | DynNoThread

record 'w peon_env =
  en_now :: int
  en_calloc_ok :: bool
  en_dyn :: dyn_outcome
  en_cfg_restrain_time :: int
  en_world :: 'w

text \<open>
  \<open>peon_dyn_create\<close>, called with the lock held.  When the thread cannot be started it
  calls \<open>peon_deconstruct\<close>, which takes the lock again: the call is stuck.  Otherwise the
  new peon owns the task (\<open>Some\<close>), or there was no memory for the peon (\<open>None\<close>).
\<close>

definition peon_dyn_create ::
  "'w peon_env \<Rightarrow> ('w, 'c) peon_task \<Rightarrow> ('w, 'c) peon option call" where
  "peon_dyn_create env task =
    (case peon_construct (en_dyn env \<noteq> DynNoMemory) (\<lambda>_. True) peon_dyn_worker_env False True of
       None \<Rightarrow> Done None
     | Some pe \<Rightarrow>
         if en_dyn env = DynNoThread then Stuck
         else Done (Some (pe\<lparr>pe_type := PEON_TYPE_DISCONN,
           pe_restrain_time := word_of_int (en_cfg_restrain_time env),
           pe_worker_num := 1, pe_wait_list := [task], pe_worker_all_count := 1\<rparr>)))"

definition peon_new_task ::
  "'w peon_env \<Rightarrow> nat \<Rightarrow> u64 \<Rightarrow> connect_param \<Rightarrow> ('w, 'c) conn_toolbox \<Rightarrow>
    ('w, 'c) peon_task result" where
  "peon_new_task env addr sn param toolbox =
    (if \<not> en_calloc_ok env then Inl ENOMEM
     else
       let task = \<lparr>pt_id = addr, pt_tm = en_now env, pt_next_run = 0, pt_sn = sn,
             pt_state = PEON_TASK_STATE_LIVE, pt_toolbox = toolbox, pt_ctx = None,
             pt_param = param\<rparr>
       in case tb_ctx_init toolbox of
            None \<Rightarrow> Inr task
          | Some ctx_init \<Rightarrow>
              (case ctx_init (en_world env) param sn of
                 None \<Rightarrow> Inl EINVAL
               | Some c \<Rightarrow> Inr (task\<lparr>pt_ctx := Some c\<rparr>)))"

definition peon_task_add ::
  "'w peon_env \<Rightarrow> peon_type \<Rightarrow> u64 \<Rightarrow> connect_param \<Rightarrow> ('w, 'c) conn_toolbox \<Rightarrow>
    ('w, 'c) peon_sys \<Rightarrow> (('w, 'c) peon_sys \<times> unit result) call" where
  "peon_task_add env ty sn param toolbox s =
    (case peon_new_task env (ps_next_addr s) sn param toolbox of
       Inl e \<Rightarrow> Done (s, Inl e)
     | Inr task \<Rightarrow>
         let s = s\<lparr>ps_next_addr := ps_next_addr s + 1\<rparr>;
             static = Done (upd_peon (Static ty)
               (\<lambda>pe. pe\<lparr>pe_wait_list := pe_wait_list pe @ [task],
                        pe_worker_all_count := pe_worker_all_count pe + 1\<rparr>) s, Inr ())
         in case ps_peons s (Static ty) of
              None \<Rightarrow> Stuck
            | Some pe \<Rightarrow>
                if pe_type pe = PEON_TYPE_DISCONN \<and>
                   int (pe_worker_num pe) \<le> pe_worker_all_count pe \<and>
                   ps_dyn_worker_num s \<le> PEON_DYN_DISCONN_WORKER_LIMIT
                then
                  (case peon_dyn_create env task of
                     Stuck \<Rightarrow> Stuck
                   | Done (Some dyn) \<Rightarrow>
                       Done (s\<lparr>ps_peons := (ps_peons s)(Dyn (ps_next_addr s) := Some dyn),
                               ps_next_addr := ps_next_addr s + 1,
                               ps_dyn_worker_num := ps_dyn_worker_num s + 1\<rparr>, Inr ())
                   | Done None \<Rightarrow> static)
                else static)"

text \<open>
  \<open>peon_add_task_inner\<close>: \<open>peon_add_connect_task\<close>, \<open>peon_add_disconn_task\<close> and
  \<open>peon_add_dcbatch_task\<close> are its instances for the three peons.
\<close>

definition peon_add_task_inner ::
  "'w peon_env \<Rightarrow> peon_type \<Rightarrow> connect_param \<Rightarrow> ('w, 'c) conn_toolbox \<Rightarrow>
    ('w, 'c) peon_sys \<Rightarrow> (('w, 'c) peon_sys \<times> unit result) call" where
  "peon_add_task_inner env ty param toolbox s =
    (let (s, sn) = peon_sn_generate s in peon_task_add env ty sn param toolbox s)"

definition peon_add_connect_task where
  "peon_add_connect_task env = peon_add_task_inner env PEON_TYPE_CONNECT"

definition peon_add_disconn_task where
  "peon_add_disconn_task env = peon_add_task_inner env PEON_TYPE_DISCONN"

definition peon_add_dcbatch_task where
  "peon_add_dcbatch_task env = peon_add_task_inner env PEON_TYPE_DCBATCH"

definition peon_add_disconn_task_inherit where
  "peon_add_disconn_task_inherit env param sn toolbox =
    peon_task_add env PEON_TYPE_DISCONN sn param toolbox"

section \<open>Judging a task\<close>

definition peon_task_match ::
  "('w, 'c) peon_task \<Rightarrow> ('w, 'c) peon_task \<Rightarrow> bool \<Rightarrow> bool" where
  "peon_task_match t1 t2 isbatch =
    (let param1 = pt_param t1; param2 = pt_param t2 in
     if cp_protocol param1 \<noteq> cp_protocol param2 \<or> cp_family param1 \<noteq> cp_family param2 \<or>
        \<not> snsd_ip_match (cp_family param1) (cp_host_traddr param1) (cp_host_traddr param2)
     then False
     else if isbatch then True
     else if cp_portid param1 \<noteq> cp_portid param2 \<or>
        \<not> snsd_ip_match (cp_family param1) (cp_traddr param1) (cp_traddr param2)
     then False
     else True)"

fun peon_task_scan_list ::
  "('w, 'c) peon_task list \<Rightarrow> ('w, 'c) peon_task \<Rightarrow> bool \<Rightarrow> bool \<Rightarrow>
    ('w, 'c) peon_task list \<times> peon_task_action set" where
  "peon_task_scan_list [] task isbatch iswait = ([], {})"
| "peon_task_scan_list (p # ps) task isbatch iswait =
    (let (ps', action) = peon_task_scan_list ps task isbatch iswait in
     if pt_state p = PEON_TASK_STATE_DEAD then (p # ps', action)
     else if \<not> peon_task_match p task isbatch then (p # ps', action)
     else if pt_sn task = pt_sn p then (p # ps', action)
     else if pt_sn task < pt_sn p then (p # ps', insert PEON_TASK_ACTION_DISCARD action)
     else (p\<lparr>pt_state := PEON_TASK_STATE_DEAD\<rparr> # ps',
           if iswait then action else insert PEON_TASK_ACTION_WAIT action))"

text \<open>The lists one judgement scans, in the order of the code: peon, wait list?, batch?\<close>

definition judge_scans :: "peon_type \<Rightarrow> (peon_type \<times> bool \<times> bool) list" where
  "judge_scans ty = (case ty of
      PEON_TYPE_CONNECT \<Rightarrow>
       [(PEON_TYPE_DISCONN, True, False), (PEON_TYPE_DISCONN, False, False),
        (PEON_TYPE_DCBATCH, True, True), (PEON_TYPE_DCBATCH, False, True),
        (PEON_TYPE_CONNECT, True, False), (PEON_TYPE_CONNECT, False, False),
        (PEON_TYPE_RECHECK, True, False)]
    | PEON_TYPE_DISCONN \<Rightarrow>
       [(PEON_TYPE_CONNECT, True, False), (PEON_TYPE_CONNECT, False, False),
        (PEON_TYPE_RECHECK, True, False)]
    | PEON_TYPE_DCBATCH \<Rightarrow>
       [(PEON_TYPE_CONNECT, True, True), (PEON_TYPE_CONNECT, False, True)]
    | PEON_TYPE_RECHECK \<Rightarrow> [])"

definition scan_peon ::
  "('w, 'c) peon_task \<Rightarrow> peon_type \<times> bool \<times> bool \<Rightarrow> ('w, 'c) peon_sys \<Rightarrow>
    ('w, 'c) peon_sys \<times> peon_task_action set" where
  "scan_peon task sc s =
    (let (ty, iswait, isbatch) = sc in
     if iswait then
       (upd_peon (Static ty) (\<lambda>pe. pe\<lparr>pe_wait_list :=
          fst (peon_task_scan_list (pe_wait_list pe) task isbatch True)\<rparr>) s,
        snd (peon_task_scan_list (wait_list (Static ty) s) task isbatch True))
     else
       (upd_peon (Static ty) (\<lambda>pe. pe\<lparr>pe_proc_list :=
          fst (peon_task_scan_list (pe_proc_list pe) task isbatch False)\<rparr>) s,
        snd (peon_task_scan_list (proc_list (Static ty) s) task isbatch False)))"

fun scan_all ::
  "('w, 'c) peon_task \<Rightarrow> (peon_type \<times> bool \<times> bool) list \<Rightarrow> ('w, 'c) peon_sys \<Rightarrow>
    ('w, 'c) peon_sys \<times> peon_task_action set" where
  "scan_all task [] s = (s, {})"
| "scan_all task (sc # scs) s =
    (let (s', a) = scan_peon task sc s; (s'', b) = scan_all task scs s' in (s'', a \<union> b))"

definition peon_task_action_judge ::
  "peon_type \<Rightarrow> ('w, 'c) peon_task \<Rightarrow> ('w, 'c) peon_sys \<Rightarrow>
    ('w, 'c) peon_sys \<times> peon_task_action set" where
  "peon_task_action_judge ty task s = scan_all task (judge_scans ty) s"

definition peon_task_restrain_timeout :: "int \<Rightarrow> ('w, 'c) peon_task \<Rightarrow> u32 \<Rightarrow> bool" where
  "peon_task_restrain_timeout now task restrain_time =
    (if restrain_time = 0 \<or> now < pt_tm task \<or> now \<ge> pt_tm task + uint restrain_time
     then now \<ge> pt_next_run task
     else False)"

section \<open>Taking, completing and rechecking tasks\<close>

definition drop_waiting :: "peon_ref \<Rightarrow> nat \<Rightarrow> ('w, 'c) peon_sys \<Rightarrow> ('w, 'c) peon_sys" where
  "drop_waiting r i s = upd_peon r (\<lambda>pe. pe\<lparr>
     pe_wait_list := filter (\<lambda>t. pt_id t \<noteq> i) (pe_wait_list pe),
     pe_worker_all_count := pe_worker_all_count pe - 1\<rparr>) s"

text \<open>
  The loop of \<open>peon_task_get\<close> over the nodes of the wait list.  The judgement changes
  the state of tasks but neither adds nor removes nodes, and the loop only removes the node it
  is at, so the nodes it visits are those of the list at its start.
\<close>

fun peon_get_loop ::
  "int \<Rightarrow> peon_ref \<Rightarrow> peon_type \<Rightarrow> u32 \<Rightarrow> nat list \<Rightarrow> ('w, 'c) peon_sys \<Rightarrow>
    ('w, 'c) peon_sys \<times> ('w, 'c) peon_task option" where
  "peon_get_loop now r ty restrain [] s = (s, None)"
| "peon_get_loop now r ty restrain (i # is) s =
    (case find (\<lambda>t. pt_id t = i) (wait_list r s) of
       None \<Rightarrow> peon_get_loop now r ty restrain is s
     | Some p \<Rightarrow>
         if pt_state p = PEON_TASK_STATE_DEAD
         then peon_get_loop now r ty restrain is (drop_waiting r i s)
         else
           let (s', action) = peon_task_action_judge ty p s in
           if PEON_TASK_ACTION_WAIT \<in> action
           then peon_get_loop now r ty restrain is s'
           else if PEON_TASK_ACTION_DISCARD \<in> action
           then peon_get_loop now r ty restrain is (drop_waiting r i s')
           else if peon_task_restrain_timeout now p restrain
           then (s', Some p)
           else peon_get_loop now r ty restrain is s')"

definition start_task ::
  "peon_ref \<Rightarrow> ('w, 'c) peon_task \<Rightarrow> ('w, 'c) peon_sys \<Rightarrow> ('w, 'c) peon_sys" where
  "start_task r task s = upd_peon r (\<lambda>pe. pe\<lparr>
     pe_wait_list := filter (\<lambda>t. pt_id t \<noteq> pt_id task) (pe_wait_list pe),
     pe_proc_list := pe_proc_list pe @ [task]\<rparr>) s"

definition peon_task_get ::
  "int \<Rightarrow> peon_ref \<Rightarrow> ('w, 'c) peon_sys \<Rightarrow> ('w, 'c) peon_sys \<times> ('w, 'c) peon_task option" where
  "peon_task_get now r s =
    (case ps_peons s r of
       None \<Rightarrow> (s, None)
     | Some pe \<Rightarrow>
         (case peon_get_loop now r (pe_type pe) (pe_restrain_time pe)
                 (map pt_id (pe_wait_list pe)) s of
            (s', None) \<Rightarrow> (s', None)
          | (s', Some task) \<Rightarrow> (start_task r task s', Some task)))"

text \<open>
  \<open>peon_task_complete\<close>: the task is looked up by its address, because another worker may
  have marked it dead since it was taken; \<open>ctx\<close> is its context after the handler ran.
\<close>

definition peon_task_complete ::
  "int \<Rightarrow> peon_ref \<Rightarrow> nat \<Rightarrow> 'c option \<Rightarrow> int \<Rightarrow> ('w, 'c) peon_sys \<Rightarrow> ('w, 'c) peon_sys" where
  "peon_task_complete now r i ctx ret s =
    (case ps_peons s r of
       None \<Rightarrow> s
     | Some pe \<Rightarrow>
         (case find (\<lambda>t. pt_id t = i) (pe_proc_list pe) of
            None \<Rightarrow> s
          | Some t \<Rightarrow>
              let task = t\<lparr>pt_ctx := ctx\<rparr>;
                  s1 = upd_peon r (\<lambda>pe. pe\<lparr>
                    pe_proc_list := filter (\<lambda>t. pt_id t \<noteq> i) (pe_proc_list pe)\<rparr>) s;
                  s2 = (if pt_state task = PEON_TASK_STATE_LIVE then
                          if ret \<noteq> 0 then
                            upd_peon r (\<lambda>pe. pe\<lparr>pe_wait_list := pe_wait_list pe @
                              [task\<lparr>pt_next_run := now + PEON_FAIL_RETRY_INTERVAL\<rparr>]\<rparr>) s1
                          else if pe_type pe = PEON_TYPE_CONNECT then
                            upd_peon (Static PEON_TYPE_RECHECK) (\<lambda>pe. pe\<lparr>pe_wait_list :=
                              pe_wait_list pe @ [task\<lparr>pt_sn := 0\<rparr>]\<rparr>) s1
                          else s1
                        else s1)
              in upd_peon r (\<lambda>pe. pe\<lparr>pe_worker_all_count := pe_worker_all_count pe - 1\<rparr>) s2))"

definition peon_move_task_to_connect ::
  "int \<Rightarrow> ('w, 'c) peon_task \<Rightarrow> ('w, 'c) peon_sys \<Rightarrow> ('w, 'c) peon_sys" where
  "peon_move_task_to_connect now task s =
    (let (s, sn) = peon_sn_generate s;
         task = task\<lparr>pt_tm := now, pt_next_run := 0, pt_sn := sn,
                     pt_state := PEON_TASK_STATE_LIVE\<rparr>;
         ctx = (case tb_ctx_reinit (pt_toolbox task) of
                  None \<Rightarrow> pt_ctx task
                | Some reinit \<Rightarrow> reinit (pt_ctx task) sn)
     in upd_peon (Static PEON_TYPE_CONNECT) (\<lambda>pe. pe\<lparr>pe_wait_list :=
          pe_wait_list pe @ [task\<lparr>pt_ctx := ctx\<rparr>]\<rparr>) s)"

definition drop_recheck :: "nat \<Rightarrow> ('w, 'c) peon_sys \<Rightarrow> ('w, 'c) peon_sys" where
  "drop_recheck i s = upd_peon (Static PEON_TYPE_RECHECK) (\<lambda>pe. pe\<lparr>
     pe_wait_list := filter (\<lambda>t. pt_id t \<noteq> i) (pe_wait_list pe)\<rparr>) s"

fun peon_recheck_loop ::
  "int \<Rightarrow> 'w \<Rightarrow> ('w, 'c) peon_task list \<Rightarrow> ('w, 'c) peon_sys \<Rightarrow> ('w, 'c) peon_sys" where
  "peon_recheck_loop now w [] s = s"
| "peon_recheck_loop now w (task # ts) s =
    (if pt_state task = PEON_TASK_STATE_DEAD
     then peon_recheck_loop now w ts (drop_recheck (pt_id task) s)
     else case tb_recheck (pt_toolbox task) of
       None \<Rightarrow> peon_recheck_loop now w ts (drop_recheck (pt_id task) s)
     | Some recheck \<Rightarrow>
         if recheck w (pt_ctx task) = 0 then peon_recheck_loop now w ts s
         else peon_recheck_loop now w ts
                (peon_move_task_to_connect now task (drop_recheck (pt_id task) s)))"

definition peon_run_recheck ::
  "int \<Rightarrow> 'w \<Rightarrow> ('w, 'c) peon_sys \<Rightarrow> ('w, 'c) peon_sys" where
  "peon_run_recheck now w s =
    peon_recheck_loop now w (wait_list (Static PEON_TYPE_RECHECK) s) s"

definition peon_worker_adjust_period :: "('w, 'c) peon \<Rightarrow> nat" where
  "peon_worker_adjust_period pe =
    (if pe_wait_list pe = [] then pe_normal_period pe else pe_fast_period pe)"

text \<open>
  \<open>peon_deconstruct\<close> of a dynamic peon, as its own thread calls it after its single call
  of \<open>peon_task_proc\<close>: whatever still waits is freed with the peon.
\<close>

definition peon_dyn_exit :: "nat \<Rightarrow> ('w, 'c) peon_sys \<Rightarrow> ('w, 'c) peon_sys" where
  "peon_dyn_exit d s = s\<lparr>ps_peons := (ps_peons s)(Dyn d := None),
     ps_dyn_worker_num := ps_dyn_worker_num s - 1\<rparr>"

end
