(* ===== verification/Snsd_Peon_Props.thy ===== *)
theory Snsd_Peon_Props
  imports Snsd_Peon "HOL-Library.Sublist"
begin

text \<open>
  What the functions of \<open>Snsd_Peon\<close> do: matching is symmetric and transitive; a scan only
  turns tasks dead (\<open>deadens\<close>); the judgement is characterised by the live tasks of the
  scanned lists; taking a task leaves it the only live one of its device, and the newest request
  for a device is never thrown away; completion, recheck and the restrain time on each branch.
\<close>

section \<open>Reading and updating the peons\<close>

lemma ps_peons_upd_peon [simp]:
  "ps_peons (upd_peon r f s) q = (if q = r then map_option f (ps_peons s r) else ps_peons s q)"
  by (simp add: upd_peon_def)

lemma upd_peon_frame [simp]:
  "ps_sn (upd_peon r f s) = ps_sn s"
  "ps_dyn_worker_num (upd_peon r f s) = ps_dyn_worker_num s"
  "ps_next_addr (upd_peon r f s) = ps_next_addr s"
  by (simp_all add: upd_peon_def)

lemma wait_list_Some [simp]: "ps_peons s r = Some pe \<Longrightarrow> wait_list r s = pe_wait_list pe"
  by (simp add: wait_list_def)

lemma proc_list_Some [simp]: "ps_peons s r = Some pe \<Longrightarrow> proc_list r s = pe_proc_list pe"
  by (simp add: proc_list_def)

definition list_at :: "peon_ref \<Rightarrow> bool \<Rightarrow> ('w, 'c) peon_sys \<Rightarrow> ('w, 'c) peon_task list" where
  "list_at r iswait s = (if iswait then wait_list r s else proc_list r s)"

lemma list_at_upd_other: "q \<noteq> r \<Longrightarrow> list_at q w (upd_peon r f s) = list_at q w s"
  by (simp add: list_at_def wait_list_def proc_list_def)

section \<open>Matching\<close>

lemma peon_task_match_iff:
  "peon_task_match t1 t2 b \<longleftrightarrow>
    cp_protocol (pt_param t1) = cp_protocol (pt_param t2) \<and>
    cp_family (pt_param t1) = cp_family (pt_param t2) \<and>
    snsd_ip_match (cp_family (pt_param t1)) (cp_host_traddr (pt_param t1)) (cp_host_traddr (pt_param t2)) \<and>
    (b \<or> cp_portid (pt_param t1) = cp_portid (pt_param t2) \<and>
      snsd_ip_match (cp_family (pt_param t1)) (cp_traddr (pt_param t1)) (cp_traddr (pt_param t2)))"
  by (auto simp: peon_task_match_def Let_def)

lemma peon_task_match_sym: "peon_task_match t1 t2 b \<longleftrightarrow> peon_task_match t2 t1 b"
  by (auto simp: peon_task_match_iff snsd_ip_match_sym)

lemma peon_task_match_trans:
  "peon_task_match t1 t2 b \<Longrightarrow> peon_task_match t2 t3 b \<Longrightarrow> peon_task_match t1 t3 b"
  by (auto simp: peon_task_match_iff intro: snsd_ip_match_trans)

lemma peon_task_match_param_cong:
  "pt_param t1 = pt_param u1 \<Longrightarrow> pt_param t2 = pt_param u2 \<Longrightarrow>
    peon_task_match t1 t2 b = peon_task_match u1 u2 b"
  by (simp add: peon_task_match_iff)

section \<open>Scans only turn tasks dead\<close>

definition kills :: "('w, 'c) peon_task \<Rightarrow> ('w, 'c) peon_task \<Rightarrow> bool" where
  "kills t t' \<longleftrightarrow> t' = t \<or> t' = t\<lparr>pt_state := PEON_TASK_STATE_DEAD\<rparr>"

lemma kills_refl [simp]: "kills t t"
  by (simp add: kills_def)

lemma kills_trans: "kills a b \<Longrightarrow> kills b c \<Longrightarrow> kills a c"
  by (auto simp: kills_def)

lemma kills_fields:
  assumes "kills t t'"
  shows "pt_id t' = pt_id t" "pt_sn t' = pt_sn t" "pt_tm t' = pt_tm t"
    "pt_next_run t' = pt_next_run t" "pt_param t' = pt_param t"
    "pt_toolbox t' = pt_toolbox t" "pt_ctx t' = pt_ctx t"
  using assms by (auto simp: kills_def)

lemma kills_live: "kills t t' \<Longrightarrow> pt_state t' = PEON_TASK_STATE_LIVE \<Longrightarrow> t' = t"
  by (auto simp: kills_def)

definition pe_kills :: "('w, 'c) peon \<Rightarrow> ('w, 'c) peon \<Rightarrow> bool" where
  "pe_kills pe pe' \<longleftrightarrow>
    (\<exists>ws ps. list_all2 kills (pe_wait_list pe) ws \<and> list_all2 kills (pe_proc_list pe) ps \<and>
      pe' = pe\<lparr>pe_wait_list := ws, pe_proc_list := ps\<rparr>)"

lemma pe_killsI:
  "list_all2 kills (pe_wait_list pe) ws \<Longrightarrow> list_all2 kills (pe_proc_list pe) ps \<Longrightarrow>
    pe_kills pe (pe\<lparr>pe_wait_list := ws, pe_proc_list := ps\<rparr>)"
  by (auto simp: pe_kills_def)

lemma pe_kills_refl [simp]: "pe_kills pe pe"
  using pe_killsI [of pe "pe_wait_list pe" "pe_proc_list pe"] by (simp add: list_all2_refl)

lemma pe_kills_wait:
  "list_all2 kills (pe_wait_list pe) ws \<Longrightarrow> pe_kills pe (pe\<lparr>pe_wait_list := ws\<rparr>)"
  using pe_killsI [of pe ws "pe_proc_list pe"] by (cases pe) (simp add: list_all2_refl)

lemma pe_kills_proc:
  "list_all2 kills (pe_proc_list pe) ps \<Longrightarrow> pe_kills pe (pe\<lparr>pe_proc_list := ps\<rparr>)"
  using pe_killsI [of pe "pe_wait_list pe" ps] by (cases pe) (simp add: list_all2_refl)

lemma pe_kills_trans:
  assumes "pe_kills a b" and "pe_kills b c"
  shows "pe_kills a c"
proof -
  from assms(1) obtain ws ps where b: "list_all2 kills (pe_wait_list a) ws"
    "list_all2 kills (pe_proc_list a) ps" "b = a\<lparr>pe_wait_list := ws, pe_proc_list := ps\<rparr>"
    by (auto simp: pe_kills_def)
  from assms(2) b(3) obtain ws' ps' where c: "list_all2 kills ws ws'" "list_all2 kills ps ps'"
    "c = a\<lparr>pe_wait_list := ws', pe_proc_list := ps'\<rparr>"
    by (auto simp: pe_kills_def)
  have "list_all2 kills (pe_wait_list a) ws'"
    by (rule list_all2_trans [OF kills_trans b(1) c(1)])
  moreover have "list_all2 kills (pe_proc_list a) ps'"
    by (rule list_all2_trans [OF kills_trans b(2) c(2)])
  ultimately show ?thesis using c(3) by (auto simp: pe_kills_def)
qed

lemma pe_kills_frame:
  assumes "pe_kills pe pe'"
  shows "pe_type pe' = pe_type pe" "pe_dynamic pe' = pe_dynamic pe"
    "pe_restrain_time pe' = pe_restrain_time pe" "pe_worker_num pe' = pe_worker_num pe"
    "pe_worker_all_count pe' = pe_worker_all_count pe"
  using assms by (auto simp: pe_kills_def)

definition deadens :: "('w, 'c) peon_sys \<Rightarrow> ('w, 'c) peon_sys \<Rightarrow> bool" where
  "deadens s s' \<longleftrightarrow>
    ps_sn s' = ps_sn s \<and> ps_dyn_worker_num s' = ps_dyn_worker_num s \<and>
    ps_next_addr s' = ps_next_addr s \<and>
    (\<forall>r. rel_option pe_kills (ps_peons s r) (ps_peons s' r))"

lemma deadens_refl [simp]: "deadens s s"
  by (simp add: deadens_def option.rel_refl)

lemma deadens_trans: "deadens a b \<Longrightarrow> deadens b c \<Longrightarrow> deadens a c"
  unfolding deadens_def by (auto intro: option.rel_transp [THEN transpD] transpI pe_kills_trans)

lemma deadens_list_at: "deadens s s' \<Longrightarrow> list_all2 kills (list_at r w s) (list_at r w s')"
  unfolding deadens_def list_at_def wait_list_def proc_list_def
  by (elim conjE allE [of _ r], cases "ps_peons s r"; cases "ps_peons s' r")
    (auto simp: pe_kills_def)

lemma deadens_fields:
  assumes "deadens s s'"
  shows "ps_sn s' = ps_sn s" "ps_dyn_worker_num s' = ps_dyn_worker_num s"
    "ps_next_addr s' = ps_next_addr s"
  using assms by (simp_all add: deadens_def)

lemma deadens_peon:
  assumes "deadens s s'" and "ps_peons s r = Some pe"
  obtains pe' where "ps_peons s' r = Some pe'" and "pe_kills pe pe'"
  using assms by (auto simp: deadens_def dest!: spec [of _ r] elim: option.rel_cases)

lemma list_all2_kills_ids: "list_all2 kills xs ys \<Longrightarrow> map pt_id ys = map pt_id xs"
  by (induction rule: list_all2_induct) (auto dest: kills_fields)

lemma list_all2_kills_live:
  "list_all2 kills xs ys \<Longrightarrow> t \<in> set ys \<Longrightarrow> pt_state t = PEON_TASK_STATE_LIVE \<Longrightarrow> t \<in> set xs"
  by (induction rule: list_all2_induct) (auto dest: kills_live)

lemma list_all2_kills_mem:
  "list_all2 kills xs ys \<Longrightarrow> t \<in> set ys \<Longrightarrow> \<exists>u \<in> set xs. kills u t"
  by (induction rule: list_all2_induct) auto

lemma deadens_ids: "deadens s s' \<Longrightarrow> map pt_id (list_at r w s') = map pt_id (list_at r w s)"
  by (rule list_all2_kills_ids [OF deadens_list_at])

lemma deadens_live:
  "deadens s s' \<Longrightarrow> t \<in> set (list_at r w s') \<Longrightarrow> pt_state t = PEON_TASK_STATE_LIVE \<Longrightarrow>
    t \<in> set (list_at r w s)"
  by (rule list_all2_kills_live [OF deadens_list_at])

lemma scan_list_kills:
  "list_all2 kills ps (fst (peon_task_scan_list ps task b w))"
  by (induction ps) (auto simp: kills_def split: prod.splits)

lemma deadens_upd:
  assumes "\<And>pe. ps_peons s r = Some pe \<Longrightarrow> pe_kills pe (f pe)"
  shows "deadens s (upd_peon r f s)"
  using assms by (cases "ps_peons s r") (auto simp: deadens_def option.rel_refl)

lemma scan_peon_deadens: "deadens s (fst (scan_peon task sc s))"
proof -
  obtain ty w b where sc: "sc = (ty, w, b)" by (cases sc)
  show ?thesis
    unfolding sc scan_peon_def
    by (cases w) (auto intro!: deadens_upd pe_kills_wait pe_kills_proc scan_list_kills)
qed

lemma scan_all_deadens: "deadens s (fst (scan_all task scs s))"
proof (induction scs arbitrary: s)
  case Nil
  then show ?case by simp
next
  case (Cons sc scs)
  have "deadens s (fst (scan_peon task sc s))" by (rule scan_peon_deadens)
  also have "deadens (fst (scan_peon task sc s)) (fst (scan_all task scs (fst (scan_peon task sc s))))"
    by (rule Cons.IH)
  finally (deadens_trans) show ?case by (simp add: split_beta)
qed

lemma judge_deadens: "deadens s (fst (peon_task_action_judge ty task s))"
  by (simp add: peon_task_action_judge_def scan_all_deadens)

section \<open>What a judgement decides\<close>

abbreviation live :: "('w, 'c) peon_task \<Rightarrow> bool" where
  "live t \<equiv> pt_state t = PEON_TASK_STATE_LIVE"

lemma not_dead_iff_live: "pt_state t \<noteq> PEON_TASK_STATE_DEAD \<longleftrightarrow> live t"
  by (cases "pt_state t") simp_all

lemma scan_list_discard:
  "PEON_TASK_ACTION_DISCARD \<in> snd (peon_task_scan_list ps task b w) \<longleftrightarrow>
    (\<exists>p \<in> set ps. live p \<and> peon_task_match p task b \<and> pt_sn task < pt_sn p)"
  by (induction ps) (auto simp: not_dead_iff_live split: prod.splits)

lemma scan_list_wait:
  "PEON_TASK_ACTION_WAIT \<in> snd (peon_task_scan_list ps task b w) \<longleftrightarrow>
    \<not> w \<and> (\<exists>p \<in> set ps. live p \<and> peon_task_match p task b \<and> pt_sn p < pt_sn task)"
  by (induction ps) (auto simp: not_dead_iff_live split: prod.splits)

text \<open>After a scan no older live task of the device is left in the list.\<close>

lemma scan_list_clean:
  "t \<in> set (fst (peon_task_scan_list ps task b w)) \<Longrightarrow> live t \<Longrightarrow> peon_task_match t task b \<Longrightarrow>
    pt_sn task \<le> pt_sn t"
  by (induction ps) (auto simp: not_dead_iff_live split: prod.splits if_splits)

lemma scan_list_keeps:
  "t \<in> set ps \<Longrightarrow> \<not> (live t \<and> peon_task_match t task b \<and> pt_sn t < pt_sn task) \<Longrightarrow>
    t \<in> set (fst (peon_task_scan_list ps task b w))"
  by (induction ps) (auto simp: not_dead_iff_live split: prod.splits if_splits)

lemma scan_list_marks:
  "t \<in> set ps \<Longrightarrow> live t \<Longrightarrow> peon_task_match t task b \<Longrightarrow> pt_sn t < pt_sn task \<Longrightarrow>
    t\<lparr>pt_state := PEON_TASK_STATE_DEAD\<rparr> \<in> set (fst (peon_task_scan_list ps task b w))"
  by (induction ps) (auto simp: not_dead_iff_live split: prod.splits if_splits)

lemma scan_peon_list_at:
  "list_at r w' (fst (scan_peon task (ty, w, b) s)) =
    (if r = Static ty \<and> w' = w then fst (peon_task_scan_list (list_at r w' s) task b w)
     else list_at r w' s)"
  by (cases "ps_peons s (Static ty)")
    (auto simp: scan_peon_def list_at_def wait_list_def proc_list_def)

lemma scan_peon_action:
  "snd (scan_peon task (ty, w, b) s) = snd (peon_task_scan_list (list_at (Static ty) w s) task b w)"
  by (simp add: scan_peon_def list_at_def)

abbreviation scan_target :: "peon_type \<times> bool \<times> bool \<Rightarrow> peon_type \<times> bool" where
  "scan_target sc \<equiv> (fst sc, fst (snd sc))"

lemma scan_all_list_at_other:
  "(\<And>ty b. r = Static ty \<Longrightarrow> (ty, w, b) \<notin> set scs) \<Longrightarrow>
    list_at r w (fst (scan_all task scs s)) = list_at r w s"
proof (induction scs arbitrary: s)
  case Nil
  then show ?case by simp
next
  case (Cons sc scs)
  obtain ty v b where sc: "sc = (ty, v, b)" by (cases sc)
  have "list_at r w (fst (scan_all task scs (fst (scan_peon task sc s)))) =
      list_at r w (fst (scan_peon task sc s))"
    by (rule Cons.IH) (use Cons.prems in auto)
  also have "\<dots> = list_at r w s"
    using Cons.prems [of ty b] sc by (auto simp: scan_peon_list_at)
  finally show ?case by (simp add: split_beta)
qed

lemma scan_all_list_at:
  assumes "distinct (map scan_target scs)" and "(ty, w, b) \<in> set scs"
  shows "list_at (Static ty) w (fst (scan_all task scs s)) =
    fst (peon_task_scan_list (list_at (Static ty) w s) task b w)"
  using assms
proof (induction scs arbitrary: s)
  case Nil
  then show ?case by simp
next
  case (Cons sc scs)
  obtain ty' w' b' where sc: "sc = (ty', w', b')" by (cases sc)
  let ?s = "fst (scan_peon task sc s)"
  show ?case
  proof (cases "sc = (ty, w, b)")
    case True
    have "list_at (Static ty) w (fst (scan_all task scs ?s)) = list_at (Static ty) w ?s"
      by (rule scan_all_list_at_other) (use True Cons.prems(1) in force)
    with True show ?thesis by (simp add: split_beta scan_peon_list_at)
  next
    case False
    then have mem: "(ty, w, b) \<in> set scs" using Cons.prems(2) by auto
    then have "(ty, w) \<noteq> (ty', w')" using Cons.prems(1) sc by force
    then have "list_at (Static ty) w ?s = list_at (Static ty) w s"
      by (auto simp: sc scan_peon_list_at)
    moreover have "list_at (Static ty) w (fst (scan_all task scs ?s)) =
        fst (peon_task_scan_list (list_at (Static ty) w ?s) task b w)"
      by (rule Cons.IH) (use Cons.prems(1) mem in auto)
    ultimately show ?thesis by (simp add: split_beta)
  qed
qed

lemma scan_all_action:
  assumes "distinct (map scan_target scs)"
  shows "a \<in> snd (scan_all task scs s) \<longleftrightarrow>
    (\<exists>ty w b. (ty, w, b) \<in> set scs \<and>
      a \<in> snd (peon_task_scan_list (list_at (Static ty) w s) task b w))"
  using assms
proof (induction scs arbitrary: s)
  case Nil
  then show ?case by simp
next
  case (Cons sc scs)
  obtain ty' w' b' where sc: "sc = (ty', w', b')" by (cases sc)
  let ?s = "fst (scan_peon task sc s)"
  have same: "list_at (Static ty) w ?s = list_at (Static ty) w s" if "(ty, w, b) \<in> set scs" for ty w b
  proof -
    have "(ty, w) \<noteq> (ty', w')" using that Cons.prems sc by force
    then show ?thesis by (auto simp: sc scan_peon_list_at)
  qed
  have "a \<in> snd (scan_all task scs ?s) \<longleftrightarrow>
    (\<exists>ty w b. (ty, w, b) \<in> set scs \<and>
      a \<in> snd (peon_task_scan_list (list_at (Static ty) w ?s) task b w))"
    by (rule Cons.IH) (use Cons.prems in simp)
  also have "\<dots> \<longleftrightarrow> (\<exists>ty w b. (ty, w, b) \<in> set scs \<and>
      a \<in> snd (peon_task_scan_list (list_at (Static ty) w s) task b w))"
    using same by metis
  finally show ?case
    by (auto simp: sc split_beta scan_peon_action)
qed

lemma judge_scans_distinct: "distinct (map scan_target (judge_scans ty))"
  by (cases ty) (simp_all add: judge_scans_def)

text \<open>
  A task is discarded exactly when a scanned list holds a newer live task of the device, and
  waits exactly when a scanned processing list holds an older live one.
\<close>

lemma judge_discard:
  "PEON_TASK_ACTION_DISCARD \<in> snd (peon_task_action_judge ty task s) \<longleftrightarrow>
    (\<exists>ty' w b p. (ty', w, b) \<in> set (judge_scans ty) \<and> p \<in> set (list_at (Static ty') w s) \<and>
      live p \<and> peon_task_match p task b \<and> pt_sn task < pt_sn p)"
  by (auto simp: peon_task_action_judge_def scan_all_action [OF judge_scans_distinct] scan_list_discard)

lemma judge_wait:
  "PEON_TASK_ACTION_WAIT \<in> snd (peon_task_action_judge ty task s) \<longleftrightarrow>
    (\<exists>ty' b p. (ty', False, b) \<in> set (judge_scans ty) \<and> p \<in> set (list_at (Static ty') False s) \<and>
      live p \<and> peon_task_match p task b \<and> pt_sn p < pt_sn task)"
  unfolding peon_task_action_judge_def scan_all_action [OF judge_scans_distinct] scan_list_wait
    Bex_def ex_bool_eq
  by simp

lemma judge_list_at:
  "(ty', w, b) \<in> set (judge_scans ty) \<Longrightarrow>
    list_at (Static ty') w (fst (peon_task_action_judge ty task s)) =
      fst (peon_task_scan_list (list_at (Static ty') w s) task b w)"
  unfolding peon_task_action_judge_def
  by (rule scan_all_list_at [OF judge_scans_distinct])

lemma judge_list_at_other:
  "(\<And>ty' b. r = Static ty' \<Longrightarrow> (ty', w, b) \<notin> set (judge_scans ty)) \<Longrightarrow>
    list_at r w (fst (peon_task_action_judge ty task s)) = list_at r w s"
  unfolding peon_task_action_judge_def by (rule scan_all_list_at_other)

section \<open>The loop of peon\_task\_get\<close>

text \<open>
  Going through a wait list only turns tasks dead and removes waiting ones: \<open>prunes\<close>.
\<close>

definition peon_meta :: "('w, 'c) peon \<Rightarrow> peon_type \<times> nat" where
  [simp]: "peon_meta pe = (pe_type pe, pe_worker_num pe)"

definition prunes :: "('w, 'c) peon_sys \<Rightarrow> ('w, 'c) peon_sys \<Rightarrow> bool" where
  "prunes s s' \<longleftrightarrow>
    ps_sn s' = ps_sn s \<and> ps_dyn_worker_num s' = ps_dyn_worker_num s \<and>
    ps_next_addr s' = ps_next_addr s \<and>
    (\<forall>q. map_option peon_meta (ps_peons s' q) = map_option peon_meta (ps_peons s q)) \<and>
    (\<forall>q. list_all2 kills (proc_list q s) (proc_list q s')) \<and>
    (\<forall>q. subseq (map pt_id (wait_list q s')) (map pt_id (wait_list q s))) \<and>
    (\<forall>q. \<forall>t \<in> set (wait_list q s'). \<exists>u \<in> set (wait_list q s). kills u t)"

lemma deadens_type:
  "deadens s s' \<Longrightarrow> map_option peon_meta (ps_peons s' q) = map_option peon_meta (ps_peons s q)"
  unfolding deadens_def
  by (elim conjE allE [of _ q]) (erule option.rel_cases, auto dest: pe_kills_frame)

lemma deadens_prunes: "deadens s s' \<Longrightarrow> prunes s s'"
proof -
  assume d: "deadens s s'"
  have w: "list_all2 kills (wait_list q s) (wait_list q s')" for q
    using deadens_list_at [OF d, of q True] by (simp add: list_at_def)
  have p: "list_all2 kills (proc_list q s) (proc_list q s')" for q
    using deadens_list_at [OF d, of q False] by (simp add: list_at_def)
  show "prunes s s'"
    unfolding prunes_def
    by (simp add: deadens_fields [OF d] deadens_type [OF d] p list_all2_kills_ids [OF w])
      (use list_all2_kills_mem [OF w] in blast)
qed

lemma prunes_refl [simp]: "prunes s s"
  by (rule deadens_prunes) simp

lemma prunes_trans:
  assumes "prunes a b" and "prunes b c"
  shows "prunes a c"
proof -
  have p: "list_all2 kills (proc_list q a) (proc_list q c)" for q
  proof -
    have "list_all2 kills (proc_list q a) (proc_list q b)" "list_all2 kills (proc_list q b) (proc_list q c)"
      using assms by (simp_all add: prunes_def)
    then show ?thesis by (rule list_all2_trans [rotated]) (rule kills_trans)
  qed
  have i: "subseq (map pt_id (wait_list q c)) (map pt_id (wait_list q a))" for q
    using assms subseq_order.order_trans unfolding prunes_def by blast
  have w: "\<exists>u \<in> set (wait_list q a). kills u t" if "t \<in> set (wait_list q c)" for q t
    using assms that kills_trans unfolding prunes_def by blast
  show ?thesis
    unfolding prunes_def using p i w assms by (simp add: prunes_def)
qed

lemma wait_list_drop_waiting [simp]:
  "wait_list q (drop_waiting r i s) =
    (if q = r then filter (\<lambda>t. pt_id t \<noteq> i) (wait_list r s) else wait_list q s)"
  by (cases "ps_peons s r") (simp_all add: drop_waiting_def wait_list_def)

lemma proc_list_drop_waiting [simp]: "proc_list q (drop_waiting r i s) = proc_list q s"
  by (cases "ps_peons s r") (simp_all add: drop_waiting_def proc_list_def)

lemma subseq_map_filter: "subseq (map f (filter P xs)) (map f xs)"
  by (induction xs) auto

lemma drop_waiting_prunes: "prunes s (drop_waiting r i s)"
proof -
  have "map_option peon_meta (ps_peons (drop_waiting r i s) q) = map_option peon_meta (ps_peons s q)" for q
    by (cases "ps_peons s r") (simp_all add: drop_waiting_def)
  then show ?thesis
    unfolding prunes_def
    by (auto simp: subseq_map_filter list_all2_refl intro: kills_refl)
      (simp_all add: drop_waiting_def)
qed

lemma subseq_distinctD: "subseq xs ys \<Longrightarrow> distinct ys \<Longrightarrow> distinct xs"
  by (induction rule: list_emb.induct) (auto dest: list_emb_set)

lemma prunes_live:
  "prunes s s' \<Longrightarrow> t \<in> set (list_at q w s') \<Longrightarrow> live t \<Longrightarrow> t \<in> set (list_at q w s)"
  unfolding prunes_def list_at_def
  by (cases w) (fastforce dest: kills_live list_all2_kills_live)+

lemma prunes_distinct:
  "prunes s s' \<Longrightarrow> distinct (map pt_id (wait_list q s)) \<Longrightarrow> distinct (map pt_id (wait_list q s'))"
  unfolding prunes_def using subseq_distinctD by blast

lemma prunes_proc: "prunes s s' \<Longrightarrow> list_all2 kills (proc_list q s) (proc_list q s')"
  by (simp add: prunes_def)

lemma judge_prunes: "prunes s (fst (peon_task_action_judge ty task s))"
  by (rule deadens_prunes [OF judge_deadens])

text \<open>One round of the loop: the state after it and whether the task is taken.\<close>

lemma find_waiting:
  assumes "find (\<lambda>t. pt_id t = i) xs = Some p"
  shows "p \<in> set xs" and "pt_id p = i"
  using assms by (auto simp: find_Some_iff)

lemma get_loop_cases:
  assumes "find (\<lambda>t. pt_id t = i) (wait_list r s) = Some p"
  obtains (dead) "pt_state p = PEON_TASK_STATE_DEAD"
      "peon_get_loop now r ty rt (i # ids) s = peon_get_loop now r ty rt ids (drop_waiting r i s)"
  | (skip) s' a where "live p" "peon_task_action_judge ty p s = (s', a)"
      "PEON_TASK_ACTION_WAIT \<in> a \<or>
       PEON_TASK_ACTION_DISCARD \<notin> a \<and> \<not> peon_task_restrain_timeout now p rt"
      "peon_get_loop now r ty rt (i # ids) s = peon_get_loop now r ty rt ids s'"
  | (discard) s' a where "live p" "peon_task_action_judge ty p s = (s', a)"
      "PEON_TASK_ACTION_DISCARD \<in> a"
      "peon_get_loop now r ty rt (i # ids) s = peon_get_loop now r ty rt ids (drop_waiting r i s')"
  | (take) s' a where "live p" "peon_task_action_judge ty p s = (s', a)"
      "PEON_TASK_ACTION_WAIT \<notin> a" "PEON_TASK_ACTION_DISCARD \<notin> a"
      "peon_task_restrain_timeout now p rt"
      "peon_get_loop now r ty rt (i # ids) s = (s', Some p)"
proof (cases "pt_state p = PEON_TASK_STATE_DEAD")
  case True
  with assms show ?thesis by (intro dead) simp_all
next
  case False
  obtain s' a where j: "peon_task_action_judge ty p s = (s', a)"
    by (cases "peon_task_action_judge ty p s")
  from False have l: "live p" by (simp add: not_dead_iff_live)
  consider "PEON_TASK_ACTION_WAIT \<in> a"
    | "PEON_TASK_ACTION_WAIT \<notin> a" "PEON_TASK_ACTION_DISCARD \<in> a"
    | "PEON_TASK_ACTION_WAIT \<notin> a" "PEON_TASK_ACTION_DISCARD \<notin> a"
      "\<not> peon_task_restrain_timeout now p rt"
    | "PEON_TASK_ACTION_WAIT \<notin> a" "PEON_TASK_ACTION_DISCARD \<notin> a"
      "peon_task_restrain_timeout now p rt"
    by blast
  then show ?thesis
  proof cases
    case 1
    with assms l j show ?thesis by (intro skip [of s' a]) simp_all
  next
    case 2
    with assms l j show ?thesis by (intro discard [of s' a]) simp_all
  next
    case 3
    with assms l j show ?thesis by (intro skip [of s' a]) simp_all
  next
    case 4
    with assms l j show ?thesis by (intro take [of s' a]) simp_all
  qed
qed

lemma get_loop_absent:
  "find (\<lambda>t. pt_id t = i) (wait_list r s) = None \<Longrightarrow>
    peon_get_loop now r ty rt (i # ids) s = peon_get_loop now r ty rt ids s"
  by simp

lemma get_loop_prunes: "prunes s (fst (peon_get_loop now r ty rt ids s))"
proof (induction ids arbitrary: s)
  case Nil
  then show ?case by simp
next
  case (Cons i ids)
  show ?case
  proof (cases "find (\<lambda>t. pt_id t = i) (wait_list r s)")
    case None
    then show ?thesis using Cons.IH by (simp add: get_loop_absent del: peon_get_loop.simps)
  next
    case (Some p)
    have j: "prunes s s'" if "peon_task_action_judge ty p s = (s', a)" for s' a
      using judge_prunes [of s ty p] that by simp
    from Some show ?thesis
      by (cases rule: get_loop_cases [where now = now and ty = ty and rt = rt and ids = ids])
        (use prunes_trans [OF drop_waiting_prunes Cons.IH] prunes_trans [OF j Cons.IH]
           prunes_trans [OF j prunes_trans [OF drop_waiting_prunes Cons.IH]] j
         in \<open>simp_all del: peon_get_loop.simps\<close>)
  qed
qed

lemma get_loop_Some:
  assumes "peon_get_loop now r ty rt ids s = (s', Some t)"
  shows "\<exists>s0 a. prunes s s0 \<and> t \<in> set (wait_list r s0) \<and> live t \<and>
    peon_task_action_judge ty t s0 = (s', a) \<and> PEON_TASK_ACTION_WAIT \<notin> a \<and>
    PEON_TASK_ACTION_DISCARD \<notin> a \<and> peon_task_restrain_timeout now t rt"
  using assms
proof (induction ids arbitrary: s)
  case Nil
  then show ?case by simp
next
  case (Cons i ids)
  show ?case
  proof (cases "find (\<lambda>t. pt_id t = i) (wait_list r s)")
    case None
    then show ?thesis using Cons by (simp add: get_loop_absent del: peon_get_loop.simps)
  next
    case (Some p)
    have j: "prunes s s1" if "peon_task_action_judge ty p s = (s1, a)" for s1 a
      using judge_prunes [of s ty p] that by simp
    from Some show ?thesis
    proof (cases rule: get_loop_cases [where now = now and ty = ty and rt = rt and ids = ids])
      case dead
      with Cons.IH Cons.prems prunes_trans [OF drop_waiting_prunes] show ?thesis by metis
    next
      case (skip s1 a)
      with Cons.IH Cons.prems prunes_trans [OF j] show ?thesis by metis
    next
      case (discard s1 a)
      with Cons.IH Cons.prems prunes_trans [OF j prunes_trans [OF drop_waiting_prunes]]
      show ?thesis by metis
    next
      case (take s1 a)
      moreover from take(6) Cons.prems have "s' = s1" "t = p" by simp_all
      ultimately show ?thesis using find_waiting [OF Some] by (intro exI [of _ s] exI [of _ a]) simp
    qed
  qed
qed

text \<open>
  A request of peon \<open>q0\<close> is superseded when a live request with a higher serial number is
  about the same device (or, when one of the two is a batch disconnect, the same host port).
\<close>

fun peon_kind :: "peon_ref \<Rightarrow> peon_type" where
  "peon_kind (Static ty) = ty"
| "peon_kind (Dyn d) = PEON_TYPE_DISCONN"

definition same_request ::
  "peon_ref \<Rightarrow> ('w, 'c) peon_task \<Rightarrow> peon_ref \<Rightarrow> ('w, 'c) peon_task \<Rightarrow> bool" where
  "same_request q p q0 t \<longleftrightarrow> peon_task_match p t
    (peon_kind q = PEON_TYPE_DCBATCH \<or> peon_kind q0 = PEON_TYPE_DCBATCH)"

definition superseded :: "('w, 'c) peon_sys \<Rightarrow> peon_ref \<Rightarrow> ('w, 'c) peon_task \<Rightarrow> bool" where
  "superseded s q0 t \<longleftrightarrow>
    (\<exists>q w p. p \<in> set (list_at q w s) \<and> live p \<and> same_request q p q0 t \<and> pt_sn t < pt_sn p)"

lemma same_request_sym: "same_request q p q0 t \<longleftrightarrow> same_request q0 t q p"
  unfolding same_request_def by (subst peon_task_match_sym) (simp add: disj_commute)

lemma judge_scans_batch:
  "(ty', w, b) \<in> set (judge_scans ty) \<Longrightarrow>
    b = (ty = PEON_TYPE_DCBATCH \<or> ty' = PEON_TYPE_DCBATCH)"
  by (cases ty) (auto simp: judge_scans_def)

lemma scanned_same_request:
  "(ty', w, b) \<in> set (judge_scans (peon_kind r)) \<Longrightarrow>
    same_request (Static ty') p r t \<longleftrightarrow> peon_task_match p t b"
  by (auto dest!: judge_scans_batch simp: same_request_def disj_commute)

lemma supersededI:
  "p \<in> set (list_at q w s) \<Longrightarrow> live p \<Longrightarrow> same_request q p q0 t \<Longrightarrow> pt_sn t < pt_sn p \<Longrightarrow>
    superseded s q0 t"
  unfolding superseded_def by blast

lemma superseded_prunes: "superseded s' q0 t \<Longrightarrow> prunes s s' \<Longrightarrow> superseded s q0 t"
  unfolding superseded_def using prunes_live by blast

lemma judge_keeps:
  assumes "peon_task_action_judge (peon_kind r) p s = (s', a)" and "p \<in> set (list_at r w' s)"
    and "live p" and "t \<in> set (list_at q w s)" and "live t" and "\<not> superseded s q t"
  shows "t \<in> set (list_at q w s')"
proof (cases "\<exists>ty' b. q = Static ty' \<and> (ty', w, b) \<in> set (judge_scans (peon_kind r))")
  case True
  then obtain ty' b where q: "q = Static ty'"
    and sc: "(ty', w, b) \<in> set (judge_scans (peon_kind r))" by blast
  have "\<not> (live t \<and> peon_task_match t p b \<and> pt_sn t < pt_sn p)"
    using supersededI [OF assms(2,3), of q t] assms(6) scanned_same_request [OF sc]
    by (metis q same_request_sym)
  then have "t \<in> set (fst (peon_task_scan_list (list_at q w s) p b w))"
    by (rule scan_list_keeps [OF assms(4)])
  with judge_list_at [OF sc, of p s] assms(1) q show ?thesis by simp
next
  case False
  then have "list_at q w (fst (peon_task_action_judge (peon_kind r) p s)) = list_at q w s"
    by (intro judge_list_at_other) blast
  with assms(1,4) show ?thesis by simp
qed

lemma drop_waiting_keeps:
  assumes "t \<in> set (list_at q w s)" and "q \<noteq> r \<or> \<not> w \<or> pt_id t \<noteq> i"
  shows "t \<in> set (list_at q w (drop_waiting r i s))"
  using assms by (auto simp: list_at_def)

lemma same_waiting:
  "distinct (map pt_id xs) \<Longrightarrow> p \<in> set xs \<Longrightarrow> t \<in> set xs \<Longrightarrow> pt_id p = pt_id t \<Longrightarrow> p = t"
  by (auto simp: distinct_map inj_on_def)

lemma list_at_wait [simp]: "list_at r True s = wait_list r s"
  and list_at_proc [simp]: "list_at r False s = proc_list r s"
  by (simp_all add: list_at_def)

lemma judge_discard_superseded:
  assumes "peon_task_action_judge (peon_kind r) p s = (s', a)" and "PEON_TASK_ACTION_DISCARD \<in> a"
  shows "superseded s r p"
proof -
  from assms judge_discard [of "peon_kind r" p s] obtain ty' w b u
    where u: "(ty', w, b) \<in> set (judge_scans (peon_kind r))" "u \<in> set (list_at (Static ty') w s)"
      "live u" "peon_task_match u p b" "pt_sn p < pt_sn u"
    by auto
  have "same_request (Static ty') u r p" by (simp add: scanned_same_request [OF u(1)] u(4))
  from supersededI [OF u(2,3) this u(5)] show ?thesis .
qed

text \<open>The loop keeps every live request that is not superseded, in every list.\<close>

lemma get_loop_keeps:
  assumes "distinct (map pt_id (wait_list r s))" and "t \<in> set (list_at q w s)" and "live t"
    and "\<not> superseded s q t"
  shows "t \<in> set (list_at q w (fst (peon_get_loop now r (peon_kind r) rt ids s)))"
  using assms
proof (induction ids arbitrary: s)
  case Nil
  then show ?case by simp
next
  case (Cons i ids)
  show ?case
  proof (cases "find (\<lambda>t. pt_id t = i) (wait_list r s)")
    case None
    then show ?thesis using Cons by (simp add: get_loop_absent del: peon_get_loop.simps)
  next
    case (Some p)
    note p = find_waiting [OF Some]
    have pr: "prunes s s1" if "peon_task_action_judge (peon_kind r) p s = (s1, a)" for s1 a
      using judge_prunes [of s "peon_kind r" p] that by simp
    have IH: "t \<in> set (list_at q w (fst (peon_get_loop now r (peon_kind r) rt ids s1)))"
      if "prunes s s1" "t \<in> set (list_at q w s1)" for s1
      by (rule Cons.IH [OF prunes_distinct [OF that(1) Cons.prems(1)] that(2) Cons.prems(3)])
        (use Cons.prems(4) superseded_prunes [OF _ that(1)] in blast)
    have drop: "t \<in> set (list_at q w (drop_waiting r i s1))"
      if "prunes s s1" "t \<in> set (list_at q w s1)" "t \<noteq> p" for s1
    proof (rule drop_waiting_keeps [OF that(2)], rule ccontr)
      assume "\<not> (q \<noteq> r \<or> \<not> w \<or> pt_id t \<noteq> i)"
      then have "t \<in> set (wait_list r s)" "pt_id p = pt_id t" using Cons.prems(2) p by auto
      from same_waiting [OF Cons.prems(1) p(1) this] that(3) show False by simp
    qed
    from Some show ?thesis
    proof (cases rule: get_loop_cases
        [where now = now and ty = "peon_kind r" and rt = rt and ids = ids])
      case dead
      then have "t \<noteq> p" using Cons.prems(3) by auto
      with IH [OF drop_waiting_prunes drop] prunes_refl Cons.prems(2) dead(2) show ?thesis by metis
    next
      case (skip s1 a)
      have "t \<in> set (list_at q w s1)"
        using judge_keeps [OF skip(2), of True] skip(1) p Cons.prems by simp
      with IH [OF pr [OF skip(2)]] skip(4) show ?thesis by simp
    next
      case (discard s1 a)
      have "t \<in> set (list_at q w s1)"
        using judge_keeps [OF discard(2), of True] discard(1) p Cons.prems by simp
      moreover have "t \<noteq> p \<or> q \<noteq> r" using judge_discard_superseded [OF discard(2,3)] Cons.prems(4) by blast
      ultimately have "t \<in> set (list_at q w (drop_waiting r i s1))"
        using drop [OF pr [OF discard(2)]] drop_waiting_keeps by metis
      then show ?thesis
        using IH [OF prunes_trans [OF pr [OF discard(2)] drop_waiting_prunes]] discard(4) by simp
    next
      case (take s1 a)
      with judge_keeps [OF take(2), of True] p Cons.prems show ?thesis by simp
    qed
  qed
qed

text \<open>
  A waiting request is ready when it is live, neither superseded nor held up by an older live
  task in a scanned processing list, and its restrain and retry times are over.
\<close>

definition held_up :: "('w, 'c) peon_sys \<Rightarrow> peon_ref \<Rightarrow> ('w, 'c) peon_task \<Rightarrow> bool" where
  "held_up s r t \<longleftrightarrow>
    (\<exists>ty b p. (ty, False, b) \<in> set (judge_scans (peon_kind r)) \<and> p \<in> set (proc_list (Static ty) s) \<and>
      live p \<and> peon_task_match p t b \<and> pt_sn p < pt_sn t)"

definition ready :: "int \<Rightarrow> u32 \<Rightarrow> ('w, 'c) peon_sys \<Rightarrow> peon_ref \<Rightarrow> ('w, 'c) peon_task \<Rightarrow> bool" where
  "ready now rt s r t \<longleftrightarrow>
    live t \<and> \<not> superseded s r t \<and> \<not> held_up s r t \<and> peon_task_restrain_timeout now t rt"

lemma judge_wait_held_up:
  "peon_task_action_judge (peon_kind r) t s = (s', a) \<Longrightarrow>
    PEON_TASK_ACTION_WAIT \<in> a \<longleftrightarrow> held_up s r t"
  using judge_wait [of "peon_kind r" t s] by (simp add: held_up_def list_at_def)

lemma held_up_prunes: "held_up s' r t \<Longrightarrow> prunes s s' \<Longrightarrow> held_up s r t"
  unfolding held_up_def using prunes_live [of s s' _ _ False] by (metis list_at_proc)

lemma ready_prunes: "ready now rt s r t \<Longrightarrow> prunes s s' \<Longrightarrow> ready now rt s' r t"
  unfolding ready_def using superseded_prunes held_up_prunes by blast

lemma find_unique_id:
  "distinct (map f xs) \<Longrightarrow> t \<in> set xs \<Longrightarrow> find (\<lambda>u. f u = f t) xs = Some t"
  by (induction xs) auto

lemma get_loop_progress:
  assumes "distinct (map pt_id (wait_list r s))" and "t \<in> set (wait_list r s)"
    and "ready now rt s r t" and "pt_id t \<in> set ids"
  shows "snd (peon_get_loop now r (peon_kind r) rt ids s) \<noteq> None"
  using assms
proof (induction ids arbitrary: s)
  case Nil
  then show ?case by simp
next
  case (Cons i ids)
  have lv: "live t" and ns: "\<not> superseded s r t" and nh: "\<not> held_up s r t"
    and rt: "peon_task_restrain_timeout now t rt"
    using Cons.prems(3) by (simp_all add: ready_def)
  show ?case
  proof (cases "pt_id t = i")
    case True
    obtain s1 a where j: "peon_task_action_judge (peon_kind r) t s = (s1, a)" by fastforce
    have "PEON_TASK_ACTION_DISCARD \<notin> a" using judge_discard_superseded [OF j] ns by blast
    moreover have "PEON_TASK_ACTION_WAIT \<notin> a" using judge_wait_held_up [OF j] nh by simp
    ultimately show ?thesis
      using find_unique_id [OF Cons.prems(1,2)] True j lv rt by simp
  next
    case False
    then have mem: "pt_id t \<in> set ids" using Cons.prems(4) by simp
    have IH: "snd (peon_get_loop now r (peon_kind r) rt ids s1) \<noteq> None"
      if "s1 = fst (peon_get_loop now r (peon_kind r) rt [i] s)" for s1
    proof -
      have pr: "prunes s s1" using get_loop_prunes that by blast
      have "t \<in> set (wait_list r s1)"
        using get_loop_keeps [OF Cons.prems(1), of t r True now rt "[i]"] Cons.prems(2) lv ns that
        by simp
      from Cons.IH [OF prunes_distinct [OF pr Cons.prems(1)] this ready_prunes [OF Cons.prems(3) pr] mem]
      show ?thesis .
    qed
    have "peon_get_loop now r (peon_kind r) rt (i # ids) s =
        (case peon_get_loop now r (peon_kind r) rt [i] s of
           (s1, None) \<Rightarrow> peon_get_loop now r (peon_kind r) rt ids s1
         | (s1, Some u) \<Rightarrow> (s1, Some u))"
      by (simp split: option.splits prod.splits)
    then show ?thesis using IH by (auto split: prod.splits option.splits)
  qed
qed

end
