(* ===== verification/Snsd_Peon_Sched.thy ===== *)
theory Snsd_Peon_Sched
  imports Snsd_Peon_Props
begin

text \<open>
  What the scheduler of \<open>src/snsd_conn_peon.c\<close> promises for one call of
  \<open>peon_task_get\<close>, \<open>peon_task_complete\<close>, \<open>peon_run_recheck\<close> and
  \<open>peon_task_add\<close>, on every branch, and concrete systems on which the promises are
  evaluated.
\<close>

section \<open>Taking a task\<close>

lemma wait_list_start_task [simp]:
  "wait_list q (start_task r t s) =
    (if q = r then filter (\<lambda>u. pt_id u \<noteq> pt_id t) (wait_list r s) else wait_list q s)"
  by (cases "ps_peons s r") (simp_all add: start_task_def wait_list_def)

lemma proc_list_start_task:
  "proc_list q (start_task r t s) =
    (if q = r \<and> ps_peons s r \<noteq> None then proc_list r s @ [t] else proc_list q s)"
  by (cases "ps_peons s r") (simp_all add: start_task_def proc_list_def)

lemma list_at_start_task:
  "u \<in> set (list_at q w (start_task r t s)) \<Longrightarrow> u = t \<or> u \<in> set (list_at q w s)"
  by (cases w) (auto simp: proc_list_start_task split: if_splits)

lemma prunes_peon:
  "prunes s s' \<Longrightarrow> ps_peons s' r = None \<longleftrightarrow> ps_peons s r = None"
  unfolding prunes_def by (metis option.map_disc_iff)

text \<open>What \<open>peon_task_get\<close> returns, in terms of its loop.\<close>

lemma peon_task_get_Some:
  assumes "ps_peons s r = Some pe" and "peon_task_get now r s = (s', Some t)"
  obtains s1 where
    "peon_get_loop now r (pe_type pe) (pe_restrain_time pe) (map pt_id (pe_wait_list pe)) s = (s1, Some t)"
    and "s' = start_task r t s1"
  using assms by (auto simp: peon_task_get_def split: prod.splits option.splits)

lemma peon_task_get_None:
  assumes "ps_peons s r = Some pe" and "peon_task_get now r s = (s', None)"
  shows "peon_get_loop now r (pe_type pe) (pe_restrain_time pe) (map pt_id (pe_wait_list pe)) s =
    (s', None)"
  using assms by (auto simp: peon_task_get_def split: prod.splits option.splits)

lemma judge_only_one_live:
  assumes "peon_task_action_judge ty t s0 = (s1, a)" and "PEON_TASK_ACTION_DISCARD \<notin> a"
    and "(ty', w, b) \<in> set (judge_scans ty)" and "u \<in> set (list_at (Static ty') w s1)"
    and "live u" and "peon_task_match u t b"
  shows "pt_sn u = pt_sn t"
proof -
  have "prunes s0 s1" using judge_prunes [of s0 ty t] assms(1) by simp
  then have "u \<in> set (list_at (Static ty') w s0)" by (rule prunes_live [OF _ assms(4,5)])
  with judge_discard [of ty t s0] assms have "\<not> pt_sn t < pt_sn u" by auto
  moreover have "pt_sn t \<le> pt_sn u"
    using scan_list_clean [of u "list_at (Static ty') w s0" t b w] judge_list_at [OF assms(3), of t s0]
      assms by simp
  ultimately show ?thesis by simp
qed

lemma peon_task_get_frame:
  "prunes s s1 \<Longrightarrow> ps_sn (start_task r t s1) = ps_sn s \<and>
    ps_next_addr (start_task r t s1) = ps_next_addr s"
  by (simp add: start_task_def prunes_def)

section \<open>Sample systems\<close>

text \<open>Small systems on which the properties and their hypotheses are evaluated.\<close>

definition sample_toolbox :: "(unit, unit) conn_toolbox" where
  "sample_toolbox = \<lparr>tb_ctx_init = None, tb_handle = None, tb_recheck = None, tb_ctx_reinit = None\<rparr>"

definition sample_param :: "u8 \<Rightarrow> connect_param" where
  "sample_param n = zero_connect_param\<lparr>cp_protocol := SNSD_PROTOCOL_ROCE, cp_family := AF_INET,
    cp_host_traddr := [10, 0, 0, 1], cp_traddr := [10, 0, 0, n]\<rparr>"

definition sample_task :: "nat \<Rightarrow> u64 \<Rightarrow> u8 \<Rightarrow> (unit, unit) peon_task" where
  "sample_task i sn n = \<lparr>pt_id = i, pt_tm = 0, pt_next_run = 0, pt_sn = sn,
    pt_state = PEON_TASK_STATE_LIVE, pt_toolbox = sample_toolbox, pt_ctx = None,
    pt_param = sample_param n\<rparr>"

definition sample_peon ::
  "peon_type \<Rightarrow> (unit, unit) peon_task list \<Rightarrow> (unit, unit) peon_task list \<Rightarrow> (unit, unit) peon" where
  "sample_peon ty ws ps = \<lparr>pe_type = ty, pe_dynamic = False, pe_wait_list = ws, pe_proc_list = ps,
    pe_restrain_time = 3, pe_normal_period = 10, pe_fast_period = 1, pe_worker_num = 1,
    pe_worker_all_count = 0\<rparr>"

definition sample_sys ::
  "(peon_type \<times> (unit, unit) peon_task list \<times> (unit, unit) peon_task list) list \<Rightarrow> (unit, unit) peon_sys" where
  "sample_sys ls = \<lparr>ps_peons = (\<lambda>r. case r of
      Dyn d \<Rightarrow> None
    | Static ty \<Rightarrow> (case map_of ls ty of
        None \<Rightarrow> Some (sample_peon ty [] [])
      | Some (ws, ps) \<Rightarrow> Some (sample_peon ty ws ps))),
    ps_sn = 100, ps_dyn_worker_num = 0, ps_next_addr = 1000\<rparr>"

section \<open>Properties of peon\_task\_get\<close>

text \<open>
  The lists a task must not share with another live request for its device: a connect task
  competes with everything but a recheck under way, a disconnect with the connects and the waiting
  rechecks, a batch disconnect with the connects.
\<close>

definition competes :: "peon_type \<Rightarrow> peon_type \<Rightarrow> bool \<Rightarrow> bool" where
  "competes ty ty' waiting = (case ty of
      PEON_TYPE_CONNECT \<Rightarrow> ty' \<noteq> PEON_TYPE_RECHECK \<or> waiting
    | PEON_TYPE_DISCONN \<Rightarrow> ty' = PEON_TYPE_CONNECT \<or> ty' = PEON_TYPE_RECHECK \<and> waiting
    | PEON_TYPE_DCBATCH \<Rightarrow> ty' = PEON_TYPE_CONNECT
    | PEON_TYPE_RECHECK \<Rightarrow> False)"

lemma competes_scanned:
  "competes ty ty' w \<Longrightarrow>
    (ty', w, ty = PEON_TYPE_DCBATCH \<or> ty' = PEON_TYPE_DCBATCH) \<in> set (judge_scans ty)"
  by (cases ty; cases ty'; cases w) (simp_all add: competes_def judge_scans_def)


lemmas sample_defs = sample_toolbox_def sample_param_def sample_task_def sample_peon_def
  sample_sys_def zero_connect_param_def

lemmas get_defs = peon_task_get_def wait_list_def proc_list_def list_at_def upd_peon_def
  peon_task_action_judge_def judge_scans_def scan_peon_def peon_task_match_def snsd_ip_match_def
  drop_waiting_def start_task_def peon_task_restrain_timeout_def

definition two_connects :: "(unit, unit) peon_sys" where
  "two_connects = sample_sys [(PEON_TYPE_CONNECT, [sample_task 1 7 2, sample_task 2 9 2], [])]"

lemma sample_task_sel [simp]:
  "pt_id (sample_task i sn n) = i" "pt_sn (sample_task i sn n) = sn"
  "pt_state (sample_task i sn n) = PEON_TASK_STATE_LIVE"
  by (simp_all add: sample_task_def)

lemma sample_peon_sel [simp]:
  "pe_type (sample_peon ty ws ps) = ty" "pe_wait_list (sample_peon ty ws ps) = ws"
  "pe_proc_list (sample_peon ty ws ps) = ps" "pe_restrain_time (sample_peon ty ws ps) = 3"
  by (simp_all add: sample_peon_def)

lemma two_connects_peon:
  "ps_peons two_connects (Static PEON_TYPE_CONNECT) =
    Some (sample_peon PEON_TYPE_CONNECT [sample_task 1 7 2, sample_task 2 9 2] [])"
  by (simp add: two_connects_def sample_sys_def)

lemma get_two_connects:
  "peon_task_get 50 (Static PEON_TYPE_CONNECT) two_connects =
    (fst (peon_task_get 50 (Static PEON_TYPE_CONNECT) two_connects), Some (sample_task 2 9 2))"
  by (simp add: prod_eq_iff) (simp add: two_connects_def sample_defs get_defs)


text \<open>
  C5: a request is dropped only in favour of a newer one: a live task of any list that
  \<open>peon_task_get\<close> neither returns nor leaves where it was is superseded by a live request
  with a higher serial number for the same device (or host port, for a batch disconnect).
\<close>

theorem peon_task_get_drops_only_superseded:
  assumes "ps_peons s r = Some pe" and "pe_type pe = peon_kind r"
    and "distinct (map pt_id (pe_wait_list pe))"
    and "t \<in> set (list_at q w s)" and "live t"
    and "peon_task_get now r s = (s', res)" and "t \<notin> set (list_at q w s')"
    and "\<forall>u. res = Some u \<longrightarrow> pt_id u \<noteq> pt_id t"
  shows "superseded s q t"
proof (rule ccontr)
  assume ns: "\<not> superseded s q t"
  let ?loop = "peon_get_loop now r (pe_type pe) (pe_restrain_time pe) (map pt_id (pe_wait_list pe)) s"
  have kept: "t \<in> set (list_at q w (fst ?loop))"
    using get_loop_keeps [of r s t q w] assms(1-5) ns by simp
  show False
  proof (cases res)
    case None
    with peon_task_get_None [OF assms(1)] assms(6) have "?loop = (s', None)" by simp
    with kept assms(7) show False by simp
  next
    case (Some u)
    from peon_task_get_Some [OF assms(1)] assms(6) Some obtain s1
      where "?loop = (s1, Some u)" and s': "s' = start_task r u s1" by metis
    with kept have "t \<in> set (list_at q w s1)" by simp
    then have "t \<in> set (list_at q w s')"
      using assms(8) Some by (cases w) (auto simp: s' proc_list_start_task)
    with assms(7) show False by simp
  qed
qed

lemma wait_two_connects:
  "wait_list (Static PEON_TYPE_CONNECT) (fst (peon_task_get 50 (Static PEON_TYPE_CONNECT) two_connects)) = []"
  by (simp add: two_connects_def sample_defs get_defs)

theorem peon_task_get_drops_only_superseded_witness:
  "superseded two_connects (Static PEON_TYPE_CONNECT) (sample_task 1 7 2)"
  by (rule peon_task_get_drops_only_superseded
      [OF two_connects_peon _ _ _ _ get_two_connects, where w = True])
    (simp_all add: wait_list_Some [OF two_connects_peon] wait_two_connects)

text \<open>
  C37: the scheduler makes progress: when a waiting task is live, not superseded, not held up by
  an older live task in a processing list its judgement scans, and its restrain and retry times
  are over, \<open>peon_task_get\<close> returns a task.
\<close>

theorem peon_task_get_progress:
  assumes "ps_peons s r = Some pe" and "pe_type pe = peon_kind r"
    and "distinct (map pt_id (pe_wait_list pe))" and "t \<in> set (pe_wait_list pe)"
    and "ready now (pe_restrain_time pe) s r t"
  shows "snd (peon_task_get now r s) \<noteq> None"
proof -
  have "snd (peon_get_loop now r (peon_kind r) (pe_restrain_time pe) (map pt_id (pe_wait_list pe)) s)
      \<noteq> None"
    by (rule get_loop_progress) (use assms in auto)
  then show ?thesis
    using assms(1,2) by (auto simp: peon_task_get_def split: prod.splits option.splits)
qed

lemma ready_two_connects:
  "ready 50 3 two_connects (Static PEON_TYPE_CONNECT) (sample_task 2 9 2)"
proof -
  have l: "list_at q w two_connects =
      (if q = Static PEON_TYPE_CONNECT \<and> w then [sample_task 1 7 2, sample_task 2 9 2] else [])" for q w
    by (cases q; cases w) (simp_all add: two_connects_def sample_sys_def wait_list_def proc_list_def)
  have "\<not> superseded two_connects (Static PEON_TYPE_CONNECT) (sample_task 2 9 2)"
    by (auto simp: superseded_def l split: if_splits)
  moreover have "\<not> held_up two_connects (Static PEON_TYPE_CONNECT) (sample_task 2 9 2)"
    using l [of _ False] by (simp add: held_up_def)
  ultimately show ?thesis
    by (simp add: ready_def peon_task_restrain_timeout_def sample_task_def)
qed

theorem peon_task_get_progress_witness:
  "snd (peon_task_get 50 (Static PEON_TYPE_CONNECT) two_connects) \<noteq> None"
  by (rule peon_task_get_progress [OF two_connects_peon, of "sample_task 2 9 2"])
    (simp_all add: ready_two_connects)

section \<open>Waiting for an older task\<close>

lemma get_loop_clears:
  assumes "distinct (map pt_id (wait_list r s))" and "t \<in> set (wait_list r s)" and "live t"
    and "\<not> superseded s r t" and "pt_id t \<in> set ids"
    and "peon_get_loop now r (peon_kind r) rt ids s = (s', None)"
  shows "\<not> held_up s' r t"
  using assms
proof (induction ids arbitrary: s)
  case Nil
  then show ?case by simp
next
  case (Cons i ids)
  let ?s1 = "fst (peon_get_loop now r (peon_kind r) rt [i] s)"
  have pr: "prunes s ?s1" by (rule get_loop_prunes)
  have rest: "peon_get_loop now r (peon_kind r) rt ids ?s1 = (s', None)"
    using Cons.prems(6) by (auto split: option.splits prod.splits if_splits)
  show ?case
  proof (cases "pt_id t = i")
    case True
    obtain s1 a where j: "peon_task_action_judge (peon_kind r) t s = (s1, a)" by fastforce
    have nd: "PEON_TASK_ACTION_DISCARD \<notin> a"
      using judge_discard_superseded [OF j] Cons.prems(4) by blast
    have "?s1 = s1"
      using find_unique_id [OF Cons.prems(1,2)] True j Cons.prems(3) nd by (auto split: if_splits)
    moreover have "\<not> held_up s1 r t"
    proof
      assume "held_up s1 r t"
      then obtain ty b p where p: "(ty, False, b) \<in> set (judge_scans (peon_kind r))"
        "p \<in> set (proc_list (Static ty) s1)" "live p" "peon_task_match p t b" "pt_sn p < pt_sn t"
        by (auto simp: held_up_def)
      with judge_only_one_live [OF j nd p(1) _ p(3,4)] show False by simp
    qed
    moreover have "prunes ?s1 s'" using get_loop_prunes [of ?s1] rest by (metis fst_conv)
    ultimately show ?thesis using held_up_prunes by metis
  next
    case False
    then have mem: "pt_id t \<in> set ids" using Cons.prems(5) by simp
    have "t \<in> set (wait_list r ?s1)"
      using get_loop_keeps [OF Cons.prems(1), of t r True now rt "[i]"] Cons.prems(2-4) by simp
    then show ?thesis
      using Cons.IH [OF prunes_distinct [OF pr Cons.prems(1)] _ Cons.prems(3) _ mem rest]
        superseded_prunes [OF _ pr] Cons.prems(4) by blast
  qed
qed

text \<open>
  A request waits for an older running task of its device for one poll only.  A call of
  \<open>peon_task_get\<close> that takes nothing leaves every live request that is not superseded
  waiting and no longer held up, because the judgement that answers WAIT also marks the older
  task dead; the older task itself stays in its processing list, where its worker still runs it.
\<close>

theorem peon_wait_lasts_one_poll:
  assumes "ps_peons s r = Some pe" and "pe_type pe = peon_kind r"
    and "distinct (map pt_id (pe_wait_list pe))"
    and "t \<in> set (pe_wait_list pe)" and "live t" and "\<not> superseded s r t"
    and "peon_task_get now r s = (s', None)"
  shows "t \<in> set (wait_list r s') \<and> \<not> held_up s' r t \<and>
    (\<forall>q. list_all2 kills (proc_list q s) (proc_list q s'))"
proof -
  from peon_task_get_None [OF assms(1,7)] assms(2)
  have loop: "peon_get_loop now r (peon_kind r) (pe_restrain_time pe) (map pt_id (pe_wait_list pe)) s =
    (s', None)" by simp
  have pr: "prunes s s'" using get_loop_prunes [of s] loop by (metis fst_conv)
  have "t \<in> set (wait_list r s')"
    using get_loop_keeps [of r s t r True now] loop assms(1,3-6)
    by (metis fst_conv list_at_wait wait_list_Some)
  moreover have "\<not> held_up s' r t"
    by (rule get_loop_clears [OF _ _ assms(5,6) _ loop]) (use assms(1,3,4) in auto)
  ultimately show ?thesis using prunes_proc [OF pr] by blast
qed

definition busy_disconnect :: "(unit, unit) peon_sys" where
  "busy_disconnect = sample_sys [(PEON_TYPE_CONNECT, [sample_task 2 9 2], []),
    (PEON_TYPE_DISCONN, [], [sample_task 1 7 2])]"

lemma busy_disconnect_peon:
  "ps_peons busy_disconnect (Static PEON_TYPE_CONNECT) =
    Some (sample_peon PEON_TYPE_CONNECT [sample_task 2 9 2] [])"
  by (simp add: busy_disconnect_def sample_sys_def)

lemma get_busy_disconnect:
  "peon_task_get 50 (Static PEON_TYPE_CONNECT) busy_disconnect =
    (fst (peon_task_get 50 (Static PEON_TYPE_CONNECT) busy_disconnect), None)"
  by (simp add: prod_eq_iff) (simp add: busy_disconnect_def sample_defs get_defs)

lemma not_superseded_busy_disconnect:
  "\<not> superseded busy_disconnect (Static PEON_TYPE_CONNECT) (sample_task 2 9 2)"
proof -
  have "list_at q w busy_disconnect =
      (if q = Static PEON_TYPE_CONNECT \<and> w then [sample_task 2 9 2]
       else if q = Static PEON_TYPE_DISCONN \<and> \<not> w then [sample_task 1 7 2] else [])" for q w
    by (cases q; cases w)
      (auto simp: busy_disconnect_def sample_sys_def wait_list_def proc_list_def)
  then show ?thesis by (auto simp: superseded_def split: if_splits)
qed

theorem peon_wait_lasts_one_poll_witness:
  "\<not> held_up (fst (peon_task_get 50 (Static PEON_TYPE_CONNECT) busy_disconnect))
    (Static PEON_TYPE_CONNECT) (sample_task 2 9 2)"
  using peon_wait_lasts_one_poll
    [OF busy_disconnect_peon _ _ _ _ not_superseded_busy_disconnect get_busy_disconnect]
  by simp


lemma subseq_set: "subseq xs ys \<Longrightarrow> set xs \<subseteq> set ys"
  by (auto dest: list_emb_set)

lemma prunes_ids:
  assumes "prunes s s'"
  shows "pt_id ` set (list_at q w s') \<subseteq> pt_id ` set (list_at q w s)"
proof (cases w)
  case True
  have "subseq (map pt_id (wait_list q s')) (map pt_id (wait_list q s))"
    using assms by (simp add: prunes_def)
  from subseq_set [OF this] True show ?thesis by simp
next
  case False
  have "map pt_id (proc_list q s') = map pt_id (proc_list q s)"
    by (rule list_all2_kills_ids [OF prunes_proc [OF assms]])
  then have "set (map pt_id (proc_list q s')) = set (map pt_id (proc_list q s))" by simp
  with False show ?thesis by simp
qed

section \<open>Dynamic disconnect peons\<close>

definition all_workers_busy :: "('w, 'c) peon_sys \<Rightarrow> bool" where
  "all_workers_busy s \<longleftrightarrow> (\<exists>pe. ps_peons s (Static PEON_TYPE_DISCONN) = Some pe \<and>
    pe_type pe = PEON_TYPE_DISCONN \<and> int (pe_worker_num pe) \<le> pe_worker_all_count pe \<and>
    ps_dyn_worker_num s \<le> PEON_DYN_DISCONN_WORKER_LIMIT)"

text \<open>What \<open>peon_task_add\<close> does with a disconnect, in terms of the task it builds.\<close>

lemma peon_task_add_busy:
  assumes "all_workers_busy s"
    and "peon_new_task env (ps_next_addr s) sn param tb = Inr task"
  shows "peon_task_add env PEON_TYPE_DISCONN sn param tb s =
    (case en_dyn env of
       DynNoThread \<Rightarrow> Stuck
     | DynNoMemory \<Rightarrow> Done (upd_peon (Static PEON_TYPE_DISCONN)
         (\<lambda>pe. pe\<lparr>pe_wait_list := pe_wait_list pe @ [task],
                  pe_worker_all_count := pe_worker_all_count pe + 1\<rparr>)
         (s\<lparr>ps_next_addr := ps_next_addr s + 1\<rparr>), Inr ())
     | DynStarted \<Rightarrow> Done (s\<lparr>ps_peons := (ps_peons s)(Dyn (ps_next_addr s + 1) :=
           Some \<lparr>pe_type = PEON_TYPE_DISCONN, pe_dynamic = True, pe_wait_list = [task],
             pe_proc_list = [], pe_restrain_time = word_of_int (en_cfg_restrain_time env),
             pe_normal_period = PEON_WORKER_PERIOD_NORMAL, pe_fast_period = PEON_WORKER_PERIOD_FAST,
             pe_worker_num = 1, pe_worker_all_count = 1\<rparr>),
         ps_next_addr := ps_next_addr s + 2, ps_dyn_worker_num := ps_dyn_worker_num s + 1\<rparr>, Inr ()))"
  using assms
  by (auto simp: all_workers_busy_def peon_task_add_def peon_dyn_create_def peon_construct_def
      peon_dyn_worker_env_def Let_def split: dyn_outcome.splits)

lemma peon_new_task_Inr:
  assumes "peon_new_task env addr sn param tb = Inr task"
  shows "pt_id task = addr" "pt_tm task = en_now env" "pt_next_run task = 0" "pt_sn task = sn"
    "live task" "pt_param task = param"
  using assms by (auto simp: peon_new_task_def Let_def split: if_splits option.splits)


definition sample_env :: "dyn_outcome \<Rightarrow> unit peon_env" where
  "sample_env d = \<lparr>en_now = 100, en_calloc_ok = True, en_dyn = d, en_cfg_restrain_time = 20,
    en_world = ()\<rparr>"

definition all_busy :: "(unit, unit) peon_sys" where
  "all_busy = upd_peon (Static PEON_TYPE_DISCONN) (\<lambda>pe. pe\<lparr>pe_worker_all_count := 1\<rparr>)
    (sample_sys [(PEON_TYPE_DISCONN, [], [sample_task 1 7 2])])"

lemma all_busy_peon:
  "ps_peons all_busy (Static PEON_TYPE_DISCONN) =
    Some ((sample_peon PEON_TYPE_DISCONN [] [sample_task 1 7 2])\<lparr>pe_worker_all_count := 1\<rparr>)"
  by (simp add: all_busy_def sample_sys_def)

lemma all_busy_busy: "all_workers_busy all_busy"
  by (simp add: all_workers_busy_def all_busy_peon)
    (simp add: sample_peon_def all_busy_def sample_sys_def)


text \<open>
  A disconnect handed to a dynamic peon is lost when its thread runs before the restrain
  time is over: \<open>peon_task_get\<close> takes nothing, and the thread, which tries only once,
  frees the peon with the request still in its wait list.  No list holds the request afterwards.
\<close>

theorem dynamic_disconnect_lost:
  assumes "all_workers_busy s" and "en_dyn env = DynStarted"
    and "peon_new_task env (ps_next_addr s) sn param tb = Inr task"
    and "en_now env \<le> now"
    and "now < en_now env + uint (word_of_int (en_cfg_restrain_time env) :: u32)"
    and "\<forall>q w. ps_next_addr s \<notin> pt_id ` set (list_at q w s)"
    and "peon_task_add env PEON_TYPE_DISCONN sn param tb s = Done (s1, Inr ())"
    and "d = ps_next_addr s + 1"
  shows "wait_list (Dyn d) s1 = [task] \<and>
    snd (peon_task_get now (Dyn d) s1) = None \<and>
    (\<forall>q w. pt_id task \<notin> pt_id ` set (list_at q w
      (peon_dyn_exit d (fst (peon_task_get now (Dyn d) s1)))))"
proof -
  note new = peon_new_task_Inr [OF assms(3)]
  let ?rt = "word_of_int (en_cfg_restrain_time env) :: u32"
  define pe :: "('a, 'b) peon" where
    "pe = \<lparr>pe_type = PEON_TYPE_DISCONN, pe_dynamic = True, pe_wait_list = [task],
      pe_proc_list = [], pe_restrain_time = ?rt, pe_normal_period = PEON_WORKER_PERIOD_NORMAL,
      pe_fast_period = PEON_WORKER_PERIOD_FAST, pe_worker_num = 1, pe_worker_all_count = 1\<rparr>"
  have s1: "s1 = s\<lparr>ps_peons := (ps_peons s)(Dyn d := Some pe), ps_next_addr := ps_next_addr s + 2,
      ps_dyn_worker_num := ps_dyn_worker_num s + 1\<rparr>"
    using peon_task_add_busy [OF assms(1,3)] assms(2,7,8) by (simp add: pe_def)
  have dpe: "ps_peons s1 (Dyn d) = Some pe" by (simp add: s1)
  have w: "wait_list (Dyn d) s1 = [task]" using wait_list_Some [OF dpe] by (simp add: pe_def)
  have none: "snd (peon_task_get now (Dyn d) s1) = None"
  proof (rule ccontr)
    assume "snd (peon_task_get now (Dyn d) s1) \<noteq> None"
    then obtain t s2 where g: "peon_task_get now (Dyn d) s1 = (s2, Some t)"
      by (cases "peon_task_get now (Dyn d) s1") auto
    from peon_task_get_Some [OF dpe g] obtain s3 where
      "peon_get_loop now (Dyn d) (pe_type pe) (pe_restrain_time pe) (map pt_id (pe_wait_list pe)) s1 =
        (s3, Some t)" by metis
    from get_loop_Some [OF this] obtain s0 where "prunes s1 s0" "t \<in> set (wait_list (Dyn d) s0)"
      "live t" "peon_task_restrain_timeout now t ?rt" by (auto simp: pe_def)
    moreover from this(1-3) have "t = task" using prunes_live [of s1 s0 t "Dyn d" True] w by simp
    ultimately show False
      using assms(4,5) new(2) by (auto simp: peon_task_restrain_timeout_def split: if_splits)
  qed
  have gone: "pt_id task \<notin> pt_id ` set (list_at q b (peon_dyn_exit d s2))"
    if "prunes s1 s2" for q b s2
  proof (cases "q = Dyn d")
    case True
    then show ?thesis by (simp add: list_at_def wait_list_def proc_list_def peon_dyn_exit_def)
  next
    case False
    have same: "list_at q b (peon_dyn_exit d s2) = list_at q b s2"
      using False by (simp add: list_at_def wait_list_def proc_list_def peon_dyn_exit_def)
    have "list_at q b s1 = list_at q b s"
      using False by (simp add: s1 list_at_def wait_list_def proc_list_def)
    with prunes_ids [OF that, of q b] assms(6) new(1) same show ?thesis by auto
  qed
  have "prunes s1 (fst (peon_task_get now (Dyn d) s1))"
  proof -
    have g: "peon_task_get now (Dyn d) s1 = (fst (peon_task_get now (Dyn d) s1), None)"
      using none by (simp add: prod_eq_iff)
    show ?thesis using get_loop_prunes [of s1] peon_task_get_None [OF dpe g] by (metis fst_conv)
  qed
  from gone [OF this] w none show ?thesis by blast
qed

definition added_dynamic :: "(unit, unit) peon_sys" where
  "added_dynamic = (case peon_task_add (sample_env DynStarted) PEON_TYPE_DISCONN 8 (sample_param 3)
    sample_toolbox all_busy of Done (s, _) \<Rightarrow> s | Stuck \<Rightarrow> all_busy)"

lemma new_all_busy:
  "peon_new_task (sample_env DynStarted) (ps_next_addr all_busy) 8 (sample_param 3) sample_toolbox =
    Inr ((sample_task 1000 8 3)\<lparr>pt_tm := 100\<rparr>)"
  by (simp add: peon_new_task_def sample_env_def sample_toolbox_def sample_task_def all_busy_def
      sample_sys_def)

lemma add_all_busy:
  "peon_task_add (sample_env DynStarted) PEON_TYPE_DISCONN 8 (sample_param 3) sample_toolbox all_busy =
    Done (added_dynamic, Inr ())"
  using peon_task_add_busy [OF all_busy_busy new_all_busy]
  by (simp add: added_dynamic_def sample_env_def)

lemma fresh_all_busy: "\<forall>q w. ps_next_addr all_busy \<notin> pt_id ` set (list_at q w all_busy)"
proof (intro allI)
  fix q w
  have "list_at q w all_busy =
      (if q = Static PEON_TYPE_DISCONN \<and> \<not> w then [sample_task 1 7 2] else [])"
    by (cases q; cases w) (auto simp: all_busy_def sample_sys_def wait_list_def proc_list_def)
  moreover have "ps_next_addr all_busy = 1000" by (simp add: all_busy_def sample_sys_def)
  ultimately show "ps_next_addr all_busy \<notin> pt_id ` set (list_at q w all_busy)"
    by (simp only:) (auto split: if_splits)
qed

theorem dynamic_disconnect_lost_witness:
  "snd (peon_task_get 110 (Dyn 1001) added_dynamic) = None"
proof -
  have "1001 = ps_next_addr all_busy + 1" by (simp add: all_busy_def sample_sys_def)
  from dynamic_disconnect_lost
    [OF all_busy_busy _ new_all_busy _ _ fresh_all_busy add_all_busy this, of 110]
  show ?thesis by (simp add: sample_env_def)
qed

section \<open>Completing a task\<close>

text \<open>The number of tasks a peon holds, which \<open>worker_all_count\<close> is meant to count.\<close>

definition peon_load :: "peon_ref \<Rightarrow> ('w, 'c) peon_sys \<Rightarrow> nat" where
  "peon_load r s = length (wait_list r s) + length (proc_list r s)"

lemma complete_failed:
  assumes "ps_peons s r = Some pe" and "find (\<lambda>t. pt_id t = i) (pe_proc_list pe) = Some t"
    and "live t" and "ret \<noteq> 0"
  shows "ps_peons (peon_task_complete now r i ctx ret s) r = Some (pe\<lparr>
    pe_wait_list := pe_wait_list pe @ [t\<lparr>pt_ctx := ctx, pt_next_run := now + PEON_FAIL_RETRY_INTERVAL\<rparr>],
    pe_proc_list := filter (\<lambda>t. pt_id t \<noteq> i) (pe_proc_list pe),
    pe_worker_all_count := pe_worker_all_count pe - 1\<rparr>)"
  using assms by (simp add: peon_task_complete_def Let_def)

text \<open>
  A request that failed is retried, but not sooner than a minute later: once
  \<open>peon_task_complete\<close> has run with an error at time \<open>now\<close>, no call of
  \<open>peon_task_get\<close> on that peon returns the request before \<open>now + 60\<close>.
\<close>

theorem peon_failed_task_backs_off:
  assumes "ps_peons s r = Some pe" and "pe_type pe = peon_kind r"
    and "find (\<lambda>t. pt_id t = i) (pe_proc_list pe) = Some t" and "live t" and "ret \<noteq> 0"
    and "i \<notin> pt_id ` set (pe_wait_list pe)"
    and "s' = peon_task_complete now r i ctx ret s"
    and "peon_task_get now' r s' = (s'', Some u)" and "pt_id u = i"
  shows "now' \<ge> now + PEON_FAIL_RETRY_INTERVAL"
proof -
  note pe' = complete_failed [OF assms(1,3,4,5), of now ctx, folded assms(7)]
  from peon_task_get_Some [OF pe' assms(8)] obtain s1 where loop: "peon_get_loop now' r (pe_type pe)
      (pe_restrain_time pe) (map pt_id (pe_wait_list pe) @ [pt_id t]) s' = (s1, Some u)"
    by auto
  from get_loop_Some [OF loop] obtain s0 where s0: "prunes s' s0" "u \<in> set (wait_list r s0)"
    "live u" "peon_task_restrain_timeout now' u (pe_restrain_time pe)" by blast
  have "u \<in> set (wait_list r s')" using prunes_live [OF s0(1), of u r True] s0(2,3) by simp
  moreover have "u \<notin> set (pe_wait_list pe)" using assms(6,9) by blast
  ultimately have "pt_next_run u = now + PEON_FAIL_RETRY_INTERVAL"
    using wait_list_Some [OF pe'] by auto
  with s0(4) show ?thesis by (auto simp: peon_task_restrain_timeout_def split: if_splits)
qed

definition one_running :: "(unit, unit) peon_sys" where
  "one_running = sample_sys [(PEON_TYPE_DISCONN, [], [sample_task 1 7 2])]"

lemma one_running_peon:
  "ps_peons one_running (Static PEON_TYPE_DISCONN) =
    Some (sample_peon PEON_TYPE_DISCONN [] [sample_task 1 7 2])"
  by (simp add: one_running_def sample_sys_def)

definition one_failed :: "(unit, unit) peon_sys" where
  "one_failed = peon_task_complete 10 (Static PEON_TYPE_DISCONN) 1 None (- 5) one_running"

lemma get_one_failed:
  "peon_task_get 70 (Static PEON_TYPE_DISCONN) one_failed =
    (fst (peon_task_get 70 (Static PEON_TYPE_DISCONN) one_failed),
     Some ((sample_task 1 7 2)\<lparr>pt_next_run := 70\<rparr>))"
  by (simp add: prod_eq_iff)
    (simp add: one_failed_def one_running_def peon_task_complete_def sample_defs get_defs)

theorem peon_failed_task_backs_off_witness:
  "map_option pt_id (snd (peon_task_get 70 (Static PEON_TYPE_DISCONN) one_failed)) = Some 1 \<and>
    (70 :: int) \<ge> 10 + PEON_FAIL_RETRY_INTERVAL"
proof (rule conjI)
  show "map_option pt_id (snd (peon_task_get 70 (Static PEON_TYPE_DISCONN) one_failed)) = Some 1"
    by (subst get_one_failed) simp
  show "(70 :: int) \<ge> 10 + PEON_FAIL_RETRY_INTERVAL"
    by (rule peon_failed_task_backs_off
        [OF one_running_peon _ _ _ _ _ one_failed_def get_one_failed, where t = "sample_task 1 7 2"])
      simp_all
qed

text \<open>
  The load counter of a peon runs away from its load: completing a live request with an error
  puts it back on the wait list, so the peon still holds it, and yet \<open>worker_all_count\<close>
  goes down by one; after enough failures the counter no longer shows that all workers are busy.
\<close>

theorem worker_all_count_drifts:
  assumes "ps_peons s r = Some pe" and "distinct (map pt_id (pe_proc_list pe))"
    and "t \<in> set (pe_proc_list pe)" and "live t" and "ret \<noteq> 0"
    and "s' = peon_task_complete now r (pt_id t) ctx ret s"
  shows "peon_load r s' = peon_load r s \<and>
    map_option pe_worker_all_count (ps_peons s' r) = Some (pe_worker_all_count pe - 1)"
proof -
  note f = find_unique_id [OF assms(2,3)]
  note pe' = complete_failed [OF assms(1) f assms(4,5), of now ctx, folded assms(6)]
  have "length (filter (\<lambda>u. pt_id u \<noteq> pt_id t) xs) + 1 = length xs"
    if "distinct (map pt_id xs)" "t \<in> set xs" for xs :: "('a, 'b) peon_task list"
    using that
  proof (induction xs)
    case (Cons x xs)
    have "filter (\<lambda>u. pt_id u \<noteq> pt_id t) xs = xs" if "t = x"
      using Cons.prems(1) that by (fastforce simp: filter_id_conv image_iff)
    with Cons show ?case by (cases "t = x") (auto simp: image_iff)
  qed simp
  from this [OF assms(2,3)] show ?thesis
    unfolding peon_load_def wait_list_Some [OF pe'] proc_list_Some [OF pe']
      wait_list_Some [OF assms(1)] proc_list_Some [OF assms(1)]
    using pe' by simp
qed

theorem worker_all_count_drifts_witness:
  "map_option pe_worker_all_count (ps_peons one_failed (Static PEON_TYPE_DISCONN)) = Some (- 1)"
  using worker_all_count_drifts [OF one_running_peon, of "sample_task 1 7 2" "- 5" one_failed 10 None]
  by (simp add: one_failed_def) (simp add: sample_peon_def)

section \<open>Rechecking connected devices\<close>

definition recheck_ret :: "'w \<Rightarrow> ('w, 'c) peon_task \<Rightarrow> int option" where
  "recheck_ret w t = map_option (\<lambda>f. f w (pt_ctx t)) (tb_recheck (pt_toolbox t))"

definition stays_connected :: "'w \<Rightarrow> ('w, 'c) peon_task \<Rightarrow> bool" where
  "stays_connected w t \<longleftrightarrow> live t \<and> recheck_ret w t = Some 0"

definition relives :: "'w \<Rightarrow> ('w, 'c) peon_task \<Rightarrow> bool" where
  "relives w t \<longleftrightarrow> live t \<and> (\<exists>ret. recheck_ret w t = Some ret \<and> ret \<noteq> 0)"

lemma wait_list_upd_peon:
  "ps_peons s r = Some pe \<Longrightarrow> wait_list q (upd_peon r f s) =
    (if q = r then pe_wait_list (f pe) else wait_list q s)"
  by (auto simp: wait_list_def)

lemma wait_list_sn_generate [simp]:
  "wait_list q (fst (peon_sn_generate s)) = wait_list q s"
  "ps_peons (fst (peon_sn_generate s)) = ps_peons s"
  by (simp_all add: peon_sn_generate_def wait_list_def Let_def)

lemma peon_sn_generate_nonzero: "snd (peon_sn_generate s) \<noteq> 0"
  by (simp add: peon_sn_generate_def Let_def)

lemma move_to_connect_wait:
  assumes "ps_peons s (Static PEON_TYPE_CONNECT) \<noteq> None"
  obtains t' where
    "wait_list (Static PEON_TYPE_CONNECT) (peon_move_task_to_connect now t s) =
      wait_list (Static PEON_TYPE_CONNECT) s @ [t']"
    "pt_id t' = pt_id t" "live t'" "pt_tm t' = now" "pt_next_run t' = 0" "pt_sn t' \<noteq> 0"
    "pt_param t' = pt_param t"
proof -
  from assms obtain pe where pe: "ps_peons s (Static PEON_TYPE_CONNECT) = Some pe" by blast
  then have pe': "ps_peons (fst (peon_sn_generate s)) (Static PEON_TYPE_CONNECT) = Some pe" by simp
  show thesis
    by (rule that [OF _ _ _ _ _ _ _])
      (simp add: peon_move_task_to_connect_def split_beta Let_def wait_list_upd_peon [OF pe']
        wait_list_Some [OF pe], simp_all add: peon_sn_generate_nonzero)
qed

lemma move_to_connect_recheck [simp]:
  "wait_list (Static PEON_TYPE_RECHECK) (peon_move_task_to_connect now t s) =
    wait_list (Static PEON_TYPE_RECHECK) s"
  by (simp add: peon_move_task_to_connect_def split_beta Let_def)
    (simp add: wait_list_def peon_sn_generate_def Let_def)

lemma ps_peons_move_to_connect:
  "ps_peons (peon_move_task_to_connect now t s) r = None \<longleftrightarrow> ps_peons s r = None"
  by (simp add: peon_move_task_to_connect_def split_beta Let_def)

lemma drop_recheck_simps [simp]:
  "wait_list (Static PEON_TYPE_RECHECK) (drop_recheck i s) =
    filter (\<lambda>t. pt_id t \<noteq> i) (wait_list (Static PEON_TYPE_RECHECK) s)"
  "wait_list (Static PEON_TYPE_CONNECT) (drop_recheck i s) = wait_list (Static PEON_TYPE_CONNECT) s"
  "ps_peons (drop_recheck i s) r = None \<longleftrightarrow> ps_peons s r = None"
  by (cases "ps_peons s (Static PEON_TYPE_RECHECK)"; simp add: drop_recheck_def wait_list_def)+

definition relived :: "int \<Rightarrow> ('w, 'c) peon_task \<Rightarrow> ('w, 'c) peon_task \<Rightarrow> bool" where
  "relived now t t' \<longleftrightarrow> pt_id t' = pt_id t \<and> pt_param t' = pt_param t \<and> live t' \<and>
    pt_tm t' = now \<and> pt_next_run t' = 0 \<and> pt_sn t' \<noteq> 0"

lemma recheck_loop_spec:
  assumes "ps_peons s (Static PEON_TYPE_CONNECT) \<noteq> None" and "distinct (map pt_id ts)"
  shows "wait_list (Static PEON_TYPE_RECHECK) (peon_recheck_loop now w ts s) =
      filter (\<lambda>t. pt_id t \<notin> pt_id ` {u \<in> set ts. \<not> stays_connected w u})
        (wait_list (Static PEON_TYPE_RECHECK) s) \<and>
    (\<exists>new. wait_list (Static PEON_TYPE_CONNECT) (peon_recheck_loop now w ts s) =
      wait_list (Static PEON_TYPE_CONNECT) s @ new \<and>
      list_all2 (relived now) (filter (relives w) ts) new)"
  using assms
proof (induction ts arbitrary: s)
  case Nil
  then show ?case by simp
next
  case (Cons t ts)
  have ids: "pt_id ` {u. (u = t \<or> u \<in> set ts) \<and> \<not> stays_connected w u} =
      (if stays_connected w t then {} else {pt_id t}) \<union> pt_id ` {u \<in> set ts. \<not> stays_connected w u}"
    by auto
  show ?case
  proof (cases "live t \<and> tb_recheck (pt_toolbox t) \<noteq> None")
    case False
    then have "\<not> stays_connected w t" "\<not> relives w t"
      "peon_recheck_loop now w (t # ts) s = peon_recheck_loop now w ts (drop_recheck (pt_id t) s)"
      by (auto simp: stays_connected_def relives_def recheck_ret_def not_dead_iff_live split: option.splits)
    then show ?thesis
      using Cons.IH [of "drop_recheck (pt_id t) s"] Cons.prems
      by (auto simp: ids conj_commute intro!: filter_cong simp del: peon_recheck_loop.simps)
  next
    case True
    then obtain f where l: "live t" and f: "tb_recheck (pt_toolbox t) = Some f" by auto
    show ?thesis
    proof (cases "f w (pt_ctx t) = 0")
      case True
      then have "stays_connected w t" "\<not> relives w t"
        "peon_recheck_loop now w (t # ts) s = peon_recheck_loop now w ts s"
        using l f by (auto simp: stays_connected_def relives_def recheck_ret_def)
      then show ?thesis
        using Cons.IH [of s] Cons.prems by (simp add: ids del: peon_recheck_loop.simps)
    next
      case False
      let ?s = "drop_recheck (pt_id t) s"
      have k: "\<not> stays_connected w t" "relives w t"
        "peon_recheck_loop now w (t # ts) s =
          peon_recheck_loop now w ts (peon_move_task_to_connect now t ?s)"
        using l f False by (auto simp: stays_connected_def relives_def recheck_ret_def)
      obtain t' where t': "wait_list (Static PEON_TYPE_CONNECT) (peon_move_task_to_connect now t ?s) =
          wait_list (Static PEON_TYPE_CONNECT) ?s @ [t']" "relived now t t'"
        using move_to_connect_wait [of ?s now t] Cons.prems(1) by (auto simp: relived_def)
      then show ?thesis
        using Cons.IH [of "peon_move_task_to_connect now t ?s"] Cons.prems k
        by (auto simp: ids ps_peons_move_to_connect conj_commute intro!: filter_cong
            simp del: peon_recheck_loop.simps)
    qed
  qed
qed

text \<open>
  A recheck pass keeps exactly the live devices whose \<open>recheck\<close> answers 0, drops the
  dead ones and those without the callback, and revives each of the others, in order, as a fresh
  live connect request that may run at once, with a serial number that is not 0.
\<close>

theorem peon_run_recheck_spec:
  assumes "ps_peons s (Static PEON_TYPE_CONNECT) \<noteq> None"
    and "distinct (map pt_id (wait_list (Static PEON_TYPE_RECHECK) s))"
  shows "wait_list (Static PEON_TYPE_RECHECK) (peon_run_recheck now w s) =
      filter (stays_connected w) (wait_list (Static PEON_TYPE_RECHECK) s) \<and>
    (\<exists>new. wait_list (Static PEON_TYPE_CONNECT) (peon_run_recheck now w s) =
      wait_list (Static PEON_TYPE_CONNECT) s @ new \<and>
      list_all2 (relived now) (filter (relives w) (wait_list (Static PEON_TYPE_RECHECK) s)) new)"
proof -
  let ?ts = "wait_list (Static PEON_TYPE_RECHECK) s"
  have "filter (\<lambda>t. pt_id t \<notin> pt_id ` {u \<in> set ?ts. \<not> stays_connected w u}) ?ts =
      filter (stays_connected w) ?ts"
    using same_waiting [OF assms(2)] by (intro filter_cong) auto
  with recheck_loop_spec [OF assms, of now w] show ?thesis by (simp add: peon_run_recheck_def)
qed

definition recheck_toolbox :: "(unit, unit) conn_toolbox" where
  "recheck_toolbox = sample_toolbox\<lparr>tb_recheck := Some (\<lambda>_ c. if c = None then - 1 else 0)\<rparr>"

definition two_connected :: "(unit, unit) peon_sys" where
  "two_connected = sample_sys [(PEON_TYPE_RECHECK,
    [(sample_task 1 0 2)\<lparr>pt_toolbox := recheck_toolbox, pt_ctx := Some ()\<rparr>,
     (sample_task 2 0 3)\<lparr>pt_toolbox := recheck_toolbox\<rparr>], [])]"

theorem peon_run_recheck_spec_witness:
  "map pt_id (wait_list (Static PEON_TYPE_RECHECK) (peon_run_recheck 5 () two_connected)) = [1]"
proof -
  have w: "wait_list (Static PEON_TYPE_RECHECK) two_connected =
    [(sample_task 1 0 2)\<lparr>pt_toolbox := recheck_toolbox, pt_ctx := Some ()\<rparr>,
     (sample_task 2 0 3)\<lparr>pt_toolbox := recheck_toolbox\<rparr>]"
    by (simp add: two_connected_def sample_sys_def wait_list_def)
  have c: "ps_peons two_connected (Static PEON_TYPE_CONNECT) \<noteq> None"
    by (simp add: two_connected_def sample_sys_def)
  from peon_run_recheck_spec [OF c, of 5 "()"] show ?thesis
    by (simp add: w stays_connected_def recheck_ret_def recheck_toolbox_def) (simp add: sample_task_def)
qed

end
