(* ===== verification/Snsd_Peon_Steps.thy ===== *)
theory Snsd_Peon_Steps
  imports Snsd_Peon_Sched
begin

text \<open>
  The threads of \<open>src/snsd_conn_peon.c\<close> as a step relation.  Each step is what one thread
  does while it holds \<open>peon_list_lock\<close> (or the spin lock of the serial numbers): a request
  is numbered, a request is queued, a worker takes a task or finds none, a worker completes the
  task it took, the recheck worker makes a pass, a dynamic disconnect thread ends, the restrain
  time is changed.  Between taking and completing a task its handler runs without the lock, so
  these are two steps and any others may come between them; \<open>pr_busy\<close> holds the tasks
  workers are running, \<open>pr_polled\<close> the dynamic threads past their only call of
  \<open>peon_task_get\<close>.  A request is queued with any serial number: numbering and queueing are
  not one critical section, so the order of the numbers is not the order of the queue.
\<close>

record ('w, 'c) peon_run =
  pr_sys :: "('w, 'c) peon_sys"
  pr_busy :: "(peon_ref \<times> nat) set"
  pr_polled :: "nat set"

definition started :: "peon_ref \<Rightarrow> ('w, 'c) peon_task option \<Rightarrow> (peon_ref \<times> nat) set" where
  "started r res = (case res of None \<Rightarrow> {} | Some t \<Rightarrow> {(r, pt_id t)})"

definition free_worker :: "peon_type \<Rightarrow> ('w, 'c) peon_run \<Rightarrow> bool" where
  "free_worker ty st \<longleftrightarrow> ty \<noteq> PEON_TYPE_RECHECK \<and>
    (case ps_peons (pr_sys st) (Static ty) of
       None \<Rightarrow> False
     | Some pe \<Rightarrow> card {i. (Static ty, i) \<in> pr_busy st} < pe_worker_num pe)"

inductive peon_step :: "('w, 'c) peon_run \<Rightarrow> ('w, 'c) peon_run \<Rightarrow> bool" where
  Number: "peon_sn_generate (pr_sys st) = (s', sn) \<Longrightarrow> peon_step st (st\<lparr>pr_sys := s'\<rparr>)"
| Queue: "ty \<noteq> PEON_TYPE_RECHECK \<Longrightarrow>
    peon_task_add env ty sn param tb (pr_sys st) = Done (s', res) \<Longrightarrow>
    peon_step st (st\<lparr>pr_sys := s'\<rparr>)"
| Poll: "free_worker ty st \<Longrightarrow> peon_task_get now (Static ty) (pr_sys st) = (s', res) \<Longrightarrow>
    peon_step st (st\<lparr>pr_sys := s', pr_busy := started (Static ty) res \<union> pr_busy st\<rparr>)"
| Poll_dyn: "d \<notin> pr_polled st \<Longrightarrow> ps_peons (pr_sys st) (Dyn d) \<noteq> None \<Longrightarrow>
    peon_task_get now (Dyn d) (pr_sys st) = (s', res) \<Longrightarrow>
    peon_step st (st\<lparr>pr_sys := s', pr_busy := started (Dyn d) res \<union> pr_busy st,
      pr_polled := insert d (pr_polled st)\<rparr>)"
| Complete: "(r, i) \<in> pr_busy st \<Longrightarrow>
    peon_step st (st\<lparr>pr_sys := peon_task_complete now r i ctx ret (pr_sys st),
      pr_busy := pr_busy st - {(r, i)}\<rparr>)"
| Recheck: "peon_step st (st\<lparr>pr_sys := peon_run_recheck now w (pr_sys st)\<rparr>)"
| Exit_dyn: "d \<in> pr_polled st \<Longrightarrow> ps_peons (pr_sys st) (Dyn d) \<noteq> None \<Longrightarrow>
    {i. (Dyn d, i) \<in> pr_busy st} = {} \<Longrightarrow>
    peon_step st (st\<lparr>pr_sys := peon_dyn_exit d (pr_sys st)\<rparr>)"
| Set_restrain: "peon_step st (st\<lparr>pr_sys := peon_set_disconn_restrain_time rt (pr_sys st)\<rparr>)"

inductive_cases peon_stepE: "peon_step st st'"

lemmas peon_step_cases = peon_stepE [consumes 1, case_names Number Queue Poll Poll_dyn Complete
  Recheck Exit_dyn Set_restrain]

definition built_peon :: "peon_type \<Rightarrow> ('w, 'c) peon option" where
  "built_peon ty = peon_construct True (\<lambda>_. True) (peon_worker_envs ty) True False"

definition peon_start :: "('w, 'c) peon_run \<Rightarrow> bool" where
  "peon_start st \<longleftrightarrow> pr_busy st = {} \<and> pr_polled st = {} \<and>
    (\<exists>rt s0. peon_init built_peon rt s0 = Inr (pr_sys st))"

section \<open>The invariant\<close>

definition ids_at :: "('w, 'c) peon_sys \<Rightarrow> peon_ref \<Rightarrow> bool \<Rightarrow> nat list" where
  "ids_at s q w = map pt_id (list_at q w s)"

text \<open>Every task is in exactly one list, once, and its address is an allocated one.\<close>

definition ids_ok :: "('w, 'c) peon_sys \<Rightarrow> bool" where
  "ids_ok s \<longleftrightarrow>
    (\<forall>q w. distinct (ids_at s q w)) \<and>
    (\<forall>q w q' w' i. i \<in> set (ids_at s q w) \<longrightarrow> i \<in> set (ids_at s q' w') \<longrightarrow> q = q' \<and> w = w') \<and>
    (\<forall>q w i. i \<in> set (ids_at s q w) \<longrightarrow> i < ps_next_addr s)"

definition peons_ok :: "('w, 'c) peon_sys \<Rightarrow> bool" where
  "peons_ok s \<longleftrightarrow>
    (\<forall>ty. \<exists>pe. ps_peons s (Static ty) = Some pe \<and> pe_worker_num pe = we_num (peon_worker_envs ty)) \<and>
    (\<forall>r pe. ps_peons s r = Some pe \<longrightarrow> pe_type pe = peon_kind r) \<and>
    (\<forall>d. ps_peons s (Dyn d) \<noteq> None \<longrightarrow> d < ps_next_addr s)"

definition peon_inv :: "('w, 'c) peon_run \<Rightarrow> bool" where
  "peon_inv st \<longleftrightarrow> ids_ok (pr_sys st) \<and> peons_ok (pr_sys st) \<and>
    (\<forall>r. set (ids_at (pr_sys st) r False) = {i. (r, i) \<in> pr_busy st}) \<and>
    (\<forall>ty. length (ids_at (pr_sys st) (Static ty) False) \<le> we_num (peon_worker_envs ty)) \<and>
    ids_at (pr_sys st) (Static PEON_TYPE_RECHECK) False = []"

lemma ids_okD:
  assumes "ids_ok s"
  shows "distinct (ids_at s q w)"
    and "i \<in> set (ids_at s q w) \<Longrightarrow> i \<in> set (ids_at s q' w') \<Longrightarrow> q = q' \<and> w = w'"
    and "i \<in> set (ids_at s q w) \<Longrightarrow> i < ps_next_addr s"
  using assms by (auto simp: ids_ok_def)

text \<open>
  Preservation of \<open>ids_ok\<close> by a function that moves identifiers: it suffices that every
  list stays distinct and that each identifier of the new state comes from a list by a map under
  which no two lists share one.
\<close>

lemma ids_ok_shrink:
  assumes "ids_ok s" and "ps_next_addr s \<le> ps_next_addr s'"
    and "\<And>q w. distinct (ids_at s' q w)"
    and "\<And>q w. set (ids_at s' q w) \<subseteq> set (ids_at s q w)"
  shows "ids_ok s'"
  unfolding ids_ok_def
  using assms(3) assms(4) ids_okD(2,3) [OF assms(1)] assms(2) by (meson order_less_le_trans subsetD)

text \<open>One identifier \<open>i\<close> is moved to (or created in) the list \<open>(q0, w0)\<close>.\<close>

lemma ids_ok_move:
  assumes "ids_ok s" and "ps_next_addr s \<le> ps_next_addr s'" and "i < ps_next_addr s'"
    and "\<And>q w. distinct (ids_at s' q w)"
    and "\<And>q w. set (ids_at s' q w) - {i} \<subseteq> set (ids_at s q w)"
    and "\<And>q w. i \<in> set (ids_at s' q w) \<Longrightarrow> q = q0 \<and> w = w0"
  shows "ids_ok s'"
proof -
  have a: "q = q' \<and> w = w'" if "j \<in> set (ids_at s' q w)" "j \<in> set (ids_at s' q' w')" for j q w q' w'
  proof (cases "j = i")
    case True
    with that assms(6) show ?thesis by blast
  next
    case False
    with that assms(5) have "j \<in> set (ids_at s q w)" "j \<in> set (ids_at s q' w')" by blast+
    with ids_okD(2) [OF assms(1)] show ?thesis by blast
  qed
  have b: "j < ps_next_addr s'" if "j \<in> set (ids_at s' q w)" for j q w
    using that assms(2,3,5) ids_okD(3) [OF assms(1)]
    by (metis Diff_iff empty_iff insert_iff order_less_le_trans subsetD)
  show ?thesis unfolding ids_ok_def using a b assms(4) by blast
qed

section \<open>What the operations do to the identifiers\<close>

definition metas :: "('w, 'c) peon_sys \<Rightarrow> peon_ref \<Rightarrow> (peon_type \<times> nat) option" where
  "metas s r = map_option peon_meta (ps_peons s r)"

lemma metas_Some: "metas s r = Some m \<longleftrightarrow> (\<exists>pe. ps_peons s r = Some pe \<and> peon_meta pe = m)"
  by (auto simp: metas_def)

lemma metas_None: "metas s r = None \<longleftrightarrow> ps_peons s r = None"
  by (simp add: metas_def)

lemma peons_ok_metas:
  "peons_ok s \<longleftrightarrow>
    (\<forall>ty. metas s (Static ty) = Some (ty, we_num (peon_worker_envs ty))) \<and>
    (\<forall>r ty n. metas s r = Some (ty, n) \<longrightarrow> ty = peon_kind r) \<and>
    (\<forall>d. metas s (Dyn d) \<noteq> None \<longrightarrow> d < ps_next_addr s)"
  unfolding peons_ok_def metas_def
  by (auto; metis (no_types, lifting) option.sel peon_kind.simps(1))

lemma peons_ok_cong:
  "peons_ok s \<Longrightarrow> (\<And>r. metas s' r = metas s r) \<Longrightarrow> ps_next_addr s \<le> ps_next_addr s' \<Longrightarrow> peons_ok s'"
  unfolding peons_ok_metas by (metis order_less_le_trans)

lemma peons_okD:
  assumes "peons_ok s"
  shows "\<exists>pe. ps_peons s (Static ty) = Some pe" and "ps_peons s r = Some pe \<Longrightarrow> pe_type pe = peon_kind r"
  using assms unfolding peons_ok_def by blast+

lemma ids_at_upd:
  "ps_peons s r = Some pe \<Longrightarrow> ids_at (upd_peon r f s) q w =
    (if q = r then map pt_id (if w then pe_wait_list (f pe) else pe_proc_list (f pe)) else ids_at s q w)"
  by (simp add: ids_at_def list_at_def wait_list_def proc_list_def)

lemma ids_at_peon:
  "ps_peons s r = Some pe \<Longrightarrow>
    ids_at s r w = map pt_id (if w then pe_wait_list pe else pe_proc_list pe)"
  by (simp add: ids_at_def list_at_def)

lemma metas_upd:
  "(\<And>pe. ps_peons s r = Some pe \<Longrightarrow> peon_meta (f pe) = peon_meta pe) \<Longrightarrow> metas (upd_peon r f s) q = metas s q"
  by (auto simp: metas_def option.map_comp intro!: option.map_cong)

lemma ids_at_congs [simp]:
  "ids_at (s\<lparr>ps_sn := n\<rparr>) q w = ids_at s q w" "ids_at (s\<lparr>ps_next_addr := a\<rparr>) q w = ids_at s q w"
  "ids_at (s\<lparr>ps_dyn_worker_num := m\<rparr>) q w = ids_at s q w"
  by (simp_all add: ids_at_def list_at_def wait_list_def proc_list_def)

lemma metas_congs [simp]:
  "metas (s\<lparr>ps_sn := n\<rparr>) q = metas s q" "metas (s\<lparr>ps_next_addr := a\<rparr>) q = metas s q"
  "metas (s\<lparr>ps_dyn_worker_num := m\<rparr>) q = metas s q"
  by (simp_all add: metas_def)

lemma sn_generate_frame:
  "peon_sn_generate s = (s', sn) \<Longrightarrow> \<exists>n. s' = s\<lparr>ps_sn := n\<rparr>"
  by (auto simp: peon_sn_generate_def Let_def)

text \<open>Queueing.\<close>

lemma peon_task_add_ids:
  assumes "peon_task_add env ty sn param tb s = Done (s', res)"
  obtains (fail) "s' = s"
  | (static) task pe where "ps_peons s (Static ty) = Some pe" "pt_id task = ps_next_addr s"
      "s' = upd_peon (Static ty) (\<lambda>pe. pe\<lparr>pe_wait_list := pe_wait_list pe @ [task],
        pe_worker_all_count := pe_worker_all_count pe + 1\<rparr>) (s\<lparr>ps_next_addr := ps_next_addr s + 1\<rparr>)"
  | (dynamic) task pe n where "pt_id task = ps_next_addr s" "pe_type pe = PEON_TYPE_DISCONN"
      "pe_wait_list pe = [task]" "pe_proc_list pe = []"
      "s' = s\<lparr>ps_peons := (ps_peons s)(Dyn (ps_next_addr s + 1) := Some pe),
        ps_next_addr := ps_next_addr s + 2, ps_dyn_worker_num := n\<rparr>"
proof (cases "peon_new_task env (ps_next_addr s) sn param tb")
  case (Inl e)
  then show ?thesis using assms fail by (simp add: peon_task_add_def)
next
  case (Inr task)
  note new = peon_new_task_Inr(1) [OF Inr]
  obtain pe where pe: "ps_peons s (Static ty) = Some pe"
    using assms Inr by (cases "ps_peons s (Static ty)") (auto simp: peon_task_add_def Let_def)
  show ?thesis
  proof (cases "pe_type pe = PEON_TYPE_DISCONN \<and> int (pe_worker_num pe) \<le> pe_worker_all_count pe \<and>
      ps_dyn_worker_num s \<le> PEON_DYN_DISCONN_WORKER_LIMIT")
    case False
    then have "s' = upd_peon (Static ty) (\<lambda>pe. pe\<lparr>pe_wait_list := pe_wait_list pe @ [task],
        pe_worker_all_count := pe_worker_all_count pe + 1\<rparr>) (s\<lparr>ps_next_addr := ps_next_addr s + 1\<rparr>)"
      using assms Inr pe
      by (auto simp: peon_task_add_def Let_def simp del: PEON_DYN_DISCONN_WORKER_LIMIT_def split: if_splits)
    from static [OF pe new this] show ?thesis .
  next
    case True
    show ?thesis
    proof (cases "en_dyn env")
      case DynStarted
      show ?thesis
        by (rule dynamic [of task "\<lparr>pe_type = PEON_TYPE_DISCONN, pe_dynamic = True,
            pe_wait_list = [task], pe_proc_list = [],
            pe_restrain_time = word_of_int (en_cfg_restrain_time env),
            pe_normal_period = PEON_WORKER_PERIOD_NORMAL, pe_fast_period = PEON_WORKER_PERIOD_FAST,
            pe_worker_num = 1, pe_worker_all_count = 1\<rparr>" "ps_dyn_worker_num s + 1", OF new])
          (use assms Inr pe True DynStarted in \<open>auto simp: peon_task_add_def Let_def
            peon_dyn_create_def peon_construct_def peon_dyn_worker_env_def\<close>)
    next
      case DynNoMemory
      show ?thesis
        by (rule static [OF pe new]) (use assms Inr pe True DynNoMemory in \<open>auto simp:
            peon_task_add_def Let_def peon_dyn_create_def peon_construct_def\<close>)
    next
      case DynNoThread
      then show ?thesis using assms Inr pe True
        by (auto simp: peon_task_add_def Let_def peon_dyn_create_def peon_construct_def
            peon_dyn_worker_env_def)
    qed
  qed
qed

lemma peon_task_add_inv:
  assumes "peon_task_add env ty sn param tb s = Done (s', res)" and "ids_ok s" and "peons_ok s"
  shows "ids_ok s' \<and> peons_ok s' \<and> (\<forall>q. ids_at s' q False = ids_at s q False)"
  using assms(1)
proof (cases rule: peon_task_add_ids)
  case fail
  with assms show ?thesis by simp
next
  case (static task pe)
  let ?a = "s\<lparr>ps_next_addr := ps_next_addr s + 1\<rparr>"
  have pe: "ps_peons ?a (Static ty) = Some pe" using static(1) by simp
  have ids: "ids_at s' q w = (if q = Static ty \<and> w then ids_at s q w @ [ps_next_addr s] else ids_at s q w)" for q w
    unfolding static(3) ids_at_upd [OF pe] using static(1,2) by (auto simp: ids_at_peon)
  have fresh: "ps_next_addr s \<notin> set (ids_at s q w)" for q w using ids_okD(3) [OF assms(2)] by blast
  have addr: "ps_next_addr s' = ps_next_addr s + 1" by (simp add: static(3))
  have "ids_ok s'"
    by (rule ids_ok_move [OF assms(2), of s' "ps_next_addr s" "Static ty" True])
      (auto simp: ids addr fresh ids_okD(1) [OF assms(2)] split: if_splits)
  moreover have "peons_ok s'"
  proof (rule peons_ok_cong [OF assms(3)])
    show "metas s' r = metas s r" for r unfolding static(3) by (subst metas_upd) simp_all
  qed (simp add: static(3))
  ultimately show ?thesis by (simp add: ids)
next
  case (dynamic task pe n)
  let ?d = "ps_next_addr s + 1"
  have old: "ps_peons s (Dyn ?d) = None"
  proof (rule ccontr)
    assume "ps_peons s (Dyn ?d) \<noteq> None"
    with assms(3) have "?d < ps_next_addr s" unfolding peons_ok_def by blast
    then show False by simp
  qed
  have ids: "ids_at s' q w = (if q = Dyn ?d \<and> w then [ps_next_addr s] else ids_at s q w)" for q w
    using dynamic old by (auto simp: ids_at_def list_at_def wait_list_def proc_list_def)
  have fresh: "ps_next_addr s \<notin> set (ids_at s q w)" for q w using ids_okD(3) [OF assms(2)] by blast
  have addr: "ps_next_addr s' = ps_next_addr s + 2" by (simp add: dynamic(5))
  have "ids_ok s'"
    by (rule ids_ok_move [OF assms(2), of s' "ps_next_addr s" "Dyn ?d" True])
      (auto simp: ids addr ids_okD(1) [OF assms(2)] fresh split: if_splits)
  moreover have "peons_ok s'"
    using assms(3) dynamic(2) unfolding peons_ok_def dynamic(5) by (auto simp: less_Suc_eq)
  ultimately show ?thesis by (simp add: ids)
qed

text \<open>Polling.\<close>

lemma prunes_inv:
  assumes "prunes s s'" and "ids_ok s" and "peons_ok s"
  shows "ids_ok s' \<and> peons_ok s' \<and> (\<forall>q. ids_at s' q False = ids_at s q False)"
proof -
  have sub: "subseq (ids_at s' q w) (ids_at s q w)" for q w
  proof (cases w)
    case True
    then show ?thesis using assms(1) by (simp add: ids_at_def prunes_def)
  next
    case False
    then show ?thesis
      using list_all2_kills_ids [OF prunes_proc [OF assms(1)], of q] by (simp add: ids_at_def)
  qed
  have addr: "ps_next_addr s' = ps_next_addr s" using assms(1) by (simp add: prunes_def)
  have "ids_ok s'"
    by (rule ids_ok_shrink [OF assms(2)])
      (use addr subseq_distinctD [OF sub ids_okD(1) [OF assms(2)]] subseq_set [OF sub] in auto)
  moreover have "peons_ok s'"
    by (rule peons_ok_cong [OF assms(3)]) (use assms(1) in \<open>simp_all add: prunes_def metas_def\<close>)
  moreover have "ids_at s' q False = ids_at s q False" for q
    using list_all2_kills_ids [OF prunes_proc [OF assms(1)], of q] by (simp add: ids_at_def)
  ultimately show ?thesis by blast
qed

lemma start_task_inv:
  assumes "ids_ok s" and "peons_ok s" and "ps_peons s r \<noteq> None" and "t \<in> set (wait_list r s)"
  shows "ids_ok (start_task r t s) \<and> peons_ok (start_task r t s) \<and>
    (\<forall>q. ids_at (start_task r t s) q False =
      (if q = r then ids_at s q False @ [pt_id t] else ids_at s q False))"
proof -
  obtain pe where pe: "ps_peons s r = Some pe" using assms(3) by blast
  let ?s = "start_task r t s"
  have ids: "ids_at ?s q w = (if q = r then if w then filter (\<lambda>i. i \<noteq> pt_id t) (ids_at s q True)
      else ids_at s q False @ [pt_id t] else ids_at s q w)" for q w
    unfolding start_task_def ids_at_upd [OF pe]
    using pe by (auto simp: ids_at_peon filter_map o_def)
  have tw: "pt_id t \<in> set (ids_at s r True)" using assms(4) by (simp add: ids_at_def)
  then have fresh: "pt_id t \<in> set (ids_at s q w) \<Longrightarrow> q = r \<and> w" for q w
    using ids_okD(2) [OF assms(1)] by blast
  have addr: "ps_next_addr ?s = ps_next_addr s" by (simp add: start_task_def)
  have "ids_ok ?s"
    by (rule ids_ok_move [OF assms(1), of ?s "pt_id t" r False])
      (use ids_okD(3) [OF assms(1) tw] fresh in
        \<open>auto simp: ids addr ids_okD(1) [OF assms(1)] split: if_splits\<close>)
  moreover have "peons_ok ?s"
    by (rule peons_ok_cong [OF assms(2)]) (simp_all add: start_task_def metas_upd)
  ultimately show ?thesis by (simp add: ids)
qed

lemma peon_task_get_inv:
  assumes "peon_task_get now r s = (s', res)" and "ps_peons s r \<noteq> None" and "ids_ok s" and "peons_ok s"
  shows "ids_ok s' \<and> peons_ok s' \<and>
    (\<forall>q. ids_at s' q False =
      (if q = r then ids_at s q False @ (case res of None \<Rightarrow> [] | Some t \<Rightarrow> [pt_id t])
       else ids_at s q False))"
proof -
  obtain pe where pe: "ps_peons s r = Some pe" using assms(2) by blast
  show ?thesis
  proof (cases res)
    case None
    have "prunes s s'"
      using get_loop_prunes [of s] peon_task_get_None [OF pe] assms(1) None by (metis fst_conv)
    from prunes_inv [OF this assms(3,4)] None show ?thesis by simp
  next
    case (Some t)
    from peon_task_get_Some [OF pe] assms(1) Some obtain s1 where
      loop: "peon_get_loop now r (pe_type pe) (pe_restrain_time pe) (map pt_id (pe_wait_list pe)) s =
        (s1, Some t)" and s': "s' = start_task r t s1" by metis
    have pr: "prunes s s1" using get_loop_prunes [of s] loop by (metis fst_conv)
    from get_loop_Some [OF loop] obtain s0 a where s0: "t \<in> set (wait_list r s0)" "live t"
      "peon_task_action_judge (pe_type pe) t s0 = (s1, a)" by blast
    have "pt_id t \<in> set (map pt_id (list_at r True s1))"
      using deadens_ids [OF judge_deadens [of s0 "pe_type pe" t], of r True] s0 by simp
    then obtain u where u: "u \<in> set (wait_list r s1)" "pt_id u = pt_id t" by auto
    note i1 = prunes_inv [OF pr assms(3,4)]
    have ne: "ps_peons s1 r \<noteq> None" using prunes_peon [OF pr] assms(2) by simp
    have st: "ids_at (start_task r t s1) q w = ids_at (start_task r u s1) q w" for q w
      using u(2) ne by (auto simp: start_task_def ids_at_upd)
    have mt: "metas (start_task r t s1) q = metas (start_task r u s1) q" for q
      by (simp add: start_task_def metas_upd)
    from start_task_inv [OF conjunct1 [OF i1] _ ne u(1)] i1
    have "ids_ok (start_task r u s1) \<and> peons_ok (start_task r u s1) \<and>
      (\<forall>q. ids_at (start_task r u s1) q False =
        (if q = r then ids_at s1 q False @ [pt_id u] else ids_at s1 q False))" by blast
    then have "ids_ok (start_task r t s1) \<and> peons_ok (start_task r t s1) \<and>
      (\<forall>q. ids_at (start_task r t s1) q False =
        (if q = r then ids_at s1 q False @ [pt_id u] else ids_at s1 q False))"
      unfolding ids_ok_def peons_ok_metas st mt by (simp add: start_task_def)
    with i1 Some u(2) show ?thesis by (simp add: s')
  qed
qed

text \<open>Completing.\<close>

lemma metas_complete: "metas (peon_task_complete now r i ctx ret s) q = metas s q"
  unfolding peon_task_complete_def Let_def
  by (auto simp: metas_upd split: option.splits)

lemma addr_complete [simp]:
  "ps_next_addr (peon_task_complete now r i ctx ret s) = ps_next_addr s"
  unfolding peon_task_complete_def Let_def by (auto split: option.splits)

text \<open>Where a completed task goes: back to its wait list, to the recheck list, or nowhere.\<close>

lemma ids_complete:
  assumes "peons_ok s" and "i \<in> set (ids_at s r False)" and "r \<noteq> Static PEON_TYPE_RECHECK"
  obtains dest where "dest \<in> {Some r, Some (Static PEON_TYPE_RECHECK), None}"
    and "\<And>q w. ids_at (peon_task_complete now r i ctx ret s) q w =
      (if w then ids_at s q True @ (if dest = Some q then [i] else [])
       else if q = r then filter (\<lambda>j. j \<noteq> i) (ids_at s r False) else ids_at s q False)"
proof -
  have "ps_peons s r \<noteq> None"
    using assms(2) by (cases "ps_peons s r") (simp_all add: ids_at_def proc_list_def)
  then obtain pe where pe: "ps_peons s r = Some pe" by blast
  obtain rpe where rpe: "ps_peons s (Static PEON_TYPE_RECHECK) = Some rpe"
    using peons_okD(1) [OF assms(1)] by blast
  have "\<exists>t \<in> set (pe_proc_list pe). pt_id t = i"
    using assms(2) pe by (auto simp: ids_at_peon)
  then obtain t where t: "find (\<lambda>t. pt_id t = i) (pe_proc_list pe) = Some t"
    by (cases "find (\<lambda>t. pt_id t = i) (pe_proc_list pe)") (auto simp: find_None_iff)
  have ti: "pt_id t = i" using find_waiting(2) [OF t] .
  let ?dest = "if live t then if ret \<noteq> 0 then Some r
    else if pe_type pe = PEON_TYPE_CONNECT then Some (Static PEON_TYPE_RECHECK) else None else None"
  show thesis
  proof (rule that [of ?dest])
    show "ids_at (peon_task_complete now r i ctx ret s) q w =
      (if w then ids_at s q True @ (if ?dest = Some q then [i] else [])
       else if q = r then filter (\<lambda>j. j \<noteq> i) (ids_at s r False) else ids_at s q False)" for q w
      using pe rpe t ti assms(3)
      by (auto simp: peon_task_complete_def Let_def ids_at_def list_at_def wait_list_def proc_list_def
          filter_map o_def split: option.splits)
  qed simp
qed

lemma peon_task_complete_inv:
  assumes "ids_ok s" and "peons_ok s" and "i \<in> set (ids_at s r False)"
    and "r \<noteq> Static PEON_TYPE_RECHECK" and "s' = peon_task_complete now r i ctx ret s"
  shows "ids_ok s' \<and> peons_ok s' \<and>
    (\<forall>q. ids_at s' q False =
      (if q = r then filter (\<lambda>j. j \<noteq> i) (ids_at s r False) else ids_at s q False))"
proof -
  obtain dest where d: "\<And>q w. ids_at s' q w =
      (if w then ids_at s q True @ (if dest = Some q then [i] else [])
       else if q = r then filter (\<lambda>j. j \<noteq> i) (ids_at s r False) else ids_at s q False)"
    using ids_complete [OF assms(2-4)] unfolding assms(5) by metis
  have fresh: "i \<in> set (ids_at s q w) \<Longrightarrow> q = r \<and> \<not> w" for q w
    using ids_okD(2) [OF assms(1) assms(3)] by blast
  have addr: "ps_next_addr s' = ps_next_addr s" by (simp add: assms(5))
  have "ids_ok s'"
    by (rule ids_ok_move [OF assms(1), of s' i "the dest" True])
      (use ids_okD(3) [OF assms(1,3)] fresh in
        \<open>auto simp: d addr ids_okD(1) [OF assms(1)] split: if_splits\<close>)
  moreover have "peons_ok s'"
    by (rule peons_ok_cong [OF assms(2)]) (simp_all add: assms(5) metas_complete)
  ultimately show ?thesis by (simp add: d)
qed

text \<open>Rechecking.\<close>

lemma drop_recheck_frame:
  "metas (drop_recheck i s) q = metas s q" "ps_next_addr (drop_recheck i s) = ps_next_addr s"
  "(q, w) \<noteq> (Static PEON_TYPE_RECHECK, True) \<Longrightarrow> ids_at (drop_recheck i s) q w = ids_at s q w"
proof -
  show "metas (drop_recheck i s) q = metas s q" by (simp add: drop_recheck_def metas_upd)
  show "ps_next_addr (drop_recheck i s) = ps_next_addr s" by (simp add: drop_recheck_def)
  show "ids_at (drop_recheck i s) q w = ids_at s q w" if "(q, w) \<noteq> (Static PEON_TYPE_RECHECK, True)"
    using that by (cases "ps_peons s (Static PEON_TYPE_RECHECK)")
      (auto simp: drop_recheck_def ids_at_def list_at_def wait_list_def proc_list_def)
qed

lemma move_to_connect_frame:
  "metas (peon_move_task_to_connect now t s) q = metas s q"
  "ps_next_addr (peon_move_task_to_connect now t s) = ps_next_addr s"
  "(q, w) \<noteq> (Static PEON_TYPE_CONNECT, True) \<Longrightarrow>
    ids_at (peon_move_task_to_connect now t s) q w = ids_at s q w"
proof -
  obtain s1 sn where g: "peon_sn_generate s = (s1, sn)" by fastforce
  then obtain n where s1: "s1 = s\<lparr>ps_sn := n\<rparr>" using sn_generate_frame by blast
  show "metas (peon_move_task_to_connect now t s) q = metas s q"
    by (simp add: peon_move_task_to_connect_def g Let_def metas_upd s1)
  show "ps_next_addr (peon_move_task_to_connect now t s) = ps_next_addr s"
    by (simp add: peon_move_task_to_connect_def g Let_def s1)
  show "ids_at (peon_move_task_to_connect now t s) q w = ids_at s q w"
    if "(q, w) \<noteq> (Static PEON_TYPE_CONNECT, True)"
    using that by (cases "ps_peons s (Static PEON_TYPE_CONNECT)")
      (auto simp: peon_move_task_to_connect_def g Let_def s1 ids_at_def list_at_def wait_list_def
        proc_list_def)
qed

lemma recheck_loop_frame:
  "metas (peon_recheck_loop now w ts s) q = metas s q \<and>
   ps_next_addr (peon_recheck_loop now w ts s) = ps_next_addr s \<and>
   ((q, b) \<notin> {(Static PEON_TYPE_RECHECK, True), (Static PEON_TYPE_CONNECT, True)} \<longrightarrow>
     ids_at (peon_recheck_loop now w ts s) q b = ids_at s q b)"
  by (induction ts arbitrary: s)
    (simp_all add: drop_recheck_frame move_to_connect_frame split: option.splits)

text \<open>Identifiers flow from the list \<open>(qa, True)\<close> to the list \<open>(qb, True)\<close>.\<close>

lemma ids_ok_flow:
  assumes "ids_ok s" and "ps_next_addr s' = ps_next_addr s"
    and same: "\<And>q w. (q, w) \<notin> {(qa, True), (qb, True)} \<Longrightarrow> ids_at s' q w = ids_at s q w"
    and a: "set (ids_at s' qa True) \<subseteq> set (ids_at s qa True)"
    and b: "set (ids_at s' qb True) \<subseteq> set (ids_at s qb True) \<union> set (ids_at s qa True)"
    and da: "distinct (ids_at s' qa True)" and db: "distinct (ids_at s' qb True)"
    and apart: "set (ids_at s' qa True) \<inter> set (ids_at s' qb True) = {}"
  shows "ids_ok s'"
proof -
  have org: "i \<in> set (ids_at s q w) \<or> (q, w) = (qb, True) \<and> i \<in> set (ids_at s qa True)"
    if "i \<in> set (ids_at s' q w)" for i q w
    using that a b same [of q w] by (cases "(q, w) \<in> {(qa, True), (qb, True)}") auto
  have inb: "q = qb \<and> w" if "i \<in> set (ids_at s' qb True)" "i \<in> set (ids_at s' q w)" for i q w
  proof (rule ccontr)
    assume n: "\<not> (q = qb \<and> w)"
    with org [OF that(2)] have iq: "i \<in> set (ids_at s q w)" by auto
    from org [OF that(1)] show False
    proof
      assume "i \<in> set (ids_at s qb True)"
      with ids_okD(2) [OF assms(1) iq] n show False by auto
    next
      assume "(qb, True) = (qb, True) \<and> i \<in> set (ids_at s qa True)"
      with ids_okD(2) [OF assms(1) iq] have "q = qa \<and> w" by auto
      with that apart show False by auto
    qed
  qed
  have uniq: "q = q' \<and> w = w'" if "i \<in> set (ids_at s' q w)" "i \<in> set (ids_at s' q' w')" for i q w q' w'
  proof (cases "i \<in> set (ids_at s' qb True)")
    case True
    from inb [OF True that(1)] inb [OF True that(2)] show ?thesis by simp
  next
    case False
    with that have "\<not> (q = qb \<and> w)" "\<not> (q' = qb \<and> w')" by auto
    with org [OF that(1)] org [OF that(2)] have "i \<in> set (ids_at s q w)" "i \<in> set (ids_at s q' w')"
      by auto
    from ids_okD(2) [OF assms(1) this] show ?thesis .
  qed
  have dist: "distinct (ids_at s' q w)" for q w
    using same [of q w] da db ids_okD(1) [OF assms(1), of q w]
    by (cases "(q, w) \<in> {(qa, True), (qb, True)}") auto
  have less: "i < ps_next_addr s'" if "i \<in> set (ids_at s' q w)" for i q w
    using org [OF that] ids_okD(3) [OF assms(1)] assms(2) by auto
  show ?thesis unfolding ids_ok_def using uniq dist less by blast
qed

lemma filter_relived_ids:
  "list_all2 (relived now) ts new \<Longrightarrow> map pt_id new = map pt_id ts"
  by (induction rule: list_all2_induct) (simp_all add: relived_def)

lemma run_recheck_ids:
  assumes "ids_ok s" and "peons_ok s" and "s' = peon_run_recheck now w s"
  shows "ids_at s' (Static PEON_TYPE_RECHECK) True =
      map pt_id (filter (stays_connected w) (wait_list (Static PEON_TYPE_RECHECK) s))"
    and "ids_at s' (Static PEON_TYPE_CONNECT) True = ids_at s (Static PEON_TYPE_CONNECT) True @
      map pt_id (filter (relives w) (wait_list (Static PEON_TYPE_RECHECK) s))"
proof -
  let ?R = "Static PEON_TYPE_RECHECK" and ?C = "Static PEON_TYPE_CONNECT"
  have c: "ps_peons s ?C \<noteq> None" using peons_okD(1) [OF assms(2)] by blast
  have d: "distinct (map pt_id (wait_list ?R s))"
    using ids_okD(1) [OF assms(1), of ?R True] by (simp add: ids_at_def)
  have f: "filter (\<lambda>t. pt_id t \<notin> pt_id ` {u \<in> set (wait_list ?R s). \<not> stays_connected w u})
      (wait_list ?R s) = filter (stays_connected w) (wait_list ?R s)"
    using same_waiting [OF d] by (intro filter_cong) auto
  from recheck_loop_spec [OF c d, of now w] obtain new where
    w1: "wait_list ?R s' = filter (stays_connected w) (wait_list ?R s)" and
    w2: "wait_list ?C s' = wait_list ?C s @ new" and
    new: "list_all2 (relived now) (filter (relives w) (wait_list ?R s)) new"
    unfolding f assms(3) peon_run_recheck_def by blast
  show "ids_at s' ?R True = map pt_id (filter (stays_connected w) (wait_list ?R s))"
    by (simp add: ids_at_def w1)
  show "ids_at s' ?C True = ids_at s ?C True @ map pt_id (filter (relives w) (wait_list ?R s))"
    by (simp add: ids_at_def w2 filter_relived_ids [OF new])
qed

lemma peon_run_recheck_inv:
  assumes "ids_ok s" and "peons_ok s" and "s' = peon_run_recheck now w s"
  shows "ids_ok s' \<and> peons_ok s' \<and> (\<forall>q. ids_at s' q False = ids_at s q False)"
proof -
  let ?R = "Static PEON_TYPE_RECHECK" and ?C = "Static PEON_TYPE_CONNECT"
  let ?W = "wait_list ?R s"
  note R = run_recheck_ids(1) [OF assms] and C = run_recheck_ids(2) [OF assms]
  have fr: "metas s' q = metas s q" "ps_next_addr s' = ps_next_addr s"
    "(q, b) \<notin> {(?R, True), (?C, True)} \<Longrightarrow> ids_at s' q b = ids_at s q b" for q b
    using recheck_loop_frame [of now w ?W s q b] unfolding assms(3) peon_run_recheck_def
    by simp_all
  have d: "distinct (map pt_id ?W)"
    using ids_okD(1) [OF assms(1), of ?R True] by (simp add: ids_at_def)
  then have dP: "distinct (map pt_id (filter P ?W))" for P by (simp add: distinct_map_filter)
  have old: "set (map pt_id (filter P ?W)) \<subseteq> set (ids_at s ?R True)" for P
    by (auto simp: ids_at_def)
  have CR: "set (ids_at s ?C True) \<inter> set (ids_at s ?R True) = {}"
  proof (rule ccontr)
    assume "\<not> ?thesis"
    then obtain i where "i \<in> set (ids_at s ?C True)" "i \<in> set (ids_at s ?R True)" by blast
    from ids_okD(2) [OF assms(1) this] show False by simp
  qed
  have split: "set (map pt_id (filter (stays_connected w) ?W)) \<inter>
      set (map pt_id (filter (relives w) ?W)) = {}"
  proof -
    have "pt_id t \<noteq> pt_id u" if "t \<in> set ?W" "u \<in> set ?W" "stays_connected w t" "relives w u" for t u
    proof
      assume "pt_id t = pt_id u"
      from same_waiting [OF d that(1,2) this] that(3,4) show False
        by (simp add: stays_connected_def relives_def)
    qed
    then show ?thesis unfolding set_map set_filter by blast
  qed
  have "ids_ok s'"
  proof (rule ids_ok_flow [OF assms(1) fr(2), of ?R ?C])
    show "set (ids_at s' ?R True) \<subseteq> set (ids_at s ?R True)" unfolding R by (rule old)
    show "set (ids_at s' ?C True) \<subseteq> set (ids_at s ?C True) \<union> set (ids_at s ?R True)"
      unfolding C using old [of "relives w"] by auto
    show "distinct (ids_at s' ?R True)" unfolding R by (rule dP)
    show "distinct (ids_at s' ?C True)"
      using ids_okD(1) [OF assms(1), of ?C True] dP [of "relives w"] CR old [of "relives w"]
      unfolding C distinct_append by blast
    show "set (ids_at s' ?R True) \<inter> set (ids_at s' ?C True) = {}"
      using split CR old [of "stays_connected w"] unfolding R C set_append by blast
  qed (rule fr(3))
  moreover have "peons_ok s'" by (rule peons_ok_cong [OF assms(2)]) (simp_all add: fr)
  moreover have "ids_at s' q False = ids_at s q False" for q using fr(3) [of q False] by simp
  ultimately show ?thesis by blast
qed

text \<open>The end of a dynamic peon, and the restrain time.\<close>

lemma peon_dyn_exit_inv:
  assumes "ids_ok s" and "peons_ok s" and "s' = peon_dyn_exit d s"
  shows "ids_ok s' \<and> peons_ok s' \<and>
    (\<forall>q. ids_at s' q False = (if q = Dyn d then [] else ids_at s q False))"
proof -
  have ids: "ids_at s' q w = (if q = Dyn d then [] else ids_at s q w)" for q w
    by (simp add: assms(3) peon_dyn_exit_def ids_at_def list_at_def wait_list_def proc_list_def)
  have addr: "ps_next_addr s' = ps_next_addr s" by (simp add: assms(3) peon_dyn_exit_def)
  have "ids_ok s'"
    by (rule ids_ok_shrink [OF assms(1)]) (simp_all add: addr ids ids_okD(1) [OF assms(1)])
  moreover have "peons_ok s'"
    using assms(2) unfolding peons_ok_def assms(3) peon_dyn_exit_def by auto
  ultimately show ?thesis using ids by simp
qed

lemma set_restrain_inv:
  assumes "ids_ok s" and "peons_ok s" and "s' = peon_set_disconn_restrain_time rt s"
  shows "ids_ok s' \<and> peons_ok s' \<and> (\<forall>q. ids_at s' q False = ids_at s q False)"
proof -
  obtain c d where "ps_peons s (Static PEON_TYPE_CONNECT) = Some c"
    "ps_peons s (Static PEON_TYPE_DISCONN) = Some d"
    using peons_okD(1) [OF assms(2)] by metis
  then have ids: "ids_at s' q w = ids_at s q w" for q w
    by (simp add: assms(3) peon_set_disconn_restrain_time_def ids_at_def list_at_def wait_list_def
        proc_list_def)
  have addr: "ps_next_addr s' = ps_next_addr s"
    by (simp add: assms(3) peon_set_disconn_restrain_time_def)
  have "ids_ok s'"
    by (rule ids_ok_shrink [OF assms(1)]) (simp_all add: addr ids ids_okD(1) [OF assms(1)])
  moreover have "peons_ok s'"
    by (rule peons_ok_cong [OF assms(2)])
      (simp_all add: assms(3) peon_set_disconn_restrain_time_def metas_upd)
  ultimately show ?thesis using ids by simp
qed

lemma number_inv:
  assumes "ids_ok s" and "peons_ok s" and "peon_sn_generate s = (s', sn)"
  shows "ids_ok s' \<and> peons_ok s' \<and> (\<forall>q. ids_at s' q False = ids_at s q False)"
proof -
  obtain n where s': "s' = s\<lparr>ps_sn := n\<rparr>" using sn_generate_frame [OF assms(3)] by blast
  have "ids_ok s'"
    by (rule ids_ok_shrink [OF assms(1)]) (simp_all add: s' ids_okD(1) [OF assms(1)])
  moreover have "peons_ok s'" by (rule peons_ok_cong [OF assms(2)]) (simp_all add: s')
  ultimately show ?thesis by (simp add: s')
qed

section \<open>The invariant holds in every reachable state\<close>

lemma peon_invD:
  assumes "peon_inv st"
  shows "ids_ok (pr_sys st)" and "peons_ok (pr_sys st)"
    and "set (ids_at (pr_sys st) r False) = {i. (r, i) \<in> pr_busy st}"
    and "length (ids_at (pr_sys st) (Static ty) False) \<le> we_num (peon_worker_envs ty)"
    and "ids_at (pr_sys st) (Static PEON_TYPE_RECHECK) False = []"
  using assms by (auto simp: peon_inv_def)

text \<open>A step that leaves the processing lists and the busy set alone.\<close>

lemma peon_inv_same:
  assumes "peon_inv st" and "ids_ok s' \<and> peons_ok s' \<and> (\<forall>q. ids_at s' q False = ids_at (pr_sys st) q False)"
  shows "peon_inv (st\<lparr>pr_sys := s'\<rparr>)"
  using assms by (simp add: peon_inv_def)

lemma peon_inv_poll:
  assumes "peon_inv st" and "r \<noteq> Static PEON_TYPE_RECHECK" and "ps_peons (pr_sys st) r \<noteq> None"
    and "\<And>ty. r = Static ty \<Longrightarrow> card {i. (r, i) \<in> pr_busy st} < we_num (peon_worker_envs ty)"
    and "peon_task_get now r (pr_sys st) = (s', res)"
  shows "peon_inv (st\<lparr>pr_sys := s', pr_busy := started r res \<union> pr_busy st\<rparr>)"
proof -
  note inv = peon_invD [OF assms(1)]
  note get = peon_task_get_inv [OF assms(5,3) inv(1,2)]
  have len: "length (ids_at (pr_sys st) r False) = card {i. (r, i) \<in> pr_busy st}"
    using distinct_card [OF ids_okD(1) [OF inv(1)], of r False] inv(3) by simp
  have "length (ids_at s' (Static ty) False) \<le> we_num (peon_worker_envs ty)" for ty
    using get inv(4) [of ty] assms(4) [of ty] len by (auto split: option.splits)
  moreover have "set (ids_at s' q False) = {i. (q, i) \<in> started r res \<union> pr_busy st}" for q
    using get inv(3) [of q] by (auto simp: started_def split: option.splits)
  moreover have "ids_at s' (Static PEON_TYPE_RECHECK) False = []"
    using get inv(5) assms(2) by simp
  ultimately show ?thesis using get by (simp add: peon_inv_def)
qed

lemma peon_inv_polled: "peon_inv (st\<lparr>pr_polled := p\<rparr>) = peon_inv st"
  by (simp add: peon_inv_def)

lemma peon_inv_complete:
  assumes "peon_inv st" and "(r, i) \<in> pr_busy st"
  shows "peon_inv (st\<lparr>pr_sys := peon_task_complete now r i ctx ret (pr_sys st),
    pr_busy := pr_busy st - {(r, i)}\<rparr>)"
proof -
  note inv = peon_invD [OF assms(1)]
  have i: "i \<in> set (ids_at (pr_sys st) r False)" using inv(3) assms(2) by simp
  then have r: "r \<noteq> Static PEON_TYPE_RECHECK" using inv(5) by auto
  let ?s = "peon_task_complete now r i ctx ret (pr_sys st)"
  note c = peon_task_complete_inv [OF inv(1,2) i r refl, of now ctx ret]
  have "length (ids_at ?s (Static ty) False) \<le> we_num (peon_worker_envs ty)" for ty
    using c inv(4) [of ty] length_filter_le order_trans by (metis (no_types, lifting))
  moreover have "set (ids_at ?s q False) = {j. (q, j) \<in> pr_busy st - {(r, i)}}" for q
    using c inv(3) [of q] inv(3) [of r] by auto
  moreover have "ids_at ?s (Static PEON_TYPE_RECHECK) False = []" using c inv(5) r by simp
  ultimately show ?thesis using c by (simp add: peon_inv_def)
qed

lemma peon_inv_exit:
  assumes "peon_inv st" and "{i. (Dyn d, i) \<in> pr_busy st} = {}"
  shows "peon_inv (st\<lparr>pr_sys := peon_dyn_exit d (pr_sys st)\<rparr>)"
proof (rule peon_inv_same [OF assms(1)])
  note inv = peon_invD [OF assms(1)]
  have "ids_at (pr_sys st) (Dyn d) False = []" using inv(3) [of "Dyn d"] assms(2) by simp
  with peon_dyn_exit_inv [OF inv(1,2) refl, of d]
  show "ids_ok (peon_dyn_exit d (pr_sys st)) \<and> peons_ok (peon_dyn_exit d (pr_sys st)) \<and>
    (\<forall>q. ids_at (peon_dyn_exit d (pr_sys st)) q False = ids_at (pr_sys st) q False)" by simp
qed

lemma peon_inv_step:
  assumes "peon_inv st" and "peon_step st st'"
  shows "peon_inv st'"
  using assms(2)
proof (cases rule: peon_step_cases)
  case (Number s' sn)
  show ?thesis
    unfolding Number(1) by (rule peon_inv_same [OF assms(1) number_inv [OF peon_invD(1,2) [OF assms(1)] Number(2)]])
next
  case (Queue ty env sn param tb s' res)
  show ?thesis
    unfolding Queue(1)
    by (rule peon_inv_same [OF assms(1) peon_task_add_inv [OF Queue(3) peon_invD(1,2) [OF assms(1)]]])
next
  case (Poll ty now s' res)
  obtain pe where pe: "ps_peons (pr_sys st) (Static ty) = Some pe"
    "pe_worker_num pe = we_num (peon_worker_envs ty)"
    using peon_invD(2) [OF assms(1)] unfolding peons_ok_def by blast
  show ?thesis
    unfolding Poll(1)
    by (rule peon_inv_poll [OF assms(1) _ _ _ Poll(3)])
      (use Poll(2) pe in \<open>auto simp: free_worker_def\<close>)
next
  case (Poll_dyn d now s' res)
  have "peon_inv (st\<lparr>pr_sys := s', pr_busy := started (Dyn d) res \<union> pr_busy st\<rparr>)"
    by (rule peon_inv_poll [OF assms(1) _ _ _ Poll_dyn(3)]) (use Poll_dyn(4) in simp_all)
  then show ?thesis unfolding Poll_dyn(1) by (simp add: peon_inv_def)
next
  case (Complete r i now ctx ret)
  show ?thesis unfolding Complete(1) by (rule peon_inv_complete [OF assms(1) Complete(2)])
next
  case (Recheck now w)
  show ?thesis
    unfolding Recheck
    by (rule peon_inv_same [OF assms(1) peon_run_recheck_inv [OF peon_invD(1,2) [OF assms(1)] refl]])
next
  case (Exit_dyn d)
  show ?thesis unfolding Exit_dyn(1) by (rule peon_inv_exit [OF assms(1)]) (use Exit_dyn in simp)
next
  case (Set_restrain rt)
  show ?thesis
    unfolding Set_restrain
    by (rule peon_inv_same [OF assms(1) set_restrain_inv [OF peon_invD(1,2) [OF assms(1)] refl]])
qed

lemma peon_inv_start:
  assumes "peon_start st"
  shows "peon_inv st"
proof -
  from assms obtain rt s0 where i: "peon_init built_peon rt s0 = Inr (pr_sys st)"
    and b: "pr_busy st = {}" by (auto simp: peon_start_def)
  have built: "built_peon ty = Some \<lparr>pe_type = PEON_TYPE_CONNECT, pe_dynamic = False,
      pe_wait_list = [], pe_proc_list = [], pe_restrain_time = 0,
      pe_normal_period = we_normal_period (peon_worker_envs ty),
      pe_fast_period = we_fast_period (peon_worker_envs ty),
      pe_worker_num = we_num (peon_worker_envs ty), pe_worker_all_count = 0\<rparr>" for ty
    by (simp add: built_peon_def peon_construct_def list_all_iff)
  let ?s0 = "s0\<lparr>ps_sn := 0, ps_peons := (\<lambda>r. case r of
      Static ty \<Rightarrow> map_option (\<lambda>pe. pe\<lparr>pe_type := ty\<rparr>) (built_peon ty) | Dyn _ \<Rightarrow> None)\<rparr>"
  have s: "pr_sys st = peon_set_disconn_restrain_time (word_of_int rt) ?s0"
    using i by (simp add: peon_init_def built list_all_iff peon_types_def split: if_splits)
  have ids: "ids_at ?s0 q w = []" for q w
    by (cases q) (simp_all add: built ids_at_def list_at_def wait_list_def proc_list_def)
  have ok: "ids_ok ?s0" by (simp add: ids_ok_def ids)
  have pk: "peons_ok ?s0"
    unfolding peons_ok_def by (auto simp: built split: peon_ref.splits)
  from set_restrain_inv [OF ok pk s] ids b show ?thesis
    by (simp add: peon_inv_def)
qed

interpretation peons: inv_system peon_start peon_step peon_inv
  by unfold_locales (auto intro: peon_inv_start peon_inv_step)

text \<open>A run with one request, for the witnesses.\<close>

definition started_run :: "(unit, unit) peon_run" where
  "started_run = \<lparr>pr_sys = (case peon_init built_peon 0 (sample_sys []) of Inr s \<Rightarrow> s | Inl e \<Rightarrow> sample_sys []),
    pr_busy = {}, pr_polled = {}\<rparr>"

lemma started_run_start: "peon_start started_run"
proof -
  have b: "built_peon ty \<noteq> (None :: (unit, unit) peon option)" for ty
    by (simp add: built_peon_def peon_construct_def list_all_iff)
  show ?thesis
    unfolding peon_start_def started_run_def
    by (auto simp: peon_init_def peon_types_def b intro!: exI [of _ 0] exI [of _ "sample_sys []"])
qed





text \<open>
  A static peon never runs more tasks than it has workers; in particular connects run one at
  a time and rechecking runs none.
\<close>

theorem peon_concurrency_bound:
  assumes "peon_start st0" and "peon_step\<^sup>*\<^sup>* st0 st"
  shows "length (proc_list (Static ty) (pr_sys st)) \<le> we_num (peon_worker_envs ty) \<and>
    length (proc_list (Static PEON_TYPE_CONNECT) (pr_sys st)) \<le> 1 \<and>
    proc_list (Static PEON_TYPE_RECHECK) (pr_sys st) = []"
proof -
  note inv = peons.inv_reachable [OF assms]
  from peon_invD(4) [OF inv, of ty] peon_invD(4) [OF inv, of PEON_TYPE_CONNECT] peon_invD(5) [OF inv]
  show ?thesis by (simp add: ids_at_def peon_worker_envs_def)
qed

theorem peon_concurrency_bound_witness:
  "length (proc_list (Static PEON_TYPE_DISCONN) (pr_sys started_run)) \<le> 16"
  using peon_concurrency_bound [OF started_run_start rtranclp.rtrancl_refl, of PEON_TYPE_DISCONN]
  by (simp add: peon_worker_envs_def)

end
