(* ===== verification/Snsd_Peon_Life.thy ===== *)
theory Snsd_Peon_Life
  imports Snsd_Peon
begin

text \<open>
  The threads of a static peon (\<open>src/snsd_conn_peon.c\<close>) and the wait queues they sleep on
  (\<open>src/snsd_waitq.h\<close>), from \<open>peon_construct\<close> to \<open>peon_deconstruct\<close>.  The owner of the peon starts the
  workers one by one, other threads wake them when they queue a task, and in the end the owner stops
  and joins them.  A worker tests its flag without a lock, so the test and the wait are two steps.
\<close>

section \<open>Wait queues\<close>

definition WAITQ_MAGIC :: u64 where
  "WAITQ_MAGIC = 0xDEAD88888888DEAD"

record waitq =
  wq_magic :: u64
  wq_ref :: int

text \<open>
  The operations; None is a \<open>BUG_ON\<close> that holds, which kills the process.  A wait is entered and left under
  the mutex, so it is two steps.  Destroying the mutex or the condition of a queue on which a thread
  waits gives an error.
\<close>

definition waitq_init :: waitq where
  "waitq_init = \<lparr>wq_magic = WAITQ_MAGIC, wq_ref = 0\<rparr>"

definition waitq_enter :: "waitq \<Rightarrow> waitq option" where
  "waitq_enter wq = (if wq_magic wq \<noteq> WAITQ_MAGIC then None else Some (wq\<lparr>wq_ref := wq_ref wq + 1\<rparr>))"

definition waitq_leave :: "waitq \<Rightarrow> waitq option" where
  "waitq_leave wq = Some (wq\<lparr>wq_ref := wq_ref wq - 1\<rparr>)"

definition waitq_wakeup :: "waitq \<Rightarrow> waitq option" where
  "waitq_wakeup wq = (if wq_magic wq \<noteq> WAITQ_MAGIC then None else Some wq)"

definition waitq_destroy :: "waitq \<Rightarrow> waitq option" where
  "waitq_destroy wq =
    (if wq_magic wq \<noteq> WAITQ_MAGIC then None
     else if wq_ref wq \<noteq> 0 then None
     else Some (wq\<lparr>wq_magic := 0\<rparr>))"

section \<open>Workers and their owner\<close>

datatype worker_at = Unborn | Testing | Entering | Waiting | Checking | Working | Exited

text \<open>\<open>wk_signal\<close>: the wait in progress has been woken up.\<close>

record peon_worker =
  wk_stoped :: bool
  wk_waitq :: waitq
  wk_at :: worker_at
  wk_signal :: bool

datatype owner_at =
    Init_worker nat | Start_worker nat | Constructed
  | Stop_worker nat | Wake_worker nat | Join_worker nat | Freed

record peon_life =
  lf_workers :: "peon_worker list"
  lf_worker_num :: nat
  lf_at :: owner_at
  lf_bug :: bool

definition zero_worker :: peon_worker where
  "zero_worker = \<lparr>wk_stoped = False, wk_waitq = \<lparr>wq_magic = 0, wq_ref = 0\<rparr>, wk_at = Unborn, wk_signal = False\<rparr>"

definition upd_worker :: "nat \<Rightarrow> (peon_worker \<Rightarrow> peon_worker) \<Rightarrow> peon_life \<Rightarrow> peon_life" where
  "upd_worker i f r = r\<lparr>lf_workers := (lf_workers r)[i := f (lf_workers r ! i)]\<rparr>"

text \<open>An operation on the wait queue of a worker, which may be the last one of the process.\<close>

definition on_waitq :: "nat \<Rightarrow> (waitq \<Rightarrow> waitq option) \<Rightarrow> peon_life \<Rightarrow> peon_life" where
  "on_waitq i oper r =
    (case oper (wk_waitq (lf_workers r ! i)) of
       None \<Rightarrow> r\<lparr>lf_bug := True\<rparr>
     | Some wq \<Rightarrow> upd_worker i (\<lambda>w. w\<lparr>wk_waitq := wq\<rparr>) r)"

text \<open>\<open>waitq_wakeup\<close> on worker \<open>i\<close>: a broadcast reaches the thread that waits at that moment, if one does.\<close>

definition wake :: "nat \<Rightarrow> peon_life \<Rightarrow> peon_life" where
  "wake i r = upd_worker i (\<lambda>w. w\<lparr>wk_signal := wk_signal w \<or> wk_at w = Waiting\<rparr>) (on_waitq i waitq_wakeup r)"

abbreviation worker_is :: "peon_life \<Rightarrow> nat \<Rightarrow> worker_at \<Rightarrow> bool" where
  "worker_is r i a \<equiv> i < length (lf_workers r) \<and> wk_at (lf_workers r ! i) = a"

abbreviation move_to :: "nat \<Rightarrow> worker_at \<Rightarrow> peon_life \<Rightarrow> peon_life" where
  "move_to i a r \<equiv> upd_worker i (\<lambda>w. w\<lparr>wk_at := a, wk_signal := False\<rparr>) r"

text \<open>
  \<open>peon_worker_thread\<close>.  The wait ends when it is woken up or, at any time, when its period is over; what
  it does with its tasks is the subject of \<open>Snsd_Peon_Steps\<close>.
\<close>

inductive peon_worker_thread :: "nat \<Rightarrow> peon_life \<Rightarrow> peon_life \<Rightarrow> bool" for i where
  leaves: "worker_is r i Testing \<Longrightarrow> wk_stoped (lf_workers r ! i) \<Longrightarrow>
    peon_worker_thread i r (move_to i Exited r)"
| stays: "worker_is r i Testing \<Longrightarrow> \<not> wk_stoped (lf_workers r ! i) \<Longrightarrow>
    peon_worker_thread i r (move_to i Entering r)"
| enter: "worker_is r i Entering \<Longrightarrow>
    peon_worker_thread i r (move_to i Waiting (on_waitq i waitq_enter r))"
| leave: "worker_is r i Waiting \<Longrightarrow> wk_signal (lf_workers r ! i) \<or> timed_out \<Longrightarrow>
    peon_worker_thread i r (move_to i Checking (on_waitq i waitq_leave r))"
| breaks: "worker_is r i Checking \<Longrightarrow> wk_stoped (lf_workers r ! i) \<Longrightarrow>
    peon_worker_thread i r (move_to i Exited r)"
| works: "worker_is r i Checking \<Longrightarrow> \<not> wk_stoped (lf_workers r ! i) \<Longrightarrow>
    peon_worker_thread i r (move_to i Working r)"
| round: "worker_is r i Working \<Longrightarrow> peon_worker_thread i r (move_to i Testing r)"

text \<open>The loop of \<open>peon_construct\<close>, for the workers; a thread that cannot be created ends it.\<close>

inductive construct_step :: "peon_life \<Rightarrow> peon_life \<Rightarrow> bool" where
  init: "lf_at r = Init_worker i \<Longrightarrow> i < length (lf_workers r) \<Longrightarrow>
    construct_step r (upd_worker i (\<lambda>w. w\<lparr>wk_stoped := False, wk_waitq := waitq_init\<rparr>)
      (r\<lparr>lf_at := Start_worker i\<rparr>))"
| start: "lf_at r = Start_worker i \<Longrightarrow> created \<Longrightarrow>
    construct_step r (move_to i Testing
      (r\<lparr>lf_worker_num := lf_worker_num r + 1, lf_at := Init_worker (Suc i)\<rparr>))"
| start_fails: "lf_at r = Start_worker i \<Longrightarrow> \<not> created \<Longrightarrow>
    construct_step r (r\<lparr>lf_at := Stop_worker 0\<rparr>)"
| all_started: "lf_at r = Init_worker i \<Longrightarrow> \<not> i < length (lf_workers r) \<Longrightarrow>
    construct_step r (r\<lparr>lf_at := Constructed\<rparr>)"

text \<open>
  \<open>peon_deconstruct\<close>: set the flags and wake the workers up, then join each and destroy its queue, and
  free the peon.
\<close>

inductive peon_deconstruct :: "peon_life \<Rightarrow> peon_life \<Rightarrow> bool" where
  begin_stop: "lf_at r = Constructed \<Longrightarrow> peon_deconstruct r (r\<lparr>lf_at := Stop_worker 0\<rparr>)"
| stop: "lf_at r = Stop_worker i \<Longrightarrow> i < lf_worker_num r \<Longrightarrow>
    peon_deconstruct r (upd_worker i (\<lambda>w. w\<lparr>wk_stoped := True\<rparr>) (r\<lparr>lf_at := Wake_worker i\<rparr>))"
| wake: "lf_at r = Wake_worker i \<Longrightarrow> peon_deconstruct r (wake i (r\<lparr>lf_at := Stop_worker (Suc i)\<rparr>))"
| stopped: "lf_at r = Stop_worker i \<Longrightarrow> \<not> i < lf_worker_num r \<Longrightarrow>
    peon_deconstruct r (r\<lparr>lf_at := Join_worker 0\<rparr>)"
| join: "lf_at r = Join_worker i \<Longrightarrow> i < lf_worker_num r \<Longrightarrow> wk_at (lf_workers r ! i) = Exited \<Longrightarrow>
    peon_deconstruct r (on_waitq i waitq_destroy (r\<lparr>lf_at := Join_worker (Suc i)\<rparr>))"
| free: "lf_at r = Join_worker i \<Longrightarrow> \<not> i < lf_worker_num r \<Longrightarrow>
    peon_deconstruct r (r\<lparr>lf_at := Freed\<rparr>)"

text \<open>The end of \<open>peon_task_add\<close>: whoever queues a task wakes the workers up, while the peon exists.\<close>

inductive wake_workers :: "peon_life \<Rightarrow> peon_life \<Rightarrow> bool" where
  wake: "lf_at r = Constructed \<Longrightarrow> i < lf_worker_num r \<Longrightarrow> wake_workers r (wake i r)"

definition life_step :: "peon_life \<Rightarrow> peon_life \<Rightarrow> bool" where
  "life_step r t \<longleftrightarrow> \<not> lf_bug r \<and>
    ((\<exists>i. peon_worker_thread i r t) \<or> construct_step r t \<or> peon_deconstruct r t \<or> wake_workers r t)"

text \<open>\<open>calloc\<close> has cleared the peon.\<close>

definition zero_life :: "peon_type \<Rightarrow> peon_life" where
  "zero_life ty = \<lparr>lf_workers = replicate (we_num (peon_worker_envs ty)) zero_worker,
    lf_worker_num = 0, lf_at = Init_worker 0, lf_bug = False\<rparr>"

definition life_start :: "peon_life \<Rightarrow> bool" where
  "life_start r \<longleftrightarrow> (\<exists>ty. r = zero_life ty)"

section \<open>The invariant\<close>

text \<open>How far the owner is: the workers created, stopped, and destroyed.\<close>

definition stopped_below :: "peon_life \<Rightarrow> nat" where
  "stopped_below r = (case lf_at r of Stop_worker i \<Rightarrow> i | Wake_worker i \<Rightarrow> Suc i
    | Join_worker i \<Rightarrow> lf_worker_num r | Freed \<Rightarrow> lf_worker_num r | _ \<Rightarrow> 0)"

definition joined_below :: "peon_life \<Rightarrow> nat" where
  "joined_below r = (case lf_at r of Join_worker i \<Rightarrow> i | Freed \<Rightarrow> lf_worker_num r | _ \<Rightarrow> 0)"

text \<open>A worker that was created: its queue counts its wait, until its owner has joined it.\<close>

definition worker_ok :: "bool \<Rightarrow> bool \<Rightarrow> peon_worker \<Rightarrow> bool" where
  "worker_ok stopped joined w \<longleftrightarrow> wk_at w \<noteq> Unborn \<and> (stopped \<longrightarrow> wk_stoped w) \<and>
    wq_ref (wk_waitq w) = (if wk_at w = Waiting then 1 else 0) \<and>
    (if joined then wk_at w = Exited else wq_magic (wk_waitq w) = WAITQ_MAGIC)"

definition owner_ok :: "peon_life \<Rightarrow> bool" where
  "owner_ok r \<longleftrightarrow> (let n = length (lf_workers r); k = lf_worker_num r in
    case lf_at r of
      Init_worker i \<Rightarrow> k = i \<and> i \<le> n
    | Start_worker i \<Rightarrow> k = i \<and> i < n \<and> wk_waitq (lf_workers r ! i) = waitq_init
    | Constructed \<Rightarrow> k \<le> n
    | Stop_worker i \<Rightarrow> i \<le> k \<and> k \<le> n
    | Wake_worker i \<Rightarrow> i < k \<and> k \<le> n
    | Join_worker i \<Rightarrow> i \<le> k \<and> k \<le> n
    | Freed \<Rightarrow> k \<le> n)"

definition life_inv :: "peon_life \<Rightarrow> bool" where
  "life_inv r \<longleftrightarrow> \<not> lf_bug r \<and> owner_ok r \<and>
    (\<forall>i < length (lf_workers r). lf_worker_num r \<le> i \<longrightarrow> wk_at (lf_workers r ! i) = Unborn) \<and>
    (\<forall>i < lf_worker_num r. worker_ok (i < stopped_below r) (i < joined_below r) (lf_workers r ! i))"

lemma upd_worker_simps [simp]:
  "lf_worker_num (upd_worker i f r) = lf_worker_num r" "lf_at (upd_worker i f r) = lf_at r"
  "lf_bug (upd_worker i f r) = lf_bug r" "length (lf_workers (upd_worker i f r)) = length (lf_workers r)"
  "i < length (lf_workers r) \<Longrightarrow> lf_workers (upd_worker i f r) ! i = f (lf_workers r ! i)"
  "i \<noteq> j \<Longrightarrow> lf_workers (upd_worker i f r) ! j = lf_workers r ! j"
  by (simp_all add: upd_worker_def)

lemma upd_worker_twice:
  "upd_worker i g (upd_worker i f r) = upd_worker i (\<lambda>w. g (f w)) r"
  by (cases "i < length (lf_workers r)") (simp_all add: upd_worker_def list_update_beyond)

lemma below_upd [simp]:
  "stopped_below (upd_worker i f r) = stopped_below r" "joined_below (upd_worker i f r) = joined_below r"
  by (simp_all add: stopped_below_def joined_below_def split: owner_at.split)

lemma life_invD:
  assumes "life_inv r"
  shows "lf_worker_num r \<le> length (lf_workers r)"
    and "\<And>i. i < lf_worker_num r \<Longrightarrow> worker_ok (i < stopped_below r) (i < joined_below r) (lf_workers r ! i)"
    and "\<And>i. i < length (lf_workers r) \<Longrightarrow> wk_at (lf_workers r ! i) \<noteq> Unborn \<Longrightarrow> i < lf_worker_num r"
  using assms by (auto simp: life_inv_def owner_ok_def Let_def not_less split: owner_at.splits)

text \<open>A step of one worker, or on its queue, keeps the invariant if the worker stays well formed.\<close>

lemma life_inv_upd:
  assumes "life_inv r" and "i < lf_worker_num r"
    and "worker_ok (i < stopped_below r) (i < joined_below r) (f (lf_workers r ! i))"
  shows "life_inv (upd_worker i f r)"
proof -
  note d = life_invD [OF assms(1)]
  have i: "i < length (lf_workers r)" using d(1) assms(2) by simp
  have at: "wk_waitq (lf_workers (upd_worker i f r) ! j) = wk_waitq (lf_workers r ! j)" if "j = lf_worker_num r" for j
    using assms(2) that by simp
  have "owner_ok (upd_worker i f r)"
    using assms(1) at by (auto simp: life_inv_def owner_ok_def Let_def split: owner_at.splits)
  moreover have "worker_ok (j < stopped_below r) (j < joined_below r) (lf_workers (upd_worker i f r) ! j)"
    if "j < lf_worker_num r" for j using that d(2) assms(3) i by (cases "j = i") simp_all
  moreover have "wk_at (lf_workers (upd_worker i f r) ! j) = Unborn"
    if "j < length (lf_workers r)" "lf_worker_num r \<le> j" for j
    using that assms(1,2) by (auto simp: life_inv_def)
  ultimately show ?thesis using assms(1) by (simp add: life_inv_def)
qed

lemma on_waitq_ok:
  "oper (wk_waitq (lf_workers r ! i)) = Some wq \<Longrightarrow> on_waitq i oper r = upd_worker i (\<lambda>w. w\<lparr>wk_waitq := wq\<rparr>) r"
  by (simp add: on_waitq_def)

lemma life_inv_worker:
  assumes "peon_worker_thread i r t" and "life_inv r"
  shows "life_inv t"
proof -
  note d = life_invD [OF assms(2)]
  have w: "worker_ok (i < stopped_below r) (i < joined_below r) (lf_workers r ! i) \<and> i < lf_worker_num r"
    if "worker_is r i a" "a \<noteq> Unborn" for a using that d by auto
  show ?thesis using assms(1)
  proof cases
    case enter
    with w have ok: "worker_ok (i < stopped_below r) (i < joined_below r) (lf_workers r ! i)" "i < lf_worker_num r" by auto
    then have "on_waitq i waitq_enter r = upd_worker i (\<lambda>w. w\<lparr>wk_waitq :=
        (wk_waitq (lf_workers r ! i))\<lparr>wq_ref := wq_ref (wk_waitq (lf_workers r ! i)) + 1\<rparr>\<rparr>) r"
      using enter by (intro on_waitq_ok) (auto simp: waitq_enter_def worker_ok_def split: if_splits)
    with ok enter show ?thesis
      by (auto simp: upd_worker_twice worker_ok_def split: if_splits intro!: life_inv_upd [OF assms(2)])
  next
    case (leave timed_out)
    with w have ok: "worker_ok (i < stopped_below r) (i < joined_below r) (lf_workers r ! i)" "i < lf_worker_num r" by auto
    then have "on_waitq i waitq_leave r = upd_worker i (\<lambda>w. w\<lparr>wk_waitq :=
        (wk_waitq (lf_workers r ! i))\<lparr>wq_ref := wq_ref (wk_waitq (lf_workers r ! i)) - 1\<rparr>\<rparr>) r"
      by (intro on_waitq_ok) (simp add: waitq_leave_def)
    with ok leave show ?thesis
      by (auto simp: upd_worker_twice worker_ok_def split: if_splits intro!: life_inv_upd [OF assms(2)])
  qed (use w in \<open>fastforce simp: worker_ok_def split: if_splits intro!: life_inv_upd [OF assms(2)]\<close>)+
qed

lemma wake_ok:
  assumes "wq_magic (wk_waitq (lf_workers r ! i)) = WAITQ_MAGIC"
  shows "wake i r = upd_worker i (\<lambda>w. w\<lparr>wk_waitq := wk_waitq (lf_workers r ! i),
    wk_signal := wk_signal w \<or> wk_at w = Waiting\<rparr>) r"
  using assms by (simp add: wake_def on_waitq_ok waitq_wakeup_def upd_worker_twice)

lemma life_inv_wake:
  assumes "wake_workers r t" and "life_inv r"
  shows "life_inv t"
  using assms(1)
proof cases
  case (wake i)
  have ok: "worker_ok (i < stopped_below r) (i < joined_below r) (lf_workers r ! i)"
    using life_invD(2) [OF assms(2) wake(3)] .
  then have "wq_magic (wk_waitq (lf_workers r ! i)) = WAITQ_MAGIC"
    using wake(2) by (simp add: worker_ok_def joined_below_def split: if_splits)
  from wake_ok [OF this] wake(1,3) ok show ?thesis
    by (simp add: worker_ok_def life_inv_upd [OF assms(2)])
qed

lemmas life_inv_simps = life_inv_def owner_ok_def stopped_below_def joined_below_def Let_def

lemma life_inv_construct:
  assumes "construct_step r t" and "life_inv r"
  shows "life_inv t"
  using assms(1)
proof cases
  case (init i)
  with assms(2) show ?thesis by (auto simp: life_inv_simps upd_worker_def nth_list_update)
next
  case (start i created)
  with assms(2) show ?thesis
    by (auto simp: life_inv_simps upd_worker_def nth_list_update worker_ok_def waitq_init_def less_Suc_eq)
next
  case (start_fails i created)
  with assms(2) show ?thesis by (auto simp: life_inv_simps)
next
  case (all_started i)
  with assms(2) show ?thesis by (auto simp: life_inv_simps)
qed

lemma life_inv_deconstruct:
  assumes "peon_deconstruct r t" and "life_inv r"
  shows "life_inv t"
  using assms(1)
proof cases
  case begin_stop
  with assms(2) show ?thesis by (auto simp: life_inv_simps)
next
  case (stop i)
  with assms(2) show ?thesis
    by (auto simp: life_inv_simps upd_worker_def nth_list_update worker_ok_def less_Suc_eq)
next
  case (wake i)
  let ?r = "r\<lparr>lf_at := Stop_worker (Suc i)\<rparr>"
  have inv: "life_inv ?r" using assms(2) wake(2) by (auto simp: life_inv_simps)
  have i: "i < lf_worker_num ?r" using assms(2) wake(2) by (simp add: life_inv_simps)
  have ok: "worker_ok (i < stopped_below ?r) (i < joined_below ?r) (lf_workers ?r ! i)"
    using life_invD(2) [OF inv i] .
  then have "wq_magic (wk_waitq (lf_workers ?r ! i)) = WAITQ_MAGIC"
    by (simp add: worker_ok_def joined_below_def split: if_splits)
  from wake_ok [OF this] wake(1) ok show ?thesis by (simp add: worker_ok_def life_inv_upd [OF inv i])
next
  case stopped
  with assms(2) show ?thesis by (auto simp: life_inv_simps)
next
  case (join i)
  have ok: "worker_ok (i < stopped_below r) (i < joined_below r) (lf_workers r ! i)"
    using life_invD(2) [OF assms(2) join(3)] .
  then have "waitq_destroy (wk_waitq (lf_workers r ! i)) = Some ((wk_waitq (lf_workers r ! i))\<lparr>wq_magic := 0\<rparr>)"
    using join(2,4) by (simp add: waitq_destroy_def worker_ok_def joined_below_def)
  then have t: "t = upd_worker i (\<lambda>w. w\<lparr>wk_waitq := (wk_waitq (lf_workers r ! i))\<lparr>wq_magic := 0\<rparr>\<rparr>)
      (r\<lparr>lf_at := Join_worker (Suc i)\<rparr>)"
    unfolding join(1) by (intro on_waitq_ok) simp
  show ?thesis using assms(2) join(2-4) ok unfolding t
    by (auto simp: life_inv_simps upd_worker_def nth_list_update worker_ok_def less_Suc_eq)
next
  case (free i)
  with assms(2) show ?thesis by (auto simp: life_inv_simps worker_ok_def)
qed

lemma life_inv_start: "life_start r \<Longrightarrow> life_inv r"
  by (auto simp: life_start_def zero_life_def life_inv_simps zero_worker_def)

lemma life_inv_step: "life_inv r \<Longrightarrow> life_step r t \<Longrightarrow> life_inv t"
  unfolding life_step_def
  using life_inv_worker life_inv_construct life_inv_deconstruct life_inv_wake by blast

interpretation peon_threads: inv_system life_start life_step life_inv
  by unfold_locales (rule life_inv_start life_inv_step, assumption+)+

section \<open>What the workers' threads guarantee\<close>

lemma on_waitq_simps [simp]:
  "lf_at (on_waitq i oper r) = lf_at r" "lf_worker_num (on_waitq i oper r) = lf_worker_num r"
  "length (lf_workers (on_waitq i oper r)) = length (lf_workers r)"
  "i < length (lf_workers r) \<Longrightarrow> wk_at (lf_workers (on_waitq i oper r) ! i) = wk_at (lf_workers r ! i)"
  by (simp_all add: on_waitq_def split: option.split)

text \<open>The steps of the workers and of the owner on its way to the end, alone.\<close>

definition end_step :: "peon_life \<Rightarrow> peon_life \<Rightarrow> bool" where
  "end_step r t \<longleftrightarrow> \<not> lf_bug r \<and> ((\<exists>i. peon_worker_thread i r t) \<or> peon_deconstruct r t)"

lemma end_step_life: "end_step r t \<Longrightarrow> life_step r t"
  by (auto simp: end_step_def life_step_def)

lemma life_inv_end: "life_inv r \<Longrightarrow> end_step r t \<Longrightarrow> life_inv t"
  using end_step_life life_inv_step by blast

text \<open>A worker whose flag is set reaches its end by its own steps, whatever it was doing.\<close>

lemma worker_exits:
  assumes "life_inv r" and "i < lf_worker_num r" and "i < stopped_below r"
  shows "\<exists>t. end_step\<^sup>*\<^sup>* r t \<and> life_inv t \<and> wk_at (lf_workers t ! i) = Exited \<and> lf_at t = lf_at r \<and>
    lf_worker_num t = lf_worker_num r"
proof -
  let ?goal = "\<lambda>r. \<exists>t. end_step\<^sup>*\<^sup>* r t \<and> life_inv t \<and> wk_at (lf_workers t ! i) = Exited \<and> lf_at t = lf_at r \<and>
    lf_worker_num t = lf_worker_num r"
  let ?pre = "\<lambda>r a. life_inv r \<and> i < lf_worker_num r \<and> i < stopped_below r \<and> wk_at (lf_workers r ! i) = a"
  have step: "?goal r" if "?pre r a" and "peon_worker_thread i r t"
      and "lf_at t = lf_at r \<and> lf_worker_num t = lf_worker_num r \<and> wk_at (lf_workers t ! i) = b"
      and cont: "\<And>u. ?pre u b \<Longrightarrow> ?goal u" for r t a b
  proof -
    have s: "end_step r t" using that(1,2) by (auto simp: end_step_def life_inv_def)
    then have "life_inv t" using that(1) life_inv_end by blast
    moreover have "stopped_below t = stopped_below r"
      using that(3) by (cases "lf_at r") (simp_all add: stopped_below_def)
    ultimately have "?pre t b" using that(1,3) by simp
    from cont [OF this] s that(3) show ?thesis by (metis converse_rtranclp_into_rtranclp)
  qed
  have flag: "i < length (lf_workers r) \<and> wk_stoped (lf_workers r ! i)" if "?pre r a" for r a
    using that life_invD(1,2) [of r] by (fastforce simp: worker_ok_def)
  have at_exited: "?goal r" if "?pre r Exited" for r using that by blast
  have at_testing: "?goal r" if "?pre r Testing" for r
    by (rule step [OF that leaves _ at_exited]) (use that flag [OF that] in simp_all)
  have at_checking: "?goal r" if "?pre r Checking" for r
    by (rule step [OF that breaks _ at_exited]) (use that flag [OF that] in simp_all)
  have at_waiting: "?goal r" if "?pre r Waiting" for r
    by (rule step [OF that leave [where timed_out = True] _ at_checking]) (use that flag [OF that] in simp_all)
  have at_entering: "?goal r" if "?pre r Entering" for r
    by (rule step [OF that enter _ at_waiting]) (use that flag [OF that] in simp_all)
  have at_working: "?goal r" if "?pre r Working" for r
    by (rule step [OF that round _ at_testing]) (use that flag [OF that] in simp_all)
  have "wk_at (lf_workers r ! i) \<noteq> Unborn" using life_invD(2) [OF assms(1,2)] by (simp add: worker_ok_def)
  with assms at_exited at_testing at_checking at_waiting at_entering at_working show ?thesis
    by (cases "wk_at (lf_workers r ! i)") simp_all
qed

text \<open>So the owner gets through its two loops, from wherever it is.\<close>

abbreviation comes_to_end :: "peon_life \<Rightarrow> bool" where
  "comes_to_end r \<equiv> \<exists>u. end_step\<^sup>*\<^sup>* r u \<and> lf_at u = Freed"

lemma comes_to_end_step:
  assumes "life_inv r" and "peon_deconstruct r t" and "life_inv t \<Longrightarrow> comes_to_end t"
  shows "comes_to_end r"
proof -
  have "end_step r t" using assms(1,2) by (auto simp: end_step_def life_inv_def)
  moreover from this have "life_inv t" using assms(1) life_inv_end by blast
  ultimately show ?thesis using assms(3) converse_rtranclp_into_rtranclp [of end_step r t] by blast
qed

lemma joining_ends:
  assumes "life_inv r" and "lf_at r = Join_worker i"
  shows "comes_to_end r"
  using assms
proof (induction "lf_worker_num r - i" arbitrary: r i)
  case 0
  then show ?case by (intro comes_to_end_step [OF 0(2), of "r\<lparr>lf_at := Freed\<rparr>"]) (auto intro: peon_deconstruct.free)
next
  case (Suc k)
  have i: "i < lf_worker_num r" using Suc(2) by simp
  with Suc(4) have "i < stopped_below r" by (simp add: stopped_below_def)
  from worker_exits [OF Suc(3) i this] obtain t where t: "end_step\<^sup>*\<^sup>* r t" "life_inv t"
    "wk_at (lf_workers t ! i) = Exited" "lf_at t = Join_worker i" "lf_worker_num t = lf_worker_num r"
    using Suc(4) by auto
  let ?t = "on_waitq i waitq_destroy (t\<lparr>lf_at := Join_worker (Suc i)\<rparr>)"
  have "peon_deconstruct t ?t" using t i by (intro peon_deconstruct.join) simp_all
  moreover have "comes_to_end ?t" if "life_inv ?t" using Suc(1) [of ?t "Suc i"] Suc(2) that t(5) by simp
  ultimately have "comes_to_end t" using comes_to_end_step [OF t(2)] by blast
  then show ?case using t(1) by (meson rtranclp_trans)
qed

lemma stopping_ends:
  assumes "life_inv r" and "lf_at r = Stop_worker i"
  shows "comes_to_end r"
  using assms
proof (induction "lf_worker_num r - i" arbitrary: r i)
  case 0
  then show ?case
    by (intro comes_to_end_step [OF 0(2), of "r\<lparr>lf_at := Join_worker 0\<rparr>"])
      (auto intro: peon_deconstruct.stopped joining_ends)
next
  case (Suc k)
  let ?s = "upd_worker i (\<lambda>w. w\<lparr>wk_stoped := True\<rparr>) (r\<lparr>lf_at := Wake_worker i\<rparr>)"
  let ?t = "wake i (?s\<lparr>lf_at := Stop_worker (Suc i)\<rparr>)"
  have "comes_to_end ?s" if s: "life_inv ?s"
    using Suc(2) by (intro comes_to_end_step [OF s, of ?t] Suc(1) [of ?t "Suc i"] peon_deconstruct.wake)
      (simp_all add: wake_def)
  then show ?case using Suc(2,4)
    by (intro comes_to_end_step [OF Suc(3), of ?s] peon_deconstruct.stop) simp_all
qed

lemma life_step_to_end:
  assumes "life_inv r" and "construct_step r t" and "life_inv t \<Longrightarrow> \<exists>u. life_step\<^sup>*\<^sup>* t u \<and> lf_at u = Freed"
  shows "\<exists>u. life_step\<^sup>*\<^sup>* r u \<and> lf_at u = Freed"
proof -
  have "life_step r t" using assms(1,2) by (auto simp: life_step_def life_inv_def)
  moreover from this have "life_inv t" using assms(1) life_inv_step by blast
  ultimately show ?thesis using assms(3) converse_rtranclp_into_rtranclp [of life_step r t] by blast
qed

lemma constructed_ends:
  assumes "life_inv r" and "lf_at r \<in> {Constructed, Freed} \<union> range Stop_worker \<union> range Wake_worker \<union> range Join_worker"
  shows "comes_to_end r"
proof -
  have wake: "comes_to_end r" if "lf_at r = Wake_worker i" for i
    by (rule comes_to_end_step [OF assms(1), of "wake i (r\<lparr>lf_at := Stop_worker (Suc i)\<rparr>)"])
      (use that in \<open>auto simp: wake_def intro: peon_deconstruct.wake [unfolded wake_def] stopping_ends\<close>)
  have begin_: "comes_to_end r" if "lf_at r = Constructed"
    by (rule comes_to_end_step [OF assms(1), of "r\<lparr>lf_at := Stop_worker 0\<rparr>"])
      (use that in \<open>auto intro: begin_stop stopping_ends\<close>)
  show ?thesis using assms(2) wake begin_ stopping_ends [OF assms(1)] joining_ends [OF assms(1)] by blast
qed

lemma life_reaches_end:
  assumes inv: "life_inv r"
  shows "\<exists>u. life_step\<^sup>*\<^sup>* r u \<and> lf_at u = Freed"
proof -
  have later: "\<exists>u. life_step\<^sup>*\<^sup>* r u \<and> lf_at u = Freed" if "life_inv r"
    "lf_at r \<in> {Constructed, Freed} \<union> range Stop_worker \<union> range Wake_worker \<union> range Join_worker" for r
    using constructed_ends [OF that] mono_rtranclp [of end_step life_step] end_step_life by blast
  have start: "\<exists>u. life_step\<^sup>*\<^sup>* r u \<and> lf_at u = Freed" if "life_inv r" "lf_at r = Start_worker i" for r i
    by (rule life_step_to_end [OF that(1), of "r\<lparr>lf_at := Stop_worker 0\<rparr>"])
      (use that in \<open>auto intro: start_fails later\<close>)
  show ?thesis
  proof (cases "lf_at r")
    case (Init_worker i)
    let ?s = "upd_worker i (\<lambda>w. w\<lparr>wk_stoped := False, wk_waitq := waitq_init\<rparr>) (r\<lparr>lf_at := Start_worker i\<rparr>)"
    show ?thesis
    proof (cases "i < length (lf_workers r)")
      case True
      with Init_worker show ?thesis by (intro life_step_to_end [OF inv, of ?s] init start [of ?s i]) simp_all
    next
      case False
      with Init_worker show ?thesis
        by (intro life_step_to_end [OF inv, of "r\<lparr>lf_at := Constructed\<rparr>"] all_started [of r i] later) simp_all
    qed
  qed (use inv start later in auto)
qed

section \<open>The property\<close>


text \<open>
  A peon with one worker that goes to its end while the worker, which had tested its flag, is about to
  wait.  The broadcast of \<open>peon_deconstruct\<close> is lost on it, and the join lasts until the period of the
  wait is over.
\<close>

lemma stop_wakeup_lost:
  "\<exists>r t. life_start r \<and> life_step\<^sup>*\<^sup>* r t \<and> lf_at t = Join_worker 0 \<and> worker_is t 0 Waiting \<and>
    lf_worker_num t = 1 \<and> wk_stoped (lf_workers t ! 0) \<and> \<not> wk_signal (lf_workers t ! 0)"
proof -
  let ?r = "\<lambda>st wq a n p. \<lparr>lf_workers = [\<lparr>wk_stoped = st, wk_waitq = wq, wk_at = a, wk_signal = False\<rparr>],
    lf_worker_num = n, lf_at = p, lf_bug = False\<rparr>"
  let ?a = "?r False \<lparr>wq_magic = 0, wq_ref = 0\<rparr> Unborn 0 (Init_worker 0)"
  let ?b = "?r False waitq_init Unborn 0 (Start_worker 0)"
  let ?c = "?r False waitq_init Testing 1 (Init_worker 1)"
  let ?d = "?r False waitq_init Testing 1 Constructed"
  let ?e = "?r False waitq_init Entering 1 Constructed"
  let ?f = "?r False waitq_init Entering 1 (Stop_worker 0)"
  let ?g = "?r True waitq_init Entering 1 (Wake_worker 0)"
  let ?h = "?r True waitq_init Entering 1 (Stop_worker 1)"
  let ?i = "?r True waitq_init Entering 1 (Join_worker 0)"
  let ?j = "?r True \<lparr>wq_magic = WAITQ_MAGIC, wq_ref = 1\<rparr> Waiting 1 (Join_worker 0)"
  note simps = upd_worker_def life_step_def wake_def on_waitq_def waitq_wakeup_def waitq_enter_def waitq_init_def
  have "life_step ?a ?b" using construct_step.init [of ?a 0] by (simp add: simps)
  moreover have "life_step ?b ?c" using construct_step.start [of ?b 0 True] by (simp add: simps)
  moreover have "life_step ?c ?d" using construct_step.all_started [of ?c 1] by (simp add: simps)
  moreover have "life_step ?d ?e" using peon_worker_thread.stays [of 0 ?d] by (auto simp: simps)
  moreover have "life_step ?e ?f" using peon_deconstruct.begin_stop [of ?e] by (simp add: simps)
  moreover have "life_step ?f ?g" using peon_deconstruct.stop [of ?f 0] by (simp add: simps)
  moreover have "life_step ?g ?h" using peon_deconstruct.wake [of ?g 0] by (simp add: simps)
  moreover have "life_step ?h ?i" using peon_deconstruct.stopped [of ?h 1] by (simp add: simps)
  moreover have "life_step ?i ?j" using peon_worker_thread.enter [of 0 ?i] by (auto simp: simps)
  ultimately have "life_step\<^sup>*\<^sup>* ?a ?j" by (meson converse_rtranclp_into_rtranclp rtranclp.rtrancl_refl)
  moreover have "life_start ?a"
    unfolding life_start_def by (rule exI [of _ PEON_TYPE_RECHECK])
      (simp add: zero_life_def zero_worker_def peon_worker_envs_def)
  ultimately show ?thesis by (intro exI [of _ ?a] exI [of _ ?j]) simp
qed


end
