(* ===== verification/Snsd_Peon_Exit.thy ===== *)
theory Snsd_Peon_Exit
  imports Snsd_Peon_Life
begin

text \<open>
  The end of the four static peons, \<open>peon_exit_inner\<close> of \<open>src/snsd_conn_peon.c\<close>: they are deconstructed
  one after the other while the workers of the others go on.  \<open>peon_init\<close> calls it for the peons it has
  constructed when the next one fails, \<open>peon_exit\<close> for all.
\<close>

section \<open>The array of the peons\<close>

text \<open>\<open>peons\<close>, where None is a null pointer, the argument \<open>peon_num\<close>, and the loop variable.\<close>

record peon_array =
  pa_peons :: "peon_life option list"
  pa_num :: nat
  pa_i :: nat

inductive peon_exit_inner :: "peon_array \<Rightarrow> peon_array \<Rightarrow> bool" where
  deconstruct: "pa_i s < pa_num s \<Longrightarrow> pa_peons s ! pa_i s = Some r \<Longrightarrow> peon_deconstruct r t \<Longrightarrow>
    peon_exit_inner s (s\<lparr>pa_peons := (pa_peons s)[pa_i s := Some t]\<rparr>)"
| freed: "pa_i s < pa_num s \<Longrightarrow> pa_peons s ! pa_i s = Some r \<Longrightarrow> lf_at r = Freed \<Longrightarrow>
    peon_exit_inner s (s\<lparr>pa_peons := (pa_peons s)[pa_i s := None], pa_i := Suc (pa_i s)\<rparr>)"

text \<open>Meanwhile the workers of every peon run, and may queue tasks that wake others up.\<close>

inductive peon_others :: "peon_array \<Rightarrow> peon_array \<Rightarrow> bool" where
  others: "i < length (pa_peons s) \<Longrightarrow> pa_peons s ! i = Some r \<Longrightarrow>
    (\<exists>w. peon_worker_thread w r t) \<or> wake_workers r t \<Longrightarrow>
    peon_others s (s\<lparr>pa_peons := (pa_peons s)[i := Some t]\<rparr>)"

definition exit_step :: "peon_array \<Rightarrow> peon_array \<Rightarrow> bool" where
  "exit_step s t \<longleftrightarrow> (\<forall>r. Some r \<in> set (pa_peons s) \<longrightarrow> \<not> lf_bug r) \<and> (peon_exit_inner s t \<or> peon_others s t)"

text \<open>A peon that \<open>peon_construct\<close> has returned, in any state it can be in then.\<close>

definition constructed :: "peon_type \<Rightarrow> peon_life \<Rightarrow> bool" where
  "constructed ty r \<longleftrightarrow> life_step\<^sup>*\<^sup>* (zero_life ty) r \<and> lf_at r = Constructed"

definition exit_start :: "peon_array \<Rightarrow> bool" where
  "exit_start s \<longleftrightarrow> length (pa_peons s) = length peon_types \<and> pa_num s \<le> length peon_types \<and> pa_i s = 0 \<and>
    (\<forall>i < length peon_types. if i < pa_num s then \<exists>r. pa_peons s ! i = Some r \<and> constructed (peon_types ! i) r
      else pa_peons s ! i = None)"

section \<open>The invariant\<close>

text \<open>The peons before the loop variable are gone, the one at it goes, those behind it work as ever.\<close>

definition ending :: "owner_at set" where
  "ending = {Constructed, Freed} \<union> range Stop_worker \<union> range Wake_worker \<union> range Join_worker"

definition entry_ok :: "nat \<Rightarrow> nat \<Rightarrow> nat \<Rightarrow> peon_life option \<Rightarrow> bool" where
  "entry_ok k n i p \<longleftrightarrow> (case p of
     None \<Rightarrow> i < k \<or> n \<le> i
   | Some r \<Rightarrow> k \<le> i \<and> i < n \<and> life_inv r \<and> lf_at r \<in> (if i = k then ending else {Constructed}))"

definition exit_inv :: "peon_array \<Rightarrow> bool" where
  "exit_inv s \<longleftrightarrow> pa_i s \<le> pa_num s \<and> pa_num s \<le> length (pa_peons s) \<and>
    (\<forall>i < length (pa_peons s). entry_ok (pa_i s) (pa_num s) i (pa_peons s ! i))"

lemma exit_invD:
  assumes "exit_inv s" and "i < length (pa_peons s)" and "pa_peons s ! i = Some r"
  shows "pa_i s \<le> i" "i < pa_num s" "life_inv r" "lf_at r \<in> ending" "pa_i s < i \<Longrightarrow> lf_at r = Constructed"
proof -
  have "entry_ok (pa_i s) (pa_num s) i (Some r)" using assms by (metis exit_inv_def)
  then show "pa_i s \<le> i" "i < pa_num s" "life_inv r" "lf_at r \<in> ending" "pa_i s < i \<Longrightarrow> lf_at r = Constructed"
    by (auto simp: entry_ok_def ending_def split: if_splits)
qed

lemma exit_inv_at:
  assumes "exit_inv s" and "pa_i s < pa_num s"
  shows "pa_i s < length (pa_peons s)" "\<exists>r. pa_peons s ! pa_i s = Some r"
proof -
  show len: "pa_i s < length (pa_peons s)" using assms by (simp add: exit_inv_def)
  then have "entry_ok (pa_i s) (pa_num s) (pa_i s) (pa_peons s ! pa_i s)" using assms(1) by (simp add: exit_inv_def)
  then show "\<exists>r. pa_peons s ! pa_i s = Some r" using assms(2) by (auto simp: entry_ok_def split: option.splits)
qed

lemma exit_inv_no_bug: "exit_inv s \<Longrightarrow> Some r \<in> set (pa_peons s) \<Longrightarrow> \<not> lf_bug r"
  using exit_invD(3) by (auto simp: in_set_conv_nth life_inv_def)

lemma exit_inv_upd:
  assumes "exit_inv s" and "i < length (pa_peons s)" and "pa_peons s ! i = Some r" and "life_inv t"
    and "lf_at t \<in> (if i = pa_i s then ending else {Constructed})"
  shows "exit_inv (s\<lparr>pa_peons := (pa_peons s)[i := Some t]\<rparr>)"
proof -
  have "entry_ok (pa_i s) (pa_num s) i (Some t)"
    using assms(4,5) exit_invD(1,2) [OF assms(1-3)] by (simp add: entry_ok_def)
  then show ?thesis using assms(1,2) by (auto simp: exit_inv_def nth_list_update)
qed

lemma worker_keeps_owner: "peon_worker_thread w r t \<Longrightarrow> lf_at t = lf_at r"
  by (erule peon_worker_thread.cases) simp_all

lemma wake_keeps_owner: "wake_workers r t \<Longrightarrow> lf_at t = lf_at r"
  by (erule wake_workers.cases) (simp add: wake_def)

lemma deconstruct_ending: "peon_deconstruct r t \<Longrightarrow> lf_at t \<in> ending"
  by (erule peon_deconstruct.cases) (simp_all add: wake_def ending_def)

lemma exit_inv_step:
  assumes "exit_inv s" and "exit_step s t"
  shows "exit_inv t"
  using assms(2) unfolding exit_step_def
proof (elim conjE disjE)
  assume "peon_exit_inner s t"
  then show ?thesis
  proof cases
    case (deconstruct r u)
    note len = exit_inv_at(1) [OF assms(1) deconstruct(2)]
    from exit_invD(3) [OF assms(1) len deconstruct(3)] have "life_inv u"
      using deconstruct(4) life_inv_deconstruct by blast
    then show ?thesis using deconstruct(1,3) deconstruct_ending [OF deconstruct(4)]
        exit_inv_upd [OF assms(1) len deconstruct(3)] by simp
  next
    case (freed r)
    have "entry_ok (Suc (pa_i s)) (pa_num s) i p" if "entry_ok (pa_i s) (pa_num s) i p" "i \<noteq> pa_i s" for i p
      using that by (auto simp: entry_ok_def ending_def split: option.splits)
    moreover have "entry_ok (Suc (pa_i s)) (pa_num s) (pa_i s) None" by (simp add: entry_ok_def)
    ultimately show ?thesis using assms(1) freed(1,2) by (simp add: exit_inv_def nth_list_update)
  qed
next
  assume "peon_others s t"
  then show ?thesis
  proof cases
    case (others i r u)
    note d = exit_invD [OF assms(1) others(2,3)]
    have "lf_at u = lf_at r" using others(4) worker_keeps_owner wake_keeps_owner by blast
    moreover have "life_inv u" using others(4) d(3) life_inv_worker life_inv_wake by blast
    ultimately show ?thesis unfolding others(1)
      using d by (intro exit_inv_upd [OF assms(1) others(2,3)]) auto
  qed
qed

lemma exit_inv_start:
  assumes "exit_start s"
  shows "exit_inv s"
proof -
  have "life_inv r" if "constructed ty r" for ty r
    using that peon_threads.inv_reachable [of "zero_life ty" r] by (auto simp: constructed_def life_start_def)
  then have "entry_ok 0 (pa_num s) i (pa_peons s ! i)" if "i < length (pa_peons s)" for i
    using assms that by (fastforce simp: exit_start_def entry_ok_def ending_def constructed_def split: if_splits)
  with assms show ?thesis by (simp add: exit_inv_def exit_start_def)
qed

interpretation peon_array: inv_system exit_start exit_step exit_inv
  by unfold_locales (rule exit_inv_start exit_inv_step, assumption+)+

section \<open>The end is reached\<close>

lemma ending_lifts:
  assumes "end_step\<^sup>*\<^sup>* r u" and "exit_inv s" and "pa_i s < pa_num s" and "pa_peons s ! pa_i s = Some r"
  shows "exit_step\<^sup>*\<^sup>* s (s\<lparr>pa_peons := (pa_peons s)[pa_i s := Some u]\<rparr>)"
  using assms(1)
proof (induction rule: rtranclp_induct)
  case base
  have "s\<lparr>pa_peons := (pa_peons s)[pa_i s := Some r]\<rparr> = s" using assms(4) by (metis list_update_id peon_array.surjective peon_array.update_convs(1))
  then show ?case by simp
next
  case (step u v)
  let ?s = "\<lambda>u. s\<lparr>pa_peons := (pa_peons s)[pa_i s := Some u]\<rparr>"
  note len = exit_inv_at(1) [OF assms(2,3)]
  have "exit_inv (?s u)" using peon_array.inv_steps [OF step(3) assms(2)] .
  then have "\<forall>r. Some r \<in> set (pa_peons (?s u)) \<longrightarrow> \<not> lf_bug r" using exit_inv_no_bug by blast
  moreover have "peon_exit_inner (?s u) (?s v) \<or> peon_others (?s u) (?s v)"
    using step(2) peon_exit_inner.deconstruct [of "?s u" u v] peon_others.others [of "pa_i s" "?s u" u v]
      assms(3) len by (auto simp: end_step_def)
  ultimately have "exit_step (?s u) (?s v)" by (simp add: exit_step_def)
  with step(3) show ?case by simp
qed

lemma exit_ends:
  assumes "exit_inv s"
  shows "\<exists>u. exit_step\<^sup>*\<^sup>* s u \<and> exit_inv u \<and> pa_i u = pa_num u"
  using assms
proof (induction "pa_num s - pa_i s" arbitrary: s)
  case 0
  then show ?case by (intro exI [of _ s]) (auto simp: exit_inv_def)
next
  case (Suc k)
  then have less: "pa_i s < pa_num s" by simp
  note len = exit_inv_at(1) [OF Suc(3) less]
  from exit_inv_at(2) [OF Suc(3) less] obtain r where r: "pa_peons s ! pa_i s = Some r" by blast
  from constructed_ends [OF exit_invD(3) [OF Suc(3) len r]] exit_invD(4) [OF Suc(3) len r]
  obtain u where u: "end_step\<^sup>*\<^sup>* r u" "lf_at u = Freed" by (auto simp: ending_def)
  let ?t = "s\<lparr>pa_peons := (pa_peons s)[pa_i s := Some u]\<rparr>"
  let ?v = "?t\<lparr>pa_peons := (pa_peons ?t)[pa_i ?t := None], pa_i := Suc (pa_i ?t)\<rparr>"
  have t: "exit_step\<^sup>*\<^sup>* s ?t" using ending_lifts [OF u(1) Suc(3) less r] .
  then have inv: "exit_inv ?t" using peon_array.inv_steps Suc(3) by blast
  have "peon_exit_inner ?t ?v" using less len u(2) by (intro peon_exit_inner.freed) simp_all
  then have v: "exit_step ?t ?v" using exit_inv_no_bug [OF inv] by (auto simp: exit_step_def)
  have "\<exists>u. exit_step\<^sup>*\<^sup>* ?v u \<and> exit_inv u \<and> pa_i u = pa_num u"
    using Suc(2) exit_inv_step [OF inv v] by (intro Suc(1)) simp_all
  with t v show ?case by (meson rtranclp.rtrancl_into_rtrancl rtranclp_trans)
qed


section \<open>What the others still use\<close>

text \<open>\<open>peon_construct\<close> succeeds when every thread can be created, and the workers get to their tasks.\<close>

abbreviation fresh :: peon_worker where
  "fresh \<equiv> \<lparr>wk_stoped = False, wk_waitq = waitq_init, wk_at = Testing, wk_signal = False\<rparr>"

lemma construct_succeeds:
  assumes "life_inv r" and "lf_at r = Init_worker i" and "\<forall>j < i. lf_workers r ! j = fresh"
  shows "\<exists>u. life_step\<^sup>*\<^sup>* r u \<and> lf_at u = Constructed \<and> lf_workers u = replicate (length (lf_workers r)) fresh"
  using assms
proof (induction "length (lf_workers r) - i" arbitrary: r i)
  case 0
  then have "\<not> i < length (lf_workers r)" "i \<le> length (lf_workers r)" by (auto simp: life_inv_simps)
  with 0 have "life_step r (r\<lparr>lf_at := Constructed\<rparr>)" "lf_workers r = replicate (length (lf_workers r)) fresh"
    by (auto simp: life_step_def life_inv_def intro: all_started nth_equalityI)
  then show ?case by (intro exI [of _ "r\<lparr>lf_at := Constructed\<rparr>"]) auto
next
  case (Suc k)
  let ?s = "upd_worker i (\<lambda>w. w\<lparr>wk_stoped := False, wk_waitq := waitq_init\<rparr>) (r\<lparr>lf_at := Start_worker i\<rparr>)"
  let ?t = "move_to i Testing (?s\<lparr>lf_worker_num := lf_worker_num ?s + 1, lf_at := Init_worker (Suc i)\<rparr>)"
  have i: "i < length (lf_workers r)" using Suc(2) by simp
  have s: "life_step r ?s" using Suc(3,4) i by (auto simp: life_step_def life_inv_def intro!: construct_step.init)
  then have inv: "life_inv ?s" using Suc(3) life_inv_step by blast
  have t: "life_step ?s ?t" using inv construct_step.start [of ?s i True]
    by (auto simp: life_step_def life_inv_def)
  then have inv_t: "life_inv ?t" using inv life_inv_step by blast
  have "lf_workers ?t ! j = fresh" if "j < Suc i" for j
    using Suc(5) that i by (cases "j = i") (simp_all add: upd_worker_def)
  then have all: "\<forall>j < Suc i. lf_workers ?t ! j = fresh" by blast
  have k: "k = length (lf_workers ?t) - Suc i" and len: "length (lf_workers ?t) = length (lf_workers r)"
    using Suc(2) by simp_all
  have at: "lf_at ?t = Init_worker (Suc i)" by simp
  from Suc(1) [OF k inv_t at all] s t show ?case unfolding len by (meson converse_rtranclp_into_rtranclp)
qed

lemma constructed_works: "\<exists>r. constructed ty r \<and> worker_is r 0 Working"
proof -
  have "life_inv (zero_life ty)" by (rule life_inv_start) (auto simp: life_start_def)
  then obtain u where u: "life_step\<^sup>*\<^sup>* (zero_life ty) u" "lf_at u = Constructed"
    "lf_workers u = replicate (we_num (peon_worker_envs ty)) fresh"
    using construct_succeeds [of "zero_life ty" 0] by (auto simp: zero_life_def)
  have len: "0 < length (lf_workers u)" using u(3) by (cases ty) (simp_all add: peon_worker_envs_def)
  then have f: "lf_workers u ! 0 = fresh" using u(3) by simp
  have nb: "\<not> lf_bug u"
    using peon_threads.inv_reachable [OF _ u(1)] by (auto simp: life_start_def life_inv_def)
  let ?a = "move_to 0 Entering u"
  let ?b = "move_to 0 Waiting (on_waitq 0 waitq_enter ?a)"
  let ?c = "move_to 0 Checking (on_waitq 0 waitq_leave ?b)"
  let ?d = "move_to 0 Working ?c"
  note s = life_step_def on_waitq_def waitq_enter_def waitq_leave_def waitq_init_def
  have "life_step u ?a" using nb len f peon_worker_thread.stays [of 0 u] by (auto simp: s)
  moreover have "life_step ?a ?b" using nb len f peon_worker_thread.enter [of 0 ?a] by (auto simp: s)
  moreover have "life_step ?b ?c"
    using nb len f peon_worker_thread.leave [of 0 ?b True] by (auto simp: s)
  moreover have "life_step ?c ?d" using nb len f peon_worker_thread.works [of 0 ?c] by (auto simp: s)
  ultimately have "life_step\<^sup>*\<^sup>* (zero_life ty) ?d" using u(1) by (meson rtranclp.rtrancl_into_rtrancl)
  then show ?thesis using u(2) len by (intro exI [of _ ?d]) (simp add: constructed_def)
qed

text \<open>
  A worker of the second peon that works on a task when the first peon is already gone.  To judge its
  task it reads the lists of the first peon (\<open>peon_task_action_judge\<close>), through a null pointer.
\<close>

lemma exit_frees_used_peon:
  "\<exists>s t. exit_start s \<and> pa_num s = length peon_types \<and> exit_step\<^sup>*\<^sup>* s t \<and> pa_peons t ! 0 = None \<and> pa_i t = 1 \<and>
    length (pa_peons t) = length peon_types \<and> (\<exists>r. pa_peons t ! 1 = Some r \<and> worker_is r 0 Working)"
proof -
  from constructed_works obtain c where c: "\<And>ty. constructed ty (c ty) \<and> worker_is (c ty) 0 Working" by metis
  let ?s = "\<lparr>pa_peons = map (\<lambda>ty. Some (c ty)) peon_types, pa_num = length peon_types, pa_i = 0\<rparr>"
  have start: "exit_start ?s" using c by (auto simp: exit_start_def)
  then have inv: "exit_inv ?s" by (rule exit_inv_start)
  have at: "pa_i ?s < pa_num ?s" "pa_peons ?s ! pa_i ?s = Some (c PEON_TYPE_CONNECT)"
    by (simp_all add: peon_types_def)
  have "lf_at (c PEON_TYPE_CONNECT) = Constructed" using c by (simp add: constructed_def)
  with constructed_ends [OF exit_invD(3) [OF inv exit_inv_at(1) [OF inv at(1)] at(2)]]
  obtain u where u: "end_step\<^sup>*\<^sup>* (c PEON_TYPE_CONNECT) u" "lf_at u = Freed" by auto
  let ?t = "?s\<lparr>pa_peons := (pa_peons ?s)[pa_i ?s := Some u]\<rparr>"
  let ?v = "?t\<lparr>pa_peons := (pa_peons ?t)[pa_i ?t := None], pa_i := Suc (pa_i ?t)\<rparr>"
  have t: "exit_step\<^sup>*\<^sup>* ?s ?t" by (rule ending_lifts [OF u(1) inv at])
  then have "exit_inv ?t" by (rule peon_array.inv_steps) (rule inv)
  moreover have "peon_exit_inner ?t ?v" using u(2) by (intro peon_exit_inner.freed) (simp_all add: peon_types_def)
  ultimately have "exit_step ?t ?v" using exit_inv_no_bug unfolding exit_step_def by blast
  with t have "exit_step\<^sup>*\<^sup>* ?s ?v" by simp
  with start c [of PEON_TYPE_DISCONN] show ?thesis
    by (intro exI [of _ ?s] exI [of _ ?v]) (simp add: peon_types_def)
qed


end
