(* ===== verification/Snsd_Connect.thy ===== *)
theory Snsd_Connect
  imports Snsd_Peon_Steps
begin

text \<open>
  \<open>src/snsd_connect.c\<close>: the table of connect templates, one per protocol, and the three
  requests the rest of the program makes of the scheduler.  The table is a list of
  \<open>SNSD_PROTOCOL_BUTT\<close> entries; an entry that was not registered is \<open>None\<close>.
\<close>

type_synonym ('w, 'c) templates = "('w, 'c) connect_template option list"

definition snsd_connect_templates_init :: "('w, 'c) templates" where
  "snsd_connect_templates_init = replicate SNSD_PROTOCOL_BUTT None"

definition snsd_connect_template_register ::
  "('w, 'c) connect_template \<Rightarrow> ('w, 'c) templates \<Rightarrow> ('w, 'c) templates" where
  "snsd_connect_template_register t ts =
    (if ct_protocol t < SNSD_PROTOCOL_BUTT then ts[ct_protocol t := Some t] else ts)"

text \<open>The check and the table access the two requests start with.\<close>

definition find_template :: "('w, 'c) templates \<Rightarrow> nat \<Rightarrow> ('w, 'c) connect_template option" where
  "find_template ts protocol = (if protocol < SNSD_PROTOCOL_BUTT then ts ! protocol else None)"

definition snsd_connect ::
  "('w, 'c) templates \<Rightarrow> 'w peon_env \<Rightarrow> connect_param \<Rightarrow> ('w, 'c) peon_sys \<Rightarrow>
    (('w, 'c) peon_sys \<times> unit result) call" where
  "snsd_connect ts env param s =
    (case find_template ts (cp_protocol param) of
       Some t \<Rightarrow> peon_add_connect_task env param (ct_connect_toolbox t) s
     | None \<Rightarrow> Done (s, Inl EINVAL))"

definition snsd_disconnect ::
  "('w, 'c) templates \<Rightarrow> 'w peon_env \<Rightarrow> connect_param \<Rightarrow> ('w, 'c) peon_sys \<Rightarrow>
    (('w, 'c) peon_sys \<times> unit result) call" where
  "snsd_disconnect ts env param s =
    (case find_template ts (cp_protocol param) of
       Some t \<Rightarrow> peon_add_disconn_task env param (ct_disconn_toolbox t) s
     | None \<Rightarrow> Done (s, Inl EINVAL))"

text \<open>
  The loop of \<open>snsd_disconnect_by_host_traddr\<close> from \<open>protocol\<close> on; each of its
  \<open>n\<close> rounds sees the environment of its own time, \<open>envs protocol\<close>.
\<close>

fun dcbatch_loop ::
  "('w, 'c) templates \<Rightarrow> (nat \<Rightarrow> 'w peon_env) \<Rightarrow> connect_param \<Rightarrow> nat list \<Rightarrow> ('w, 'c) peon_sys \<Rightarrow>
    (('w, 'c) peon_sys \<times> unit result) call" where
  "dcbatch_loop ts envs param [] s = Done (s, Inr ())"
| "dcbatch_loop ts envs param (protocol # ps) s =
    (case ts ! protocol of
       None \<Rightarrow> dcbatch_loop ts envs param ps s
     | Some t \<Rightarrow>
         let param = param\<lparr>cp_protocol := protocol\<rparr> in
         (case peon_add_dcbatch_task (envs protocol) param (ct_dcbatch_toolbox t) s of
            Stuck \<Rightarrow> Stuck
          | Done (s', Inl e) \<Rightarrow> Done (s', Inl e)
          | Done (s', Inr _) \<Rightarrow> dcbatch_loop ts envs param ps s'))"

definition snsd_disconnect_by_host_traddr ::
  "('w, 'c) templates \<Rightarrow> (nat \<Rightarrow> 'w peon_env) \<Rightarrow> nat \<Rightarrow> u8 list \<Rightarrow> ('w, 'c) peon_sys \<Rightarrow>
    (('w, 'c) peon_sys \<times> unit result) call" where
  "snsd_disconnect_by_host_traddr ts envs family host_traddr s =
    dcbatch_loop ts envs
      (zero_connect_param\<lparr>cp_family := family, cp_host_traddr := take IPV6_ADDR_LENGTH host_traddr\<rparr>)
      [0..<SNSD_PROTOCOL_BUTT] s"

section \<open>Properties\<close>

lemma find_template_register:
  assumes "length ts = SNSD_PROTOCOL_BUTT"
  shows "find_template (snsd_connect_template_register t ts) p =
    (if p = ct_protocol t \<and> p < SNSD_PROTOCOL_BUTT then Some t else find_template ts p)"
  using assms by (auto simp: find_template_def snsd_connect_template_register_def nth_list_update)

text \<open>A request of a peon that is not the disconnect one is queued or fails, and never blocks.\<close>

lemma peon_add_dcbatch_cases [consumes 2, case_names fail queued]:
  assumes "ps_peons s (Static PEON_TYPE_DCBATCH) = Some pe" and "pe_type pe = PEON_TYPE_DCBATCH"
  obtains (fail) s' e where "peon_add_dcbatch_task env param tb s = Done (s', Inl e)"
      "ps_peons s' = ps_peons s"
      "\<not> en_calloc_ok env \<or> (\<exists>f sn. tb_ctx_init tb = Some f \<and> f (en_world env) param sn = None)"
  | (queued) s' task where "peon_add_dcbatch_task env param tb s = Done (s', Inr ())"
      "ps_peons s' = (ps_peons s)(Static PEON_TYPE_DCBATCH := Some (pe\<lparr>
        pe_wait_list := pe_wait_list pe @ [task], pe_worker_all_count := pe_worker_all_count pe + 1\<rparr>))"
      "pt_param task = param" "live task" "pt_sn task \<noteq> 0"
proof -
  obtain s1 sn where g: "peon_sn_generate s = (s1, sn)" by fastforce
  have sn: "sn \<noteq> 0" using peon_sn_generate_nonzero [of s] g by simp
  have p1: "ps_peons s1 = ps_peons s" using sn_generate_frame [OF g] by auto
  show thesis
  proof (cases "peon_new_task env (ps_next_addr s1) sn param tb")
    case (Inl e)
    then have "\<not> en_calloc_ok env \<or> (\<exists>f sn. tb_ctx_init tb = Some f \<and> f (en_world env) param sn = None)"
      by (auto simp: peon_new_task_def Let_def split: if_splits option.splits)
    with Inl show thesis
      by (intro fail [of s1 e])
        (simp_all add: peon_add_dcbatch_task_def peon_add_task_inner_def g peon_task_add_def p1)
  next
    case (Inr task)
    note new = peon_new_task_Inr [OF Inr]
    let ?s' = "upd_peon (Static PEON_TYPE_DCBATCH) (\<lambda>pe. pe\<lparr>
        pe_wait_list := pe_wait_list pe @ [task], pe_worker_all_count := pe_worker_all_count pe + 1\<rparr>)
      (s1\<lparr>ps_next_addr := ps_next_addr s1 + 1\<rparr>)"
    show thesis
    proof (rule queued [of ?s', OF _ _ new(6,5)])
      show "peon_add_dcbatch_task env param tb s = Done (?s', Inr ())"
        using Inr assms by (simp add: peon_add_dcbatch_task_def peon_add_task_inner_def g
          peon_task_add_def p1 Let_def)
      show "ps_peons ?s' = (ps_peons s)(Static PEON_TYPE_DCBATCH := Some (pe\<lparr>
          pe_wait_list := pe_wait_list pe @ [task], pe_worker_all_count := pe_worker_all_count pe + 1\<rparr>))"
        using assms by (intro ext) (simp add: p1)
    qed (simp add: new sn)
  qed
qed

definition dcbatch_ready :: "('w, 'c) templates \<Rightarrow> (nat \<Rightarrow> 'w peon_env) \<Rightarrow> bool" where
  "dcbatch_ready ts envs \<longleftrightarrow>
    (\<forall>p t f. find_template ts p = Some t \<longrightarrow> en_calloc_ok (envs p) \<and>
      (tb_ctx_init (ct_dcbatch_toolbox t) = Some f \<longrightarrow>
        (\<forall>param sn. f (en_world (envs p)) param sn \<noteq> None)))"

lemma dcbatch_loop_complete:
  assumes "ps_peons s (Static PEON_TYPE_DCBATCH) = Some pe" and "pe_type pe = PEON_TYPE_DCBATCH"
    and "dcbatch_ready ts envs" and "\<forall>p \<in> set ps. p < SNSD_PROTOCOL_BUTT"
  shows "\<exists>s' new. dcbatch_loop ts envs param ps s = Done (s', Inr ()) \<and>
    wait_list (Static PEON_TYPE_DCBATCH) s' = pe_wait_list pe @ new \<and>
    map (cp_protocol \<circ> pt_param) new = filter (\<lambda>p. ts ! p \<noteq> None) ps \<and>
    (\<forall>t \<in> set new. live t \<and> pt_sn t \<noteq> 0 \<and> cp_family (pt_param t) = cp_family param \<and>
      cp_host_traddr (pt_param t) = cp_host_traddr param)"
  using assms
proof (induction ps arbitrary: s pe param)
  case Nil
  then show ?case by simp
next
  case (Cons p ps)
  show ?case
  proof (cases "ts ! p")
    case None
    with Cons show ?thesis by simp
  next
    case (Some t)
    let ?param = "param\<lparr>cp_protocol := p\<rparr>"
    have tmpl: "find_template ts p = Some t" using Some Cons.prems(4) by (simp add: find_template_def)
    from Cons.prems(1,2) show ?thesis
    proof (cases rule: peon_add_dcbatch_cases
        [where env = "envs p" and param = ?param and tb = "ct_dcbatch_toolbox t"])
      case (fail s' e)
      have "en_calloc_ok (envs p)" "\<And>f param sn. tb_ctx_init (ct_dcbatch_toolbox t) = Some f \<Longrightarrow>
          f (en_world (envs p)) param sn \<noteq> None"
        using Cons.prems(3) tmpl unfolding dcbatch_ready_def by blast+
      with fail(3) show ?thesis by blast
    next
      case (queued s' task)
      have pe': "ps_peons s' (Static PEON_TYPE_DCBATCH) = Some (pe\<lparr>
        pe_wait_list := pe_wait_list pe @ [task], pe_worker_all_count := pe_worker_all_count pe + 1\<rparr>)"
        by (simp add: queued(2))
      have "\<exists>s'' new. dcbatch_loop ts envs ?param ps s' = Done (s'', Inr ()) \<and>
        wait_list (Static PEON_TYPE_DCBATCH) s'' = (pe_wait_list pe @ [task]) @ new \<and>
        map (cp_protocol \<circ> pt_param) new = filter (\<lambda>p. ts ! p \<noteq> None) ps \<and>
        (\<forall>t \<in> set new. live t \<and> pt_sn t \<noteq> 0 \<and> cp_family (pt_param t) = cp_family param \<and>
          cp_host_traddr (pt_param t) = cp_host_traddr param)"
        using Cons.IH [OF pe', of ?param] Cons.prems(2-4) by (simp add: o_def)
      then obtain s'' new where "dcbatch_loop ts envs ?param ps s' = Done (s'', Inr ())"
        "wait_list (Static PEON_TYPE_DCBATCH) s'' = (pe_wait_list pe @ [task]) @ new"
        "map (cp_protocol \<circ> pt_param) new = filter (\<lambda>p. ts ! p \<noteq> None) ps"
        "\<forall>t \<in> set new. live t \<and> pt_sn t \<noteq> 0 \<and> cp_family (pt_param t) = cp_family param \<and>
          cp_host_traddr (pt_param t) = cp_host_traddr param" by blast
      with Some queued show ?thesis
        by (intro exI [of _ s''] exI [of _ "task # new"]) (simp add: o_def)
    qed
  qed
qed

text \<open>The batch peon itself survives, so that one batch of requests can follow another.\<close>

lemma dcbatch_loop_peon:
  assumes "ps_peons s (Static PEON_TYPE_DCBATCH) = Some pe" and "pe_type pe = PEON_TYPE_DCBATCH"
    and "dcbatch_ready ts envs" and "\<forall>p \<in> set ps. p < SNSD_PROTOCOL_BUTT"
  shows "\<exists>s' pe'. dcbatch_loop ts envs param ps s = Done (s', Inr ()) \<and>
    ps_peons s' (Static PEON_TYPE_DCBATCH) = Some pe' \<and> pe_type pe' = PEON_TYPE_DCBATCH"
  using assms
proof (induction ps arbitrary: s pe param)
  case Nil
  then show ?case by simp
next
  case (Cons p ps)
  show ?case
  proof (cases "ts ! p")
    case None
    with Cons show ?thesis by simp
  next
    case (Some t)
    let ?param = "param\<lparr>cp_protocol := p\<rparr>"
    have tmpl: "find_template ts p = Some t" using Some Cons.prems(4) by (simp add: find_template_def)
    from Cons.prems(1,2) show ?thesis
    proof (cases rule: peon_add_dcbatch_cases
        [where env = "envs p" and param = ?param and tb = "ct_dcbatch_toolbox t"])
      case (fail s' e)
      with Cons.prems(3) tmpl show ?thesis unfolding dcbatch_ready_def by blast
    next
      case (queued s' task)
      show ?thesis
        using Cons.IH [of s' _ ?param] Cons.prems(2-4) queued Some by simp
    qed
  qed
qed

text \<open>
  When a host port goes down, \<open>snsd_disconnect_by_host_traddr\<close> queues exactly one batch
  disconnect per registered protocol, in the order of the protocols, each for that port; it never
  blocks, and it stops early only if memory or a callback fails.
\<close>

theorem snsd_disconnect_by_host_traddr_complete:
  assumes "ps_peons s (Static PEON_TYPE_DCBATCH) = Some pe" and "pe_type pe = PEON_TYPE_DCBATCH"
    and "dcbatch_ready ts envs" and "length host = IPV6_ADDR_LENGTH"
  shows "\<exists>s' new. snsd_disconnect_by_host_traddr ts envs family host s = Done (s', Inr ()) \<and>
    wait_list (Static PEON_TYPE_DCBATCH) s' = pe_wait_list pe @ new \<and>
    map (cp_protocol \<circ> pt_param) new = filter (\<lambda>p. ts ! p \<noteq> None) [0..<SNSD_PROTOCOL_BUTT] \<and>
    (\<forall>t \<in> set new. live t \<and> pt_sn t \<noteq> 0 \<and> cp_family (pt_param t) = family \<and>
      cp_host_traddr (pt_param t) = host)"
  using dcbatch_loop_complete [OF assms(1-3), of "[0..<SNSD_PROTOCOL_BUTT]"
      "zero_connect_param\<lparr>cp_family := family, cp_host_traddr := take IPV6_ADDR_LENGTH host\<rparr>"] assms(4)
  by (simp add: snsd_disconnect_by_host_traddr_def del: upt_Suc)

definition sample_template :: "nat \<Rightarrow> (unit, unit) connect_template" where
  "sample_template p = \<lparr>ct_protocol = p, ct_connect_toolbox = sample_toolbox,
    ct_disconn_toolbox = sample_toolbox, ct_dcbatch_toolbox = sample_toolbox\<rparr>"

theorem snsd_disconnect_by_host_traddr_complete_witness:
  "\<exists>s' new. snsd_disconnect_by_host_traddr
      (snsd_connect_template_register (sample_template SNSD_PROTOCOL_ROCE) snsd_connect_templates_init)
      (\<lambda>_. sample_env DynNoMemory) AF_INET (replicate 16 7) (sample_sys []) = Done (s', Inr ()) \<and>
    map (cp_protocol \<circ> pt_param) new = [SNSD_PROTOCOL_ROCE] \<and>
    wait_list (Static PEON_TYPE_DCBATCH) s' = new"
proof -
  let ?ts = "snsd_connect_template_register (sample_template SNSD_PROTOCOL_ROCE) snsd_connect_templates_init"
  have pe: "ps_peons (sample_sys []) (Static PEON_TYPE_DCBATCH) =
    Some (sample_peon PEON_TYPE_DCBATCH [] [])" by (simp add: sample_sys_def)
  have ts: "?ts = [None, Some (sample_template 1), None, None]"
    by (simp add: snsd_connect_template_register_def snsd_connect_templates_init_def
        sample_template_def numeral_nat)
  have r: "dcbatch_ready ?ts (\<lambda>_. sample_env DynNoMemory)"
    unfolding ts
    by (auto simp: dcbatch_ready_def find_template_def nth_Cons sample_env_def sample_template_def
        sample_toolbox_def split: nat.splits if_splits)
  from snsd_disconnect_by_host_traddr_complete [OF pe _ r, of "replicate 16 7" AF_INET]
  show ?thesis unfolding ts by (simp add: upt_rec nth_Cons) metis
qed

end
