(* ===== verification/Snsd_List.thy ===== *)
theory Snsd_List
  imports Snsd_Prelude
begin

text \<open>
  \<open>src/snsd_list.h\<close>: the circular doubly linked list every queue of the program is
  made of.  The memory of the list nodes is \<open>dl_heap\<close>, two maps from a node's address to
  its \<open>next\<close> and \<open>prev\<close> pointers; every C assignment is one \<open>set_next\<close> or
  \<open>set_prev\<close>, in the order the code has them, so the aliasing between the new node, the
  head and its neighbours is the C program's.  \<open>dl_rep h head xs\<close> says that the list at
  \<open>head\<close> holds the nodes \<open>xs\<close> in this order; each operation is shown to be the list
  operation it stands for, and to leave every other list alone.

  \<open>intrusive_queue\<close> is what the clients (the message pool of the server, the task lists
  of the peons) rely on; it is interpreted on the pointer operations below.
\<close>

type_synonym addr = nat

section \<open>The node memory and the operations\<close>

record dl_heap =
  nxt :: "addr \<Rightarrow> addr"
  prv :: "addr \<Rightarrow> addr"

definition set_next :: "addr \<Rightarrow> addr \<Rightarrow> dl_heap \<Rightarrow> dl_heap" where
  "set_next p v h = h\<lparr>nxt := (nxt h)(p := v)\<rparr>"

definition set_prev :: "addr \<Rightarrow> addr \<Rightarrow> dl_heap \<Rightarrow> dl_heap" where
  "set_prev p v h = h\<lparr>prv := (prv h)(p := v)\<rparr>"

definition INIT_LIST_HEAD :: "addr \<Rightarrow> dl_heap \<Rightarrow> dl_heap" where
  "INIT_LIST_HEAD head h = set_next head head (set_prev head head h)"

definition list_add :: "addr \<Rightarrow> addr \<Rightarrow> dl_heap \<Rightarrow> dl_heap" where
  "list_add newp head h0 =
    (let h1 = set_prev (nxt h0 head) newp h0;
         h2 = set_next newp (nxt h1 head) h1;
         h3 = set_prev newp head h2
     in set_next head newp h3)"

definition list_add_tail :: "addr \<Rightarrow> addr \<Rightarrow> dl_heap \<Rightarrow> dl_heap" where
  "list_add_tail newp head h0 =
    (let h1 = set_next (prv h0 head) newp h0;
         h2 = set_next newp head h1;
         h3 = set_prev newp (prv h2 head) h2
     in set_prev head newp h3)"

definition list_del :: "addr \<Rightarrow> dl_heap \<Rightarrow> dl_heap" where
  "list_del elem h0 =
    (let h1 = set_prev (nxt h0 elem) (prv h0 elem) h0
     in set_next (prv h1 elem) (nxt h1 elem) h1)"

definition list_splice :: "addr \<Rightarrow> addr \<Rightarrow> dl_heap \<Rightarrow> dl_heap" where
  "list_splice add head h0 =
    (if add \<noteq> nxt h0 add then
       let h1 = set_prev (nxt h0 add) head h0;
           h2 = set_next (prv h1 add) (nxt h1 head) h1;
           h3 = set_prev (nxt h2 head) (prv h2 add) h2
       in set_next head (nxt h3 add) h3
     else h0)"

definition list_empty :: "addr \<Rightarrow> dl_heap \<Rightarrow> bool" where
  "list_empty head h \<longleftrightarrow> nxt h head = head"

text \<open>
  The iteration macros.  A walk need not end on a damaged list, so it is an option; the
  result is the sequence of nodes the body is run on.
\<close>

partial_function (option) list_for_each :: "dl_heap \<Rightarrow> addr \<Rightarrow> addr \<Rightarrow> addr list option" where
  "list_for_each h head cur =
    (if cur = head then Some []
     else Option.bind (list_for_each h head (nxt h cur)) (\<lambda>ps. Some (cur # ps)))"

partial_function (option) list_for_each_prev :: "dl_heap \<Rightarrow> addr \<Rightarrow> addr \<Rightarrow> addr list option" where
  "list_for_each_prev h head cur =
    (if cur = head then Some []
     else Option.bind (list_for_each_prev h head (prv h cur)) (\<lambda>ps. Some (cur # ps)))"

text \<open>
  \<open>list_for_each_safe (cur, tmp, head) { list_del (cur); ... }\<close>: the next pointer is
  saved before the body unlinks the current node.
\<close>

partial_function (option) list_del_each_safe ::
  "addr \<Rightarrow> addr \<Rightarrow> addr \<Rightarrow> dl_heap \<Rightarrow> (dl_heap \<times> addr list) option" where
  "list_del_each_safe head cur tmp h =
    (if cur = head then Some (h, [])
     else
       let h' = list_del cur h in
       Option.bind (list_del_each_safe head tmp (nxt h' tmp) h')
         (\<lambda>(h'', freed). Some (h'', cur # freed)))"

section \<open>What a list head represents\<close>

fun dl_path :: "dl_heap \<Rightarrow> addr \<Rightarrow> addr list \<Rightarrow> addr \<Rightarrow> bool" where
  "dl_path h a [] b \<longleftrightarrow> nxt h a = b \<and> prv h b = a"
| "dl_path h a (x # xs) b \<longleftrightarrow> nxt h a = x \<and> prv h x = a \<and> dl_path h x xs b"

definition dl_rep :: "dl_heap \<Rightarrow> addr \<Rightarrow> addr list \<Rightarrow> bool" where
  "dl_rep h head xs \<longleftrightarrow> distinct (head # xs) \<and> dl_path h head xs head"

lemma set_next_simps [simp]:
  "nxt (set_next p v h) q = (if q = p then v else nxt h q)"
  "prv (set_next p v h) = prv h"
  by (simp_all add: set_next_def)

lemma set_prev_simps [simp]:
  "prv (set_prev p v h) q = (if q = p then v else prv h q)"
  "nxt (set_prev p v h) = nxt h"
  by (simp_all add: set_prev_def)

lemma dl_path_append:
  "dl_path h a (xs @ y # ys) b \<longleftrightarrow> dl_path h a xs y \<and> dl_path h y ys b"
  by (induction xs arbitrary: a) auto

text \<open>
  A path reads \<open>next\<close> of everything but its end and \<open>prev\<close> of everything but its
  start, and nothing else.
\<close>

lemma dl_path_cong:
  assumes "\<And>p. p \<in> set (a # xs) \<Longrightarrow> nxt h' p = nxt h p"
    and "\<And>p. p \<in> set (xs @ [b]) \<Longrightarrow> prv h' p = prv h p"
  shows "dl_path h' a xs b = dl_path h a xs b"
  using assms by (induction xs arbitrary: a) auto

lemma dl_path_first:
  "dl_path h a xs b \<Longrightarrow> nxt h a = hd (xs @ [b])"
  by (cases xs) auto

lemma dl_path_last:
  "dl_path h a xs b \<Longrightarrow> prv h b = last (a # xs)"
  by (induction xs arbitrary: a) auto

lemma dl_path_next_in: "dl_path h a xs b \<Longrightarrow> p \<in> set (a # xs) \<Longrightarrow> nxt h p \<in> set (xs @ [b])"
  by (induction xs arbitrary: a) (auto split: if_splits)

lemma dl_path_prev_in: "dl_path h a xs b \<Longrightarrow> p \<in> set (xs @ [b]) \<Longrightarrow> prv h p \<in> set (a # xs)"
  by (induction xs arbitrary: a) (auto split: if_splits)

lemma dl_rep_distinct: "dl_rep h head xs \<Longrightarrow> distinct xs \<and> head \<notin> set xs"
  by (simp add: dl_rep_def)

lemma dl_rep_next: "dl_rep h head xs \<Longrightarrow> nxt h head = hd (xs @ [head])"
  by (simp add: dl_rep_def dl_path_first)

lemma dl_rep_prev: "dl_rep h head xs \<Longrightarrow> prv h head = last (head # xs)"
  unfolding dl_rep_def by (blast intro: dl_path_last)

lemma dl_rep_frame:
  assumes "dl_rep h head xs"
    and "\<And>p. p \<in> set (head # xs) \<Longrightarrow> nxt h' p = nxt h p"
    and "\<And>p. p \<in> set (head # xs) \<Longrightarrow> prv h' p = prv h p"
  shows "dl_rep h' head xs"
proof -
  have "dl_path h' head xs head = dl_path h head xs head"
    by (rule dl_path_cong) (use assms(2,3) in auto)
  with assms(1) show ?thesis by (simp add: dl_rep_def)
qed

section \<open>The operations are list operations\<close>

text \<open>A segment that an update leaves alone stays a segment.\<close>

lemma dl_path_keep:
  assumes "dl_path h a xs b"
    and "\<And>p. p \<in> set (a # xs) \<Longrightarrow> nxt h' p = nxt h p"
    and "\<And>p. p \<in> set (xs @ [b]) \<Longrightarrow> prv h' p = prv h p"
  shows "dl_path h' a xs b"
  using assms(1) dl_path_cong [OF assms(2,3)] by simp

lemma INIT_LIST_HEAD_rep: "dl_rep (INIT_LIST_HEAD head h) head []"
  by (simp add: INIT_LIST_HEAD_def dl_rep_def)

lemma list_empty_rep: "dl_rep h head xs \<Longrightarrow> list_empty head h \<longleftrightarrow> xs = []"
  by (cases xs) (auto simp: list_empty_def dl_rep_def)

lemma list_add_rep:
  assumes "dl_rep h head xs" and "newp \<notin> set (head # xs)"
  shows "dl_rep (list_add newp head h) head (newp # xs)"
proof (cases xs)
  case Nil
  with assms show ?thesis by (auto simp: list_add_def Let_def dl_rep_def)
next
  case (Cons x ys)
  have "dl_path h x ys head" using assms(1) Cons by (simp add: dl_rep_def)
  then have "dl_path (list_add newp head h) x ys head"
    by (rule dl_path_keep) (use assms Cons in \<open>auto simp: list_add_def Let_def dl_rep_def\<close>)
  with assms Cons show ?thesis by (auto simp: list_add_def Let_def dl_rep_def)
qed

lemma list_add_tail_rep:
  assumes "dl_rep h head xs" and "newp \<notin> set (head # xs)"
  shows "dl_rep (list_add_tail newp head h) head (xs @ [newp])"
proof (cases xs rule: rev_cases)
  case Nil
  with assms show ?thesis by (auto simp: list_add_tail_def Let_def dl_rep_def)
next
  case (snoc ys y)
  have y: "dl_path h head ys y" "prv h head = y"
    using assms(1) snoc by (simp_all add: dl_rep_def dl_path_append)
  have "dl_path (list_add_tail newp head h) head ys y"
    using y(1) by (rule dl_path_keep)
      (use assms snoc y(2) in \<open>auto simp: list_add_tail_def Let_def dl_rep_def\<close>)
  moreover have "dl_path (list_add_tail newp head h) y [newp] head"
    using assms snoc y(2) by (auto simp: list_add_tail_def Let_def dl_rep_def)
  ultimately show ?thesis
    using assms snoc by (simp add: dl_rep_def dl_path_append)
qed

lemma list_del_fields:
  assumes "dl_rep h head (ys @ e # zs)"
  shows "nxt (list_del e h) = (nxt h)(last (head # ys) := hd (zs @ [head]))"
    and "prv (list_del e h) = (prv h)(hd (zs @ [head]) := last (head # ys))"
proof -
  have path: "dl_path h head ys e" "dl_path h e zs head"
    using assms by (simp_all add: dl_rep_def dl_path_append)
  have e: "prv h e = last (head # ys)" "nxt h e = hd (zs @ [head])"
    using dl_path_last [OF path(1)] dl_path_first [OF path(2)] by simp_all
  moreover have "nxt h e \<noteq> e"
    using dl_path_next_in [OF path(2), of e] assms by (auto simp: dl_rep_def)
  ultimately show "nxt (list_del e h) = (nxt h)(last (head # ys) := hd (zs @ [head]))"
    and "prv (list_del e h) = (prv h)(hd (zs @ [head]) := last (head # ys))"
    by (auto simp: list_del_def Let_def fun_eq_iff)
qed

lemma list_del_rep:
  assumes rep: "dl_rep h head (ys @ e # zs)"
  shows "dl_rep (list_del e h) head (ys @ zs)"
proof -
  note upd = list_del_fields [OF rep]
  have dist: "distinct (head # ys @ e # zs)"
    and path: "dl_path h head ys e" "dl_path h e zs head"
    using rep by (simp_all add: dl_rep_def dl_path_append)
  have right: "prv (list_del e h) z = last (head # ys) \<and> dl_path (list_del e h) z zs' head"
    if z: "zs = z # zs'" for z zs'
  proof -
    have "last (head # ys) \<in> set (head # ys)" by (rule last_in_set) simp
    then have last: "last (head # ys) \<notin> set zs" using dist by auto
    have "dl_path h z zs' head" using path(2) z by simp
    then have "dl_path (list_del e h) z zs' head"
      by (rule dl_path_keep) (use dist z upd last in auto)
    with z upd show ?thesis by simp
  qed
  have left: "dl_path (list_del e h) head ys' y" if y: "ys = ys' @ [y]" for y ys'
  proof -
    have "dl_path h head ys' y" using path(1) y by (simp add: dl_path_append)
    then show ?thesis
      by (rule dl_path_keep) (use dist y upd in \<open>auto simp: hd_append split: if_splits list.splits\<close>)
  qed
  have "dl_path (list_del e h) head (ys @ zs) head"
  proof (cases ys rule: rev_cases)
    case Nil
    then show ?thesis by (cases zs) (use right upd in auto)
  next
    case (snoc ys' y)
    then show ?thesis
      by (cases zs) (use right left upd dist in \<open>auto simp: dl_path_append\<close>)
  qed
  with dist show ?thesis by (simp add: dl_rep_def)
qed

lemma list_del_rep_remove1:
  assumes "dl_rep h head xs" and "e \<in> set xs"
  shows "dl_rep (list_del e h) head (remove1 e xs)"
proof -
  obtain ys zs where "xs = ys @ e # zs" and "e \<notin> set ys"
    using split_list_first [OF assms(2)] by blast
  with list_del_rep [of h head ys e zs] assms(1) show ?thesis by (simp add: remove1_append)
qed

text \<open>Frame: an operation on one list leaves every other list as it was.\<close>

lemma list_add_frame:
  assumes "dl_rep h head xs" and "dl_rep h other ys"
    and "set (head # xs) \<inter> set (other # ys) = {}" and "newp \<notin> set (other # ys)"
  shows "dl_rep (list_add newp head h) other ys"
proof (rule dl_rep_frame [OF assms(2)])
  have "nxt h head \<in> set (head # xs)"
    using dl_rep_next [OF assms(1)] by (cases xs) auto
  then show "nxt (list_add newp head h) p = nxt h p" "prv (list_add newp head h) p = prv h p"
    if "p \<in> set (other # ys)" for p
    using that assms(3,4) by (auto simp: list_add_def Let_def)
qed

lemma list_add_tail_frame:
  assumes "dl_rep h head xs" and "dl_rep h other ys"
    and "set (head # xs) \<inter> set (other # ys) = {}" and "newp \<notin> set (other # ys)"
  shows "dl_rep (list_add_tail newp head h) other ys"
proof (rule dl_rep_frame [OF assms(2)])
  have "prv h head \<in> set (head # xs)"
    using dl_rep_prev [OF assms(1)] by (auto split: if_splits)
  then show "nxt (list_add_tail newp head h) p = nxt h p"
    "prv (list_add_tail newp head h) p = prv h p"
    if "p \<in> set (other # ys)" for p
    using that assms(3,4) by (auto simp: list_add_tail_def Let_def)
qed

lemma list_del_frame:
  assumes "dl_rep h head xs" and "e \<in> set xs" and "dl_rep h other ys"
    and "set (head # xs) \<inter> set (other # ys) = {}"
  shows "dl_rep (list_del e h) other ys"
proof (rule dl_rep_frame [OF assms(3)])
  obtain as bs where xs: "xs = as @ e # bs" using split_list [OF assms(2)] by blast
  have "last (head # as) \<in> set (head # xs)" "hd (bs @ [head]) \<in> set (head # xs)"
    using xs by (auto simp: hd_append)
  then show "nxt (list_del e h) p = nxt h p" "prv (list_del e h) p = prv h p"
    if "p \<in> set (other # ys)" for p
    using that assms(4) list_del_fields [OF assms(1) [unfolded xs]] by auto
qed

text \<open>Joining: the nodes of \<open>add\<close> come first, and \<open>add\<close> itself is given up.\<close>

lemma list_splice_fields:
  assumes "dl_rep h add (as @ [l])" and "dl_rep h head ys"
    and "set (add # as @ [l]) \<inter> set (head # ys) = {}"
  defines "f \<equiv> hd (as @ [l])" and "n \<equiv> hd (ys @ [head])"
  shows "nxt (list_splice add head h) = (nxt h)(l := n, head := f)"
    and "prv (list_splice add head h) = (prv h)(f := head, n := l)"
proof -
  have a: "nxt h add = f" "prv h add = l" "f \<in> set (as @ [l])"
    using dl_rep_next [OF assms(1)] dl_rep_prev [OF assms(1)]
    by (auto simp: f_def hd_append)
  have b: "nxt h head = n" "n \<in> set (head # ys)"
    using dl_rep_next [OF assms(2)] by (auto simp: n_def hd_append)
  have ne: "add \<noteq> f" "f \<noteq> n" "l \<noteq> head" "add \<noteq> head" "add \<noteq> l"
    using a(3) b(2) assms(1,3) by (auto simp: dl_rep_def)
  show "nxt (list_splice add head h) = (nxt h)(l := n, head := f)"
    "prv (list_splice add head h) = (prv h)(f := head, n := l)"
    using a b ne by (auto simp: list_splice_def Let_def fun_eq_iff)
qed

lemma list_splice_rep:
  assumes rep: "dl_rep h add xs" "dl_rep h head ys"
    and disj: "set (add # xs) \<inter> set (head # ys) = {}"
  shows "dl_rep (list_splice add head h) head (xs @ ys)"
proof (cases xs rule: rev_cases)
  case Nil
  with rep(1) have "nxt h add = add" by (simp add: dl_rep_def)
  with Nil rep(2) show ?thesis by (simp add: list_splice_def)
next
  case (snoc as l)
  let ?h = "list_splice add head h"
  note upd = list_splice_fields [OF rep(1) [unfolded snoc] rep(2) disj [unfolded snoc]]
  have dist: "distinct (add # as @ [l])" "distinct (head # ys)"
    using rep snoc by (simp_all add: dl_rep_def)
  have path: "dl_path h add as l" "dl_path h head ys head"
    using rep snoc by (simp_all add: dl_rep_def dl_path_append)
  have "hd (as @ [l]) \<in> set (add # xs)" using snoc by (cases as) auto
  then have f: "hd (as @ [l]) \<notin> set (head # ys)" using disj by auto
  have "dl_path ?h head as l"
  proof (cases as)
    case Nil
    with upd dist disj snoc show ?thesis by (auto simp: hd_append)
  next
    case (Cons a bs)
    then have "dl_path h a bs l" using path(1) by simp
    then have "dl_path ?h a bs l"
      by (rule dl_path_keep) (use upd dist disj snoc Cons in \<open>auto simp: hd_append\<close>)
    with upd dist disj snoc Cons show ?thesis by (auto simp: hd_append)
  qed
  moreover have "dl_path ?h l ys head"
  proof (cases ys)
    case Nil
    with upd dist disj snoc show ?thesis by (auto simp: hd_append)
  next
    case (Cons y zs)
    then have "dl_path h y zs head" using path(2) by simp
    then have "dl_path ?h y zs head"
      by (rule dl_path_keep) (use upd dist disj snoc Cons f in auto)
    with upd dist disj snoc Cons f show ?thesis by auto
  qed
  ultimately show ?thesis
    using dist disj snoc by (auto simp: dl_rep_def dl_path_append)
qed

section \<open>The iteration macros\<close>

lemma list_for_each_path:
  "dl_path h a xs head \<Longrightarrow> head \<notin> set xs \<Longrightarrow> list_for_each h head (nxt h a) = Some xs"
proof (induction xs arbitrary: a)
  case Nil
  then show ?case by (simp add: list_for_each.simps)
next
  case (Cons x xs)
  then have "list_for_each h head (nxt h x) = Some xs" by simp
  with Cons.prems show ?case by (subst list_for_each.simps) auto
qed

lemma list_for_each_prev_path:
  "dl_path h head xs b \<Longrightarrow> head \<notin> set xs \<Longrightarrow>
    list_for_each_prev h head (prv h b) = Some (rev xs)"
proof (induction xs arbitrary: b rule: rev_induct)
  case Nil
  then show ?case by (simp add: list_for_each_prev.simps)
next
  case (snoc x xs)
  then have "list_for_each_prev h head (prv h x) = Some (rev xs)"
    by (simp add: dl_path_append)
  with snoc.prems show ?case by (subst list_for_each_prev.simps) (auto simp: dl_path_append)
qed

text \<open>
  Freeing while iterating: every node is visited once, in order, the list ends empty and
  the other lists are untouched.
\<close>

lemma list_del_each_safe_rep:
  assumes "dl_rep h head xs"
  shows "\<exists>h'. list_del_each_safe head (nxt h head) (nxt h (nxt h head)) h = Some (h', xs) \<and>
    dl_rep h' head [] \<and>
    (\<forall>other ys. dl_rep h other ys \<longrightarrow> set (head # xs) \<inter> set (other # ys) = {} \<longrightarrow> dl_rep h' other ys)"
  using assms
proof (induction xs arbitrary: h)
  case Nil
  then show ?case by (auto simp: list_del_each_safe.simps dl_rep_def)
next
  case (Cons x xs)
  let ?h = "list_del x h"
  have rep: "dl_rep ?h head xs"
    using list_del_rep [of h head "[]" x xs] Cons.prems by simp
  have cur: "nxt h head = x" "x \<noteq> head" "nxt h x = nxt ?h head"
    using Cons.prems dl_rep_next [OF rep] dl_path_first [of h x xs head]
    by (simp_all add: dl_rep_def)
  from Cons.IH [OF rep] obtain h' where
    h': "list_del_each_safe head (nxt ?h head) (nxt ?h (nxt ?h head)) ?h = Some (h', xs)"
      "dl_rep h' head []"
      "\<And>other ys. dl_rep ?h other ys \<Longrightarrow> set (head # xs) \<inter> set (other # ys) = {} \<Longrightarrow>
        dl_rep h' other ys"
    by blast
  have "list_del_each_safe head (nxt h head) (nxt h (nxt h head)) h = Some (h', x # xs)"
    using cur h'(1) by (subst list_del_each_safe.simps) (simp add: Let_def)
  moreover have "dl_rep h' other ys"
    if "dl_rep h other ys" "set (head # x # xs) \<inter> set (other # ys) = {}" for other ys
    using that list_del_frame [OF Cons.prems, of x other ys] h'(3) [of other ys] by auto
  ultimately show ?case using h'(2) by blast
qed

section \<open>The interface to the queues built on it\<close>

locale intrusive_queue =
  fixes rep :: "'h \<Rightarrow> 'p \<Rightarrow> 'p list \<Rightarrow> bool"
    and add_tail :: "'p \<Rightarrow> 'p \<Rightarrow> 'h \<Rightarrow> 'h"
    and del :: "'p \<Rightarrow> 'h \<Rightarrow> 'h"
    and is_empty :: "'p \<Rightarrow> 'h \<Rightarrow> bool"
    and front :: "'p \<Rightarrow> 'h \<Rightarrow> 'p"
  assumes rep_distinct: "rep h q xs \<Longrightarrow> distinct (q # xs)"
    and rep_is_empty: "rep h q xs \<Longrightarrow> is_empty q h \<longleftrightarrow> xs = []"
    and rep_front: "rep h q (x # xs) \<Longrightarrow> front q h = x"
    and rep_add_tail: "rep h q xs \<Longrightarrow> p \<notin> set (q # xs) \<Longrightarrow> rep (add_tail p q h) q (xs @ [p])"
    and rep_del: "rep h q xs \<Longrightarrow> p \<in> set xs \<Longrightarrow> rep (del p h) q (remove1 p xs)"
    and frame_add_tail: "rep h q xs \<Longrightarrow> rep h q' ys \<Longrightarrow>
      set (q # xs) \<inter> set (q' # ys) = {} \<Longrightarrow> p \<notin> set (q' # ys) \<Longrightarrow> rep (add_tail p q h) q' ys"
    and frame_del: "rep h q xs \<Longrightarrow> p \<in> set xs \<Longrightarrow> rep h q' ys \<Longrightarrow>
      set (q # xs) \<inter> set (q' # ys) = {} \<Longrightarrow> rep (del p h) q' ys"
begin

text \<open>
  The pattern all clients use: take a node out of one queue and append it to another one.
\<close>

lemma move_to_tail:
  assumes a: "rep h a xs" and b: "rep h b ys"
    and disj: "set (a # xs) \<inter> set (b # ys) = {}" and p: "p \<in> set xs"
  shows "rep (add_tail p b (del p h)) a (remove1 p xs)"
    and "rep (add_tail p b (del p h)) b (ys @ [p])"
proof -
  have a': "rep (del p h) a (remove1 p xs)" by (rule rep_del [OF a p])
  have b': "rep (del p h) b ys" by (rule frame_del [OF a p b disj])
  have p': "p \<notin> set (b # ys)" using disj p by auto
  show "rep (add_tail p b (del p h)) b (ys @ [p])" by (rule rep_add_tail [OF b' p'])
  have "p \<notin> set (a # remove1 p xs)" using rep_distinct [OF a] p by auto
  moreover have "set (b # ys) \<inter> set (a # remove1 p xs) = {}"
    using disj set_remove1_subset [of p xs] by auto
  ultimately show "rep (add_tail p b (del p h)) a (remove1 p xs)"
    by (intro frame_add_tail [OF b' a'])
qed

lemma move_front:
  assumes "rep h a (x # xs)" and "rep h b ys" and "set (a # x # xs) \<inter> set (b # ys) = {}"
  shows "rep (add_tail (front a h) b (del (front a h) h)) a xs"
    and "rep (add_tail (front a h) b (del (front a h) h)) b (ys @ [x])"
  using move_to_tail [OF assms, of x] rep_front [OF assms(1)] by simp_all

end

definition list_first :: "addr \<Rightarrow> dl_heap \<Rightarrow> addr" where
  "list_first head h = nxt h head"

interpretation dlq: intrusive_queue dl_rep list_add_tail list_del list_empty list_first
proof unfold_locales
  fix h :: dl_heap and q p q' :: addr and x xs ys
  show "dl_rep h q xs \<Longrightarrow> distinct (q # xs)" by (simp add: dl_rep_def)
  show "dl_rep h q xs \<Longrightarrow> list_empty q h \<longleftrightarrow> xs = []" by (rule list_empty_rep)
  show "dl_rep h q (x # xs) \<Longrightarrow> list_first q h = x"
    using dl_rep_next [of h q "x # xs"] by (simp add: list_first_def)
  show "dl_rep h q xs \<Longrightarrow> p \<notin> set (q # xs) \<Longrightarrow> dl_rep (list_add_tail p q h) q (xs @ [p])"
    by (rule list_add_tail_rep)
  show "dl_rep h q xs \<Longrightarrow> p \<in> set xs \<Longrightarrow> dl_rep (list_del p h) q (remove1 p xs)"
    by (rule list_del_rep_remove1)
  show "dl_rep h q xs \<Longrightarrow> dl_rep h q' ys \<Longrightarrow> set (q # xs) \<inter> set (q' # ys) = {} \<Longrightarrow>
      p \<notin> set (q' # ys) \<Longrightarrow> dl_rep (list_add_tail p q h) q' ys"
    by (rule list_add_tail_frame)
  show "dl_rep h q xs \<Longrightarrow> p \<in> set xs \<Longrightarrow> dl_rep h q' ys \<Longrightarrow>
      set (q # xs) \<inter> set (q' # ys) = {} \<Longrightarrow> dl_rep (list_del p h) q' ys"
    by (rule list_del_frame)
qed

end
