(* ===== verification/Snsd_Tlv.thy ===== *)
theory Snsd_Tlv
  imports Snsd_Types
begin

text \<open>
  The notification messages of \<open>src/snsd_server.c\<close>: checking the header of a received
  frame and decoding the sub TLVs of a notification into an \<open>nt_msg\<close>.  Packed structures
  that the code copies as a whole (the address union, the sequence number TLV, the additional
  information) are byte lists of their packed size; the 32-bit state and reason, which the code
  converts to host order, are numbers.

  A read is \<open>rd buf pos n\<close>, which is \<open>None\<close> outside the buffer, so a decoder that
  returns \<open>Some\<close> has not read out of bounds.  The 16-bit \<open>ntohs\<close> of a field that
  stays in memory swaps its two bytes, as it does on the little-endian machines the program runs
  on.
\<close>

section \<open>The notification message\<close>

definition NOTIFY_SUB_TLV1_SRC_IPV4 :: u8 where [simp]: "NOTIFY_SUB_TLV1_SRC_IPV4 = 1"
definition NOTIFY_SUB_TLV2_DST_IPV4 :: u8 where [simp]: "NOTIFY_SUB_TLV2_DST_IPV4 = 2"
definition NOTIFY_SUB_TLV3_SRC_IPV6 :: u8 where [simp]: "NOTIFY_SUB_TLV3_SRC_IPV6 = 3"
definition NOTIFY_SUB_TLV4_DST_IPV6 :: u8 where [simp]: "NOTIFY_SUB_TLV4_DST_IPV6 = 4"
definition NOTIFY_SUB_TLV5_SEQ :: u8 where [simp]: "NOTIFY_SUB_TLV5_SEQ = 5"
definition NOTIFY_SUB_TLV6_STATE :: u8 where [simp]: "NOTIFY_SUB_TLV6_STATE = 6"
definition NOTIFY_SUB_TLV7_REASON :: u8 where [simp]: "NOTIFY_SUB_TLV7_REASON = 7"
definition NOTIFY_SUB_TLV8_AD :: u8 where [simp]: "NOTIFY_SUB_TLV8_AD = 8"

definition SNSD_IPV4_NT_TLV_COMPLETE_FLAG :: u16 where
  [simp]: "SNSD_IPV4_NT_TLV_COMPLETE_FLAG = 0xF3"

definition SNSD_IPV6_NT_TLV_COMPLETE_FLAG :: u16 where
  [simp]: "SNSD_IPV6_NT_TLV_COMPLETE_FLAG = 0xFC"

definition SNSD_SEQ_NUM_LEN :: nat where [simp]: "SNSD_SEQ_NUM_LEN = 4"
definition SNSD_ADDTION_LEN_MAX :: nat where [simp]: "SNSD_ADDTION_LEN_MAX = 262"
definition SNSD_TLV_TAG_SIZE :: nat where [simp]: "SNSD_TLV_TAG_SIZE = 1"
definition SNSD_TLV_LEN_SIZE :: nat where [simp]: "SNSD_TLV_LEN_SIZE = 2"
definition SNSD_MAX_BUFFER_LEN :: nat where [simp]: "SNSD_MAX_BUFFER_LEN = 1514"
definition ETH_NTS_TYPE :: nat where [simp]: "ETH_NTS_TYPE = 0x88A7"
definition SNSD_NTF_VER :: u8 where [simp]: "SNSD_NTF_VER = 1"

text \<open>The packed sizes: \<open>struct ethhdr\<close>, \<open>nt_msg_header\<close> and the parts of a message.\<close>

definition sizeof_ethhdr :: nat where [simp]: "sizeof_ethhdr = 14"
definition sizeof_nt_msg_header :: nat where [simp]: "sizeof_nt_msg_header = 8"
definition sizeof_sub_tlv_type_ipv4 :: nat where [simp]: "sizeof_sub_tlv_type_ipv4 = 7"
definition sizeof_sub_tlv_type_ipv6 :: nat where [simp]: "sizeof_sub_tlv_type_ipv6 = 19"
definition sizeof_sub_tlv_type5 :: nat where [simp]: "sizeof_sub_tlv_type5 = 7"
definition sizeof_addation_info :: nat where [simp]: "sizeof_addation_info = 263"

record nt_msg =
  nm_ver :: u8
  nm_map :: u16
  nm_family :: nat
  nm_ip_tlv :: "u8 list"        \<comment> \<open>the union of the two address pairs, 38 bytes\<close>
  nm_seq_tlv :: "u8 list"       \<comment> \<open>\<open>sub_tlv_type5\<close>, 7 bytes\<close>
  nm_state_tl :: "u8 list"
  nm_state :: nat
  nm_reason_tl :: "u8 list"
  nm_reason :: nat
  nm_ad_tl :: "u8 list"
  nm_ad_info :: "u8 list"       \<comment> \<open>\<open>struct addation_info\<close>, 263 bytes\<close>

definition zero_nt_msg :: nt_msg where
  "zero_nt_msg = \<lparr>nm_ver = 0, nm_map = 0, nm_family = 0,
    nm_ip_tlv = replicate (2 * sizeof_sub_tlv_type_ipv6) 0,
    nm_seq_tlv = replicate sizeof_sub_tlv_type5 0, nm_state_tl = replicate 3 0, nm_state = 0,
    nm_reason_tl = replicate 3 0, nm_reason = 0, nm_ad_tl = replicate 3 0,
    nm_ad_info = replicate sizeof_addation_info 0\<rparr>"

text \<open>The members of the unions and of \<open>addation_info\<close>.\<close>

definition ipv4_src_ip :: "nt_msg \<Rightarrow> u8 list" where "ipv4_src_ip m = mem_get 3 4 (nm_ip_tlv m)"
definition ipv4_dst_ip :: "nt_msg \<Rightarrow> u8 list" where "ipv4_dst_ip m = mem_get 10 4 (nm_ip_tlv m)"
definition ipv6_src_ip :: "nt_msg \<Rightarrow> u8 list" where "ipv6_src_ip m = mem_get 3 16 (nm_ip_tlv m)"
definition ipv6_dst_ip :: "nt_msg \<Rightarrow> u8 list" where "ipv6_dst_ip m = mem_get 22 16 (nm_ip_tlv m)"
definition ad_role_type :: "nt_msg \<Rightarrow> u8" where "ad_role_type m = nm_ad_info m ! 0"
definition ad_proto_type :: "nt_msg \<Rightarrow> u8" where "ad_proto_type m = nm_ad_info m ! 1"
definition ad_nqn :: "nt_msg \<Rightarrow> u8 list" where "ad_nqn m = mem_get 7 256 (nm_ad_info m)"

text \<open>\<open>proto_port\<close> in host order, read from memory on a little-endian machine.\<close>

definition ad_proto_port :: "nt_msg \<Rightarrow> u16" where
  "ad_proto_port m = word_of_nat (be16_val (nm_ad_info m ! 5) (nm_ad_info m ! 4))"

section \<open>Reading the buffer\<close>

definition rd :: "u8 list \<Rightarrow> nat \<Rightarrow> nat \<Rightarrow> u8 list option" where
  "rd buf pos n = (if pos + n \<le> length buf then Some (mem_get pos n buf) else None)"

definition snsd_get_type :: "u8 list \<Rightarrow> nat \<Rightarrow> u8 option" where
  "snsd_get_type buf pos = (case rd buf pos 1 of Some [b] \<Rightarrow> Some b | _ \<Rightarrow> None)"

definition snsd_get_len :: "u8 list \<Rightarrow> nat \<Rightarrow> nat option" where
  "snsd_get_len buf pos = (case rd buf pos 2 of Some [a, b] \<Rightarrow> Some (be16_val a b) | _ \<Rightarrow> None)"

definition mrp_bridge :: "u8 list" where
  "mrp_bridge = [0x01, 0x80, 0xc2, 0x00, 0x00, 0x0d]"

text \<open>
  \<open>snsd_get_msg_header\<close>: \<open>buf\<close> is the whole receive buffer and \<open>len\<close> the number
  of bytes received; the result is the TLV length and the version.
\<close>

definition snsd_get_msg_header :: "u8 list \<Rightarrow> nat \<Rightarrow> (nat \<times> u8) result" where
  "snsd_get_msg_header buf len =
    (if len < sizeof_nt_msg_header + sizeof_ethhdr \<or> len > SNSD_MAX_BUFFER_LEN then Inl EACCES
     else if be16_val (buf ! 12) (buf ! 13) \<noteq> ETH_NTS_TYPE then Inl EACCES
     else if mem_get 0 6 buf \<noteq> mrp_bridge then Inl EACCES
     else
       let ver = buf ! sizeof_ethhdr in
       if ver > SNSD_NTF_VER then Inl EACCES
       else
         let tlv_sum_len = be16_val (buf ! (sizeof_ethhdr + 2)) (buf ! (sizeof_ethhdr + 3)) in
         if tlv_sum_len = 0 \<or> tlv_sum_len > len - (sizeof_nt_msg_header + sizeof_ethhdr)
         then Inl EACCES
         else Inr (tlv_sum_len, ver))"

section \<open>The sub TLV decoders\<close>

definition snsd_save_tl_info :: "u8 \<Rightarrow> nat \<Rightarrow> u8 list" where
  "snsd_save_tl_info ty len = ty # be16 len"

definition snsd_set_msg_valid_bit :: "u8 \<Rightarrow> nt_msg \<Rightarrow> nt_msg" where
  "snsd_set_msg_valid_bit ty m = m\<lparr>nm_map := nm_map m OR push_bit (unat ty - 1) 1\<rparr>"

definition snsd_check_msg_complete :: "u16 \<Rightarrow> bool" where
  "snsd_check_msg_complete m \<longleftrightarrow>
    m = SNSD_IPV4_NT_TLV_COMPLETE_FLAG \<or> m = SNSD_IPV6_NT_TLV_COMPLETE_FLAG"

type_synonym tlv_handler = "u8 list \<Rightarrow> nat \<Rightarrow> u8 \<Rightarrow> nat \<Rightarrow> nt_msg \<Rightarrow> nt_msg option"

text \<open>The four address handlers: the header and the address go to offset \<open>off\<close> of the union.\<close>

definition save_ip :: "nat \<Rightarrow> u8 \<Rightarrow> nat \<Rightarrow> u8 list \<Rightarrow> nt_msg \<Rightarrow> nt_msg" where
  "save_ip off ty len ip m =
    m\<lparr>nm_ip_tlv := mem_put (off + 3) ip (mem_put off (snsd_save_tl_info ty len) (nm_ip_tlv m))\<rparr>"

definition snsd_get_src_ipv4 :: tlv_handler where
  "snsd_get_src_ipv4 buf pos ty len m =
    (if len \<noteq> IPV4_ADDR_LENGTH then Some m
     else case rd buf pos IPV4_ADDR_LENGTH of
       None \<Rightarrow> None
     | Some ip \<Rightarrow> Some ((snsd_set_msg_valid_bit ty (save_ip 0 ty len ip m))\<lparr>nm_family := AF_INET\<rparr>))"

definition snsd_get_dst_ipv4 :: tlv_handler where
  "snsd_get_dst_ipv4 buf pos ty len m =
    (if len \<noteq> IPV4_ADDR_LENGTH then Some m
     else case rd buf pos IPV4_ADDR_LENGTH of
       None \<Rightarrow> None
     | Some ip \<Rightarrow> Some (snsd_set_msg_valid_bit ty (save_ip sizeof_sub_tlv_type_ipv4 ty len ip m)))"

definition snsd_get_src_ipv6 :: tlv_handler where
  "snsd_get_src_ipv6 buf pos ty len m =
    (if len \<noteq> IPV6_ADDR_LENGTH then Some m
     else case rd buf pos IPV6_ADDR_LENGTH of
       None \<Rightarrow> None
     | Some ip \<Rightarrow> Some ((snsd_set_msg_valid_bit ty (save_ip 0 ty len ip m))\<lparr>nm_family := AF_INET6\<rparr>))"

definition snsd_get_dst_ipv6 :: tlv_handler where
  "snsd_get_dst_ipv6 buf pos ty len m =
    (if len \<noteq> IPV6_ADDR_LENGTH then Some m
     else case rd buf pos IPV6_ADDR_LENGTH of
       None \<Rightarrow> None
     | Some ip \<Rightarrow> Some (snsd_set_msg_valid_bit ty (save_ip sizeof_sub_tlv_type_ipv6 ty len ip m)))"

definition snsd_get_client_seq :: tlv_handler where
  "snsd_get_client_seq buf pos ty len m =
    (if len \<noteq> SNSD_SEQ_NUM_LEN then Some m
     else case rd buf pos len of
       None \<Rightarrow> None
     | Some bs \<Rightarrow> Some (snsd_set_msg_valid_bit ty
         (m\<lparr>nm_seq_tlv := mem_put 3 bs (mem_put 0 (snsd_save_tl_info ty len) (nm_seq_tlv m))\<rparr>)))"

fun snsd_check_msg_len :: "u8 \<Rightarrow> nat \<Rightarrow> (u8 \<times> nat) list \<Rightarrow> bool" where
  "snsd_check_msg_len ver len [] = False"
| "snsd_check_msg_len ver len ((v, l) # infos) =
    (if ver = v \<and> len = l then True else snsd_check_msg_len ver len infos)"

definition snsd_check_state_len :: "u8 \<Rightarrow> nat \<Rightarrow> bool" where
  "snsd_check_state_len ver len = snsd_check_msg_len ver len [(0, 1), (1, 4)]"

definition snsd_check_reason_len :: "u8 \<Rightarrow> nat \<Rightarrow> bool" where
  "snsd_check_reason_len ver len = snsd_check_msg_len ver len [(0, 1), (1, 4)]"

text \<open>The value is copied to the end of a cleared 32-bit field and converted with \<open>ntohl\<close>.\<close>

definition ntohl_right :: "u8 list \<Rightarrow> nat" where
  "ntohl_right bs = be32_val (replicate (4 - length bs) 0 @ bs)"

definition snsd_get_client_state :: tlv_handler where
  "snsd_get_client_state buf pos ty len m =
    (if \<not> snsd_check_state_len (nm_ver m) len then Some m
     else case rd buf pos len of
       None \<Rightarrow> None
     | Some bs \<Rightarrow> Some (snsd_set_msg_valid_bit ty
         (m\<lparr>nm_state := ntohl_right bs, nm_state_tl := snsd_save_tl_info ty len\<rparr>)))"

definition snsd_get_nt_reason :: tlv_handler where
  "snsd_get_nt_reason buf pos ty len m =
    (if \<not> snsd_check_reason_len (nm_ver m) len then Some m
     else case rd buf pos len of
       None \<Rightarrow> None
     | Some bs \<Rightarrow> Some (snsd_set_msg_valid_bit ty
         (m\<lparr>nm_reason := ntohl_right bs, nm_reason_tl := snsd_save_tl_info ty len\<rparr>)))"

definition ntohs_at :: "nat \<Rightarrow> u8 list \<Rightarrow> u8 list" where
  "ntohs_at i bs = bs[i := bs ! (i + 1), i + 1 := bs ! i]"

definition snsd_get_ad_info :: tlv_handler where
  "snsd_get_ad_info buf pos ty len m =
    (if len > SNSD_ADDTION_LEN_MAX then Some m
     else case rd buf pos len of
       None \<Rightarrow> None
     | Some bs \<Rightarrow> Some (snsd_set_msg_valid_bit ty
         (m\<lparr>nm_ad_tl := snsd_save_tl_info ty len,
            nm_ad_info := ntohs_at 4 (mem_put 0 bs (nm_ad_info m))\<rparr>)))"

definition tlv_func :: "(u8 \<times> tlv_handler) list" where
  "tlv_func =
    [(NOTIFY_SUB_TLV1_SRC_IPV4, snsd_get_src_ipv4), (NOTIFY_SUB_TLV2_DST_IPV4, snsd_get_dst_ipv4),
     (NOTIFY_SUB_TLV3_SRC_IPV6, snsd_get_src_ipv6), (NOTIFY_SUB_TLV4_DST_IPV6, snsd_get_dst_ipv6),
     (NOTIFY_SUB_TLV5_SEQ, snsd_get_client_seq), (NOTIFY_SUB_TLV6_STATE, snsd_get_client_state),
     (NOTIFY_SUB_TLV7_REASON, snsd_get_nt_reason), (NOTIFY_SUB_TLV8_AD, snsd_get_ad_info)]"

definition snsd_get_value :: tlv_handler where
  "snsd_get_value buf pos ty len m =
    (case map_of tlv_func ty of Some pfn \<Rightarrow> pfn buf pos ty len m | None \<Rightarrow> Some m)"

text \<open>
  The loop of \<open>snsd_decode_sub_tlv\<close>: \<open>len\<close> is \<open>sub_tlv_len\<close>, the bytes
  accounted for so far.  Every round that does not leave the loop accounts for at least three more
  of the \<open>root_len\<close> bytes.
\<close>

function sub_tlv_loop :: "u8 list \<Rightarrow> nat \<Rightarrow> nat \<Rightarrow> nat \<Rightarrow> nt_msg \<Rightarrow> nt_msg option" where
  "sub_tlv_loop buf root_len pos len m =
    (let len = len + SNSD_TLV_TAG_SIZE in
     if len + SNSD_TLV_TAG_SIZE > root_len then Some m
     else case snsd_get_type buf pos of
       None \<Rightarrow> None
     | Some ty \<Rightarrow>
         let pos = pos + SNSD_TLV_TAG_SIZE; len = len + SNSD_TLV_LEN_SIZE in
         if len > root_len then Some m
         else case snsd_get_len buf pos of
           None \<Rightarrow> None
         | Some vlen \<Rightarrow>
             let pos = pos + SNSD_TLV_LEN_SIZE; len = len + vlen in
             if len > root_len then Some m
             else case snsd_get_value buf pos ty vlen m of
               None \<Rightarrow> None
             | Some m \<Rightarrow> sub_tlv_loop buf root_len (pos + vlen) len m)"
  by pat_completeness auto
termination by (relation "measure (\<lambda>(buf, root_len, pos, len, m). Suc root_len - len)") auto

definition snsd_decode_sub_tlv :: "u8 list \<Rightarrow> nat \<Rightarrow> nat \<Rightarrow> nt_msg \<Rightarrow> nt_msg option" where
  "snsd_decode_sub_tlv buf root_pos root_len m = sub_tlv_loop buf root_len root_pos 0 m"

declare sub_tlv_loop.simps [simp del]

end
