(* ===== verification/Snsd_Server.thy ===== *)
theory Snsd_Server
  imports Snsd_List Snsd_Tlv Snsd_Connect
begin

text \<open>
  \<open>src/snsd_server.c\<close>: the listeners and their host addresses, the pool of notification
  messages, the acknowledgement, the receive path and the dispatch to the connect layer, and the
  flood monitor.

  The 1000 preallocated messages live in two intrusive lists: \<open>sv_heap\<close> holds the links,
  node \<open>0\<close> is the head \<open>msg_recv_list\<close> of the free messages, node \<open>1\<close> the head
  \<open>msg_active_list\<close> of the posted ones, and \<open>sv_msgs\<close> the message of each node.
  A write outside a fixed buffer is \<open>None\<close> (\<open>wr\<close>).
\<close>

section \<open>State\<close>

definition SNSD_MAX_MSG_NUM :: nat where [simp]: "SNSD_MAX_MSG_NUM = 1000"
definition SNSD_MAX_LISTENER :: nat where [simp]: "SNSD_MAX_LISTENER = 64"
definition SNSD_MAX_IP_PHYPORT :: nat where [simp]: "SNSD_MAX_IP_PHYPORT = 64"
definition SNSD_MAX_TLV_LEN :: nat where [simp]: "SNSD_MAX_TLV_LEN = 1492"
definition SNSD_SERVER_MONITOR_PERIOD :: int where [simp]: "SNSD_SERVER_MONITOR_PERIOD = 500"
definition SNSD_SERVER_FLOOD_ATTACK_THRESHOLD :: nat where
  [simp]: "SNSD_SERVER_FLOOD_ATTACK_THRESHOLD = 500"
definition SNSD_SERVER_RECOVERY_CYCLES :: nat where [simp]: "SNSD_SERVER_RECOVERY_CYCLES = 20"
definition SNSD_CLIENT :: u8 where [simp]: "SNSD_CLIENT = 2"
definition SNSD_TLV_FORMAT_STRUCT :: u8 where [simp]: "SNSD_TLV_FORMAT_STRUCT = 0x20"
definition SNSD_MSG_NOTIFY_TYPE :: u8 where [simp]: "SNSD_MSG_NOTIFY_TYPE = 1"
definition SNSD_MSG_NOTIFY_ACK_TYPE :: u8 where [simp]: "SNSD_MSG_NOTIFY_ACK_TYPE = 2"
definition SNSD_MSG_NOTIFY_MASK :: u8 where [simp]: "SNSD_MSG_NOTIFY_MASK = 0x1f"

record port_related_info =
  pri_name :: "u8 list"
  pri_family :: nat
  pri_ip :: "u8 list"
  pri_mac :: "u8 list"
  pri_ifindex :: int

record listener =
  ls_fd :: int
  ls_host_ip :: "u8 list list"
  ls_addr_family :: nat
  ls_addr_ifindex :: int
  ls_addr_mac :: "u8 list"
  ls_if_name :: "u8 list"
  ls_rcv_cnt :: u64
  ls_last_samp_cnt :: u64
  ls_drop :: bool
  ls_drop_interval :: u32

record ack_msg =
  ak_dest :: "u8 list"
  ak_source :: "u8 list"
  ak_ver :: u8
  ak_tlv_len :: nat
  ak_payload :: "u8 list"

record server =
  sv_listeners :: "listener list"
  sv_last_semp_time :: int
  sv_heap :: dl_heap
  sv_msgs :: "addr \<Rightarrow> nt_msg"
  sv_drop_msg :: u64
  sv_ack :: ack_msg

definition msg_recv_list :: addr where [simp]: "msg_recv_list = 0"
definition msg_active_list :: addr where [simp]: "msg_active_list = 1"

definition zero_ip :: "u8 list" where
  "zero_ip = replicate IPV6_ADDR_LENGTH 0"

definition zero_listener :: listener where
  "zero_listener = \<lparr>ls_fd = 0, ls_host_ip = replicate SNSD_MAX_IP_PHYPORT zero_ip,
    ls_addr_family = 0, ls_addr_ifindex = 0, ls_addr_mac = replicate 6 0,
    ls_if_name = replicate 16 0, ls_rcv_cnt = 0, ls_last_samp_cnt = 0, ls_drop = False,
    ls_drop_interval = 0\<rparr>"

definition zero_ack :: ack_msg where
  "zero_ack = \<lparr>ak_dest = replicate 6 0, ak_source = replicate 6 0, ak_ver = 0, ak_tlv_len = 0,
    ak_payload = replicate SNSD_MAX_TLV_LEN 0\<rparr>"

definition wr :: "nat \<Rightarrow> u8 list \<Rightarrow> u8 list \<Rightarrow> u8 list option" where
  "wr off bs buf = (if off + length bs \<le> length buf then Some (mem_put off bs buf) else None)"

definition snsd_drop_msg_inc :: "server \<Rightarrow> server" where
  "snsd_drop_msg_inc s = s\<lparr>sv_drop_msg := sv_drop_msg s + 1\<rparr>"

section \<open>The message pool\<close>

text \<open>
  \<open>snsd_init_msg_resource\<close>: the nodes are \<open>2, 3, \<dots>\<close>; \<open>malloc_ok i\<close> is whether
  the i-th allocation succeeds.  When one fails, what was allocated is freed again.
\<close>

fun init_msg_loop :: "(nat \<Rightarrow> bool) \<Rightarrow> nat \<Rightarrow> nat \<Rightarrow> server \<Rightarrow> server \<times> nat" where
  "init_msg_loop malloc_ok idx 0 s = (s, idx)"
| "init_msg_loop malloc_ok idx (Suc n) s =
    (if \<not> malloc_ok idx then (s, idx)
     else init_msg_loop malloc_ok (idx + 1) n (s\<lparr>sv_msgs := (sv_msgs s)(idx + 2 := zero_nt_msg),
       sv_heap := list_add_tail (idx + 2) msg_recv_list (sv_heap s)\<rparr>))"

definition snsd_free_msg :: "addr \<Rightarrow> server \<Rightarrow> (server \<times> addr list) option" where
  "snsd_free_msg head s =
    (case list_del_each_safe head (nxt (sv_heap s) head) (nxt (sv_heap s) (nxt (sv_heap s) head)) (sv_heap s) of
       None \<Rightarrow> None
     | Some (h, freed) \<Rightarrow> Some (s\<lparr>sv_heap := h\<rparr>, freed))"

definition snsd_free_msg_resource :: "server \<Rightarrow> (server \<times> addr list) option" where
  "snsd_free_msg_resource s =
    (case snsd_free_msg msg_active_list s of
       None \<Rightarrow> None
     | Some (s, freed) \<Rightarrow>
         (case snsd_free_msg msg_recv_list s of
            None \<Rightarrow> None
          | Some (s, freed') \<Rightarrow> Some (s, freed @ freed')))"

definition snsd_init_msg_resource :: "(nat \<Rightarrow> bool) \<Rightarrow> server \<Rightarrow> (server \<times> unit result) option" where
  "snsd_init_msg_resource malloc_ok s =
    (let (s, idx) = init_msg_loop malloc_ok 0 SNSD_MAX_MSG_NUM s in
     if idx = SNSD_MAX_MSG_NUM then Some (s, Inr ())
     else map_option (\<lambda>(s, freed). (s, Inl ENOMEM)) (snsd_free_msg_resource s))"

definition snsd_init_listeners :: "int \<Rightarrow> server \<Rightarrow> server" where
  "snsd_init_listeners now s = s\<lparr>sv_last_semp_time := now,
    sv_listeners := map (\<lambda>l. l\<lparr>ls_fd := - 1, ls_drop := False\<rparr>) (sv_listeners s)\<rparr>"

definition snsd_init_sds_resource ::
  "(nat \<Rightarrow> bool) \<Rightarrow> int \<Rightarrow> (server \<times> unit result) option" where
  "snsd_init_sds_resource malloc_ok now =
    (let s = \<lparr>sv_listeners = replicate SNSD_MAX_LISTENER zero_listener, sv_last_semp_time = 0,
           sv_heap = \<lparr>nxt = (\<lambda>_. 0), prv = (\<lambda>_. 0)\<rparr>, sv_msgs = (\<lambda>_. zero_nt_msg), sv_drop_msg = 0,
           sv_ack = zero_ack\<rparr>;
         s = s\<lparr>sv_heap := INIT_LIST_HEAD msg_active_list (INIT_LIST_HEAD msg_recv_list (sv_heap s))\<rparr>;
         s = snsd_init_listeners now s
     in snsd_init_msg_resource malloc_ok (s\<lparr>sv_drop_msg := 0\<rparr>))"

definition snsd_post_one_msg :: "nt_msg \<Rightarrow> server \<Rightarrow> server \<times> bool" where
  "snsd_post_one_msg msg s =
    (if ad_role_type msg = SNSD_CLIENT then (s, True)
     else if \<not> list_empty msg_recv_list (sv_heap s) then
       let node = nxt (sv_heap s) msg_recv_list;
           h = list_del node (sv_heap s);
           s = s\<lparr>sv_msgs := (sv_msgs s)(node := msg)\<rparr>
       in (s\<lparr>sv_heap := list_add_tail node msg_active_list h\<rparr>, True)
     else (s, False))"

section \<open>Listeners\<close>

definition snsd_lookup_listener_id :: "int \<Rightarrow> server \<Rightarrow> server \<times> nat option" where
  "snsd_lookup_listener_id sock_fd s =
    (case first_idx (\<lambda>l. ls_fd l = - 1) (sv_listeners s) of
       None \<Rightarrow> (s, None)
     | Some i \<Rightarrow> (s\<lparr>sv_listeners := (sv_listeners s)[i := (sv_listeners s ! i)\<lparr>ls_fd := sock_fd\<rparr>]\<rparr>, Some i))"

text \<open>\<open>strncpy (dst, src, n)\<close>: up to the terminator, padded with zeros.\<close>

definition strncpy :: "u8 list \<Rightarrow> nat \<Rightarrow> u8 list" where
  "strncpy src n = (let cs = takeWhile (\<lambda>c. c \<noteq> 0) (take n src) in cs @ replicate (n - length cs) 0)"

definition snsd_update_server_sock :: "int \<Rightarrow> port_related_info \<Rightarrow> server \<Rightarrow> server \<times> unit result" where
  "snsd_update_server_sock sock_fd port s =
    (case snsd_lookup_listener_id sock_fd s of
       (s, None) \<Rightarrow> (s, Inl ENXIO)
     | (s, Some i) \<Rightarrow>
         (s\<lparr>sv_listeners := (sv_listeners s)[i := (sv_listeners s ! i)\<lparr>
              ls_addr_family := pri_family port, ls_addr_ifindex := pri_ifindex port,
              ls_addr_mac := pri_mac port, ls_if_name := (strncpy (pri_name port) 16)[15 := 0]\<rparr>]\<rparr>,
          Inr ()))"

text \<open>
  \<open>snsd_add_server\<close>: \<open>opts\<close> is the result of \<open>snsd_set_sock_options\<close> and
  \<open>epoll_ok\<close> whether \<open>epoll_ctl\<close> accepted the socket.
\<close>

definition snsd_add_server ::
  "unit result \<Rightarrow> bool \<Rightarrow> int \<Rightarrow> port_related_info \<Rightarrow> server \<Rightarrow> server \<times> unit result" where
  "snsd_add_server opts epoll_ok sock_fd port s =
    (case opts of
       Inl e \<Rightarrow> (s, Inl e)
     | Inr _ \<Rightarrow>
         (case snsd_update_server_sock sock_fd port s of
            (s, Inl e) \<Rightarrow> (s, Inl e)
          | (s, Inr _) \<Rightarrow> if epoll_ok then (s, Inr ()) else (s, Inl EPERM)))"

definition snsd_remove_server :: "int \<Rightarrow> server \<Rightarrow> server \<times> unit result" where
  "snsd_remove_server sock_fd s =
    (case first_idx (\<lambda>l. ls_fd l = sock_fd) (sv_listeners s) of
       None \<Rightarrow> (s, Inr ())
     | Some i \<Rightarrow> (s\<lparr>sv_listeners := (sv_listeners s)[i := (sv_listeners s ! i)\<lparr>ls_fd := - 1\<rparr>]\<rparr>, Inr ()))"

definition snsd_server_remove_all :: "server \<Rightarrow> server" where
  "snsd_server_remove_all s = s\<lparr>sv_listeners :=
    map (\<lambda>l. if ls_fd l \<noteq> - 1 then l\<lparr>ls_fd := - 1\<rparr> else l) (sv_listeners s)\<rparr>"

text \<open>The host address table of one listener: an all-zero slot is empty.\<close>

definition host_ip_add :: "u8 list \<Rightarrow> u8 list list \<Rightarrow> u8 list list option" where
  "host_ip_add ip tbl =
    (case first_idx (\<lambda>x. x = ip) tbl of
       Some _ \<Rightarrow> Some tbl
     | None \<Rightarrow>
         (case first_idx (\<lambda>x. x = zero_ip) tbl of
            Some i \<Rightarrow> Some (tbl[i := ip])
          | None \<Rightarrow> None))"

definition host_ip_remove :: "u8 list \<Rightarrow> u8 list list \<Rightarrow> u8 list list" where
  "host_ip_remove ip tbl =
    (case first_idx (\<lambda>x. x = ip) tbl of Some i \<Rightarrow> tbl[i := zero_ip] | None \<Rightarrow> tbl)"

definition snsd_add_server_ip :: "int \<Rightarrow> port_related_info \<Rightarrow> server \<Rightarrow> server \<times> unit result" where
  "snsd_add_server_ip sock_fd port s =
    (case first_idx (\<lambda>l. ls_fd l = sock_fd) (sv_listeners s) of
       None \<Rightarrow> (s, Inl ENODEV)
     | Some i \<Rightarrow>
         (case host_ip_add (pri_ip port) (ls_host_ip (sv_listeners s ! i)) of
            None \<Rightarrow> (s, Inl ENODEV)
          | Some tbl \<Rightarrow>
              (s\<lparr>sv_listeners := (sv_listeners s)[i := (sv_listeners s ! i)\<lparr>ls_host_ip := tbl\<rparr>]\<rparr>, Inr ())))"

definition snsd_remove_server_ip :: "int \<Rightarrow> port_related_info \<Rightarrow> server \<Rightarrow> server \<times> unit result" where
  "snsd_remove_server_ip sock_fd port s =
    (case first_idx (\<lambda>l. ls_fd l = sock_fd) (sv_listeners s) of
       None \<Rightarrow> (s, Inr ())
     | Some i \<Rightarrow>
         (s\<lparr>sv_listeners := (sv_listeners s)[i := (sv_listeners s ! i)\<lparr>ls_host_ip :=
              host_ip_remove (pri_ip port) (ls_host_ip (sv_listeners s ! i))\<rparr>]\<rparr>, Inr ()))"

datatype snsd_sock_event =
  SNSD_SOCK_CREATE | SNSD_SOCK_CLOSE | SNSD_SOCK_ADD_IP | SNSD_SOCK_REMOVE_IP |
  SNSD_SOCK_BUTT

definition snsd_update_server ::
  "unit result \<Rightarrow> bool \<Rightarrow> int \<Rightarrow> port_related_info \<Rightarrow> snsd_sock_event \<Rightarrow> server \<Rightarrow> server \<times> unit result" where
  "snsd_update_server opts epoll_ok sock_fd port event s =
    (case event of
       SNSD_SOCK_CREATE \<Rightarrow> snsd_add_server opts epoll_ok sock_fd port s
     | SNSD_SOCK_CLOSE \<Rightarrow> snsd_remove_server sock_fd s
     | SNSD_SOCK_ADD_IP \<Rightarrow> snsd_add_server_ip sock_fd port s
     | SNSD_SOCK_REMOVE_IP \<Rightarrow> snsd_remove_server_ip sock_fd port s
     | SNSD_SOCK_BUTT \<Rightarrow> (s, Inl EPERM))"

section \<open>The acknowledgement\<close>

definition snsd_build_ack_header :: "u8 list \<Rightarrow> server \<Rightarrow> server" where
  "snsd_build_ack_header mac s = s\<lparr>sv_ack := (sv_ack s)\<lparr>ak_dest := mrp_bridge,
    ak_source := mac, ak_ver := SNSD_NTF_VER, ak_tlv_len := 0\<rparr>\<rparr>"

text \<open>
  \<open>snsd_build_tlv_by_family\<close>: the ACK TLV with the address pair and the sequence number.
  The writes are those of the code, in its order.
\<close>

definition snsd_build_tlv_by_family :: "nt_msg \<Rightarrow> u8 list \<Rightarrow> ack_msg \<Rightarrow> ack_msg option" where
  "snsd_build_tlv_by_family msg ip_tlv a =
    (let ip_tlv_len = length ip_tlv; n = ak_tlv_len a in
     if n + (ip_tlv_len + sizeof_sub_tlv_type5) > SNSD_MAX_TLV_LEN then Some a
     else
       Option.bind (wr n [SNSD_MSG_NOTIFY_ACK_TYPE OR SNSD_TLV_FORMAT_STRUCT] (ak_payload a)) (\<lambda>p.
       Option.bind (wr (n + 1) (be16 (ip_tlv_len + sizeof_sub_tlv_type5)) p) (\<lambda>p.
       Option.bind (wr (n + 3) ip_tlv p) (\<lambda>p.
       Option.bind (wr (n + 3 + ip_tlv_len) (nm_seq_tlv msg) p) (\<lambda>p.
       Some (a\<lparr>ak_tlv_len := n + 3 + ip_tlv_len + sizeof_sub_tlv_type5, ak_payload := p\<rparr>))))))"

definition snsd_build_ack_tlv_info :: "nt_msg \<Rightarrow> ack_msg \<Rightarrow> ack_msg option" where
  "snsd_build_ack_tlv_info msg a =
    (if nm_family msg = AF_INET then
       snsd_build_tlv_by_family msg (take (2 * sizeof_sub_tlv_type_ipv4) (nm_ip_tlv msg)) a
     else if nm_family msg = AF_INET6 then
       snsd_build_tlv_by_family msg (take (2 * sizeof_sub_tlv_type_ipv6) (nm_ip_tlv msg)) a
     else Some a)"

text \<open>The frame \<open>snsd_send_ack\<close> hands to \<open>sendto\<close>, if any.\<close>

definition snsd_send_ack :: "ack_msg \<Rightarrow> u8 list option" where
  "snsd_send_ack a =
    (if ak_tlv_len a > SNSD_MAX_TLV_LEN \<or> ak_tlv_len a = 0 then None
     else Some (ak_dest a @ ak_source a @ be16 ETH_NTS_TYPE @
       [ak_ver a, 0] @ be16 (ak_tlv_len a) @ [0, 0, 0, 0] @ take (ak_tlv_len a) (ak_payload a)))"

section \<open>Receiving\<close>

definition snsd_check_hostip_consistent :: "u8 list list \<Rightarrow> nt_msg \<Rightarrow> bool" where
  "snsd_check_hostip_consistent host_ip msg =
    (if nm_family msg = AF_INET
     then list_ex (\<lambda>ip. snsd_ip_match AF_INET ip (ipv4_dst_ip msg)) host_ip
     else list_ex (\<lambda>ip. snsd_ip_match (nm_family msg) ip (ipv6_dst_ip msg)) host_ip)"

definition snsd_deal_one_msg :: "u8 list list \<Rightarrow> nt_msg \<Rightarrow> server \<Rightarrow> server option" where
  "snsd_deal_one_msg host_ip msg s =
    (if snsd_check_msg_complete (nm_map msg) then
       if snsd_check_hostip_consistent host_ip msg then
         let (s, posted) = snsd_post_one_msg msg s in
         if posted then map_option (\<lambda>a. s\<lparr>sv_ack := a\<rparr>) (snsd_build_ack_tlv_info msg (sv_ack s))
         else Some s
       else Some s
     else Some s)"

text \<open>
  The loop of \<open>snsd_decode_nt_tlv\<close> over the root TLVs of the TLV area \<open>buf\<close>.  A round
  that goes on moves \<open>pos\<close> by at least three bytes.
\<close>

function nt_tlv_loop :: "u8 list \<Rightarrow> u8 list list \<Rightarrow> u8 \<Rightarrow> nat \<Rightarrow> server \<Rightarrow> server option" where
  "nt_tlv_loop buf host_ip ver pos s =
    (let len = length buf; msg = zero_nt_msg\<lparr>nm_ver := ver\<rparr> in
     if pos + SNSD_TLV_TAG_SIZE > len then Some s
     else case snsd_get_type buf pos of
       None \<Rightarrow> None
     | Some root_type \<Rightarrow>
         if root_type AND SNSD_TLV_FORMAT_STRUCT = 0 \<or>
            root_type AND SNSD_MSG_NOTIFY_MASK \<noteq> SNSD_MSG_NOTIFY_TYPE
         then Some s
         else
           let pos = pos + SNSD_TLV_TAG_SIZE in
           if pos + SNSD_TLV_LEN_SIZE > len then Some s
           else case snsd_get_len buf pos of
             None \<Rightarrow> None
           | Some root_len \<Rightarrow>
               let pos = pos + SNSD_TLV_LEN_SIZE in
               if pos + root_len > len then Some s
               else case snsd_decode_sub_tlv buf pos root_len msg of
                 None \<Rightarrow> None
               | Some msg \<Rightarrow>
                   (case snsd_deal_one_msg host_ip msg s of
                      None \<Rightarrow> None
                    | Some s \<Rightarrow> nt_tlv_loop buf host_ip ver (pos + root_len) s))"
  by pat_completeness auto
termination by (relation "measure (\<lambda>(buf, host_ip, ver, pos, s). Suc (length buf) - pos)") auto

declare nt_tlv_loop.simps [simp del]

definition snsd_decode_nt_tlv :: "u8 list \<Rightarrow> u8 list list \<Rightarrow> u8 \<Rightarrow> server \<Rightarrow> server option" where
  "snsd_decode_nt_tlv buf host_ip ver s = nt_tlv_loop buf host_ip ver 0 s"

definition snsd_process_nt_msg :: "u8 list \<Rightarrow> nat \<Rightarrow> u8 list list \<Rightarrow> server \<Rightarrow> server option" where
  "snsd_process_nt_msg rcv_buf read_cnt host_ip s =
    (case snsd_get_msg_header rcv_buf read_cnt of
       Inl e \<Rightarrow> Some (snsd_drop_msg_inc s)
     | Inr (tlv_len, ver) \<Rightarrow>
         snsd_decode_nt_tlv (mem_get (sizeof_nt_msg_header + sizeof_ethhdr) tlv_len rcv_buf) host_ip ver s)"

definition snsd_get_server_listener :: "int \<Rightarrow> server \<Rightarrow> nat option" where
  "snsd_get_server_listener fd s = first_idx (\<lambda>l. ls_fd l = fd) (sv_listeners s)"

definition snsd_listener_msg_inc :: "int \<Rightarrow> server \<Rightarrow> server" where
  "snsd_listener_msg_inc fd s =
    (case first_idx (\<lambda>l. ls_fd l = fd) (sv_listeners s) of
       None \<Rightarrow> s
     | Some i \<Rightarrow> s\<lparr>sv_listeners := (sv_listeners s)[i := (sv_listeners s ! i)\<lparr>
         ls_rcv_cnt := ls_rcv_cnt (sv_listeners s ! i) + 1\<rparr>]\<rparr>)"

text \<open>
  \<open>snsd_client_notify\<close>: \<open>received\<close> is what \<open>recvmsg\<close> puts into the cleared
  receive buffer (\<open>None\<close> when it fails; at most the size of the buffer).  The result is the new
  state and the acknowledgement sent.
\<close>

definition snsd_client_notify ::
  "int \<Rightarrow> u8 list option \<Rightarrow> server \<Rightarrow> (server \<times> u8 list option) option" where
  "snsd_client_notify fd received s =
    (case snsd_get_server_listener fd s of
       None \<Rightarrow> Some (snsd_drop_msg_inc s, None)
     | Some i \<Rightarrow>
         let s = snsd_listener_msg_inc fd s;
             s = s\<lparr>sv_ack := zero_ack\<rparr>;
             rcv_buf = replicate SNSD_MAX_BUFFER_LEN 0
         in case received of
              None \<Rightarrow> Some (snsd_drop_msg_inc s, None)
            | Some bytes \<Rightarrow>
                let read_cnt = length bytes in
                if read_cnt = 0 then Some (snsd_drop_msg_inc s, None)
                else
                  Option.bind (wr 0 bytes rcv_buf) (\<lambda>rcv_buf.
                  Option.bind (wr read_cnt [0] rcv_buf) (\<lambda>rcv_buf.
                  if ls_drop (sv_listeners s ! i) then Some (snsd_drop_msg_inc s, None)
                  else
                    let s = snsd_build_ack_header (ls_addr_mac (sv_listeners s ! i)) s in
                    Option.bind (snsd_process_nt_msg rcv_buf read_cnt (ls_host_ip (sv_listeners s ! i)) s) (\<lambda>s.
                    Some (s, snsd_send_ack (sv_ack s))))))"

section \<open>Dispatching\<close>

definition NOTIFY_HOST_INACTIVE :: nat where [simp]: "NOTIFY_HOST_INACTIVE = 0"
definition NOTIFY_HOST_ACTIVE :: nat where [simp]: "NOTIFY_HOST_ACTIVE = 1"
definition NOTIFY_REASON_CHANGE_ZONE :: nat where [simp]: "NOTIFY_REASON_CHANGE_ZONE = 4"
definition NOTIFY_REASON_CHANGE_IP :: nat where [simp]: "NOTIFY_REASON_CHANGE_IP = 5"
definition NOTIFY_REASON_LLDP_AGE_OUT :: nat where [simp]: "NOTIFY_REASON_LLDP_AGE_OUT = 6"

definition notify_param :: "nt_msg \<Rightarrow> nat \<Rightarrow> connect_param" where
  "notify_param msg ty =
    zero_connect_param\<lparr>cp_family := nm_family msg,
      cp_host_traddr := (if nm_family msg = AF_INET then ipv4_dst_ip msg @ replicate 12 0
        else ipv6_dst_ip msg),
      cp_traddr := (if nm_family msg = AF_INET then ipv4_src_ip msg @ replicate 12 0
        else ipv6_src_ip msg),
      cp_subsysnqn := (strncpy (ad_nqn msg) 256)[255 := 0],
      cp_protocol := unat (ad_proto_type msg), cp_portid := ad_proto_port msg,
      cp_mode := SNSD_MODE_SW,
      cp_action_flag := (if ty \<noteq> NOTIFY_HOST_ACTIVE \<and>
          (nm_reason msg = NOTIFY_REASON_CHANGE_ZONE \<or> nm_reason msg = NOTIFY_REASON_CHANGE_IP \<or>
           nm_reason msg = NOTIFY_REASON_LLDP_AGE_OUT)
        then SNSD_DISCONNECT_FORCEDLY else 0)\<rparr>"

text \<open>\<open>snsd_connect_change\<close>: its result is only logged.\<close>

definition snsd_connect_change ::
  "('w, 'c) templates \<Rightarrow> 'w peon_env \<Rightarrow> nt_msg \<Rightarrow> nat \<Rightarrow> ('w, 'c) peon_sys \<Rightarrow>
    (('w, 'c) peon_sys \<times> unit result) call" where
  "snsd_connect_change ts env msg ty ps =
    (if ty = NOTIFY_HOST_ACTIVE then snsd_connect ts env (notify_param msg ty) ps
     else snsd_disconnect ts env (notify_param msg ty) ps)"

text \<open>What the loop does with one posted message; \<open>state\<close> is an \<open>unsigned char\<close>.\<close>

definition dispatch_one ::
  "('w, 'c) templates \<Rightarrow> 'w peon_env \<Rightarrow> nt_msg \<Rightarrow> ('w, 'c) peon_sys \<Rightarrow> ('w, 'c) peon_sys call" where
  "dispatch_one ts env msg ps =
    (let state = nm_state msg mod 256 in
     if state = NOTIFY_HOST_ACTIVE \<or> state = NOTIFY_HOST_INACTIVE
     then (case snsd_connect_change ts env msg state ps of
             Stuck \<Rightarrow> Stuck | Done (ps, _) \<Rightarrow> Done ps)
     else Done ps)"

partial_function (option) dispatch_loop ::
  "('w, 'c) templates \<Rightarrow> (addr \<Rightarrow> 'w peon_env) \<Rightarrow> addr \<Rightarrow> addr \<Rightarrow> server \<Rightarrow> ('w, 'c) peon_sys \<Rightarrow>
    (server \<times> ('w, 'c) peon_sys) call option" where
  "dispatch_loop ts envs cur next s ps =
    (if cur = msg_active_list then Some (Done (s, ps))
     else case dispatch_one ts (envs cur) (sv_msgs s cur) ps of
       Stuck \<Rightarrow> Some Stuck
     | Done ps' \<Rightarrow>
         let h = list_del cur (sv_heap s);
             s' = s\<lparr>sv_heap := list_add_tail cur msg_recv_list h,
                    sv_msgs := (sv_msgs s)(cur := zero_nt_msg)\<rparr>
         in dispatch_loop ts envs next (nxt (sv_heap s') next) s' ps')"

definition snsd_msg_dispatch ::
  "('w, 'c) templates \<Rightarrow> (addr \<Rightarrow> 'w peon_env) \<Rightarrow> server \<Rightarrow> ('w, 'c) peon_sys \<Rightarrow>
    (server \<times> ('w, 'c) peon_sys) call option" where
  "snsd_msg_dispatch ts envs s ps =
    dispatch_loop ts envs (nxt (sv_heap s) msg_active_list)
      (nxt (sv_heap s) (nxt (sv_heap s) msg_active_list)) s ps"

section \<open>The flood monitor\<close>

definition snsd_listener_state_change :: "bool \<Rightarrow> listener \<Rightarrow> listener" where
  "snsd_listener_state_change new_flag l =
    (if ls_drop l \<noteq> new_flag then
       if new_flag then l\<lparr>ls_drop_interval := 0, ls_drop := True\<rparr>
       else
         let l = l\<lparr>ls_drop_interval := ls_drop_interval l + 1\<rparr> in
         if unat (ls_drop_interval l) > SNSD_SERVER_RECOVERY_CYCLES then l\<lparr>ls_drop := False\<rparr> else l
     else l)"

definition sample_listener :: "nat \<Rightarrow> listener \<Rightarrow> listener" where
  "sample_listener threshold l =
    (let cur_cnt = ls_rcv_cnt l; last_cnt = ls_last_samp_cnt l;
         l = l\<lparr>ls_last_samp_cnt := cur_cnt\<rparr>
     in if cur_cnt > last_cnt then
          if unat (cur_cnt - last_cnt) \<ge> threshold then snsd_listener_state_change True l
          else snsd_listener_state_change False l
        else snsd_listener_state_change False l)"

definition snsd_listener_monitor :: "int \<Rightarrow> int \<Rightarrow> nat \<Rightarrow> server \<Rightarrow> server" where
  "snsd_listener_monitor now period threshold s =
    (let diff_t = now - sv_last_semp_time s in
     if diff_t < period then s
     else s\<lparr>sv_last_semp_time := now, sv_listeners := map (sample_listener threshold) (sv_listeners s)\<rparr>)"

definition snsd_attack_detect :: "int \<Rightarrow> server \<Rightarrow> server" where
  "snsd_attack_detect now s =
    snsd_listener_monitor now SNSD_SERVER_MONITOR_PERIOD SNSD_SERVER_FLOOD_ATTACK_THRESHOLD s"

end
