(* ===== verification/Snsd_Listeners.thy ===== *)
theory Snsd_Listeners
  imports Snsd_Server
begin

text \<open>
  The listener table of \<open>src/snsd_server.c\<close>: the host address slots of a listener are a
  bounded set (interface \<open>bounded_set\<close>), which addresses the receive path accepts, the life of
  a listener slot, and the flood monitor.
\<close>

section \<open>A table of slots as a bounded set\<close>

locale bounded_set =
  fixes invar :: "'t \<Rightarrow> bool"
    and valid :: "'a \<Rightarrow> bool"
    and member :: "'a \<Rightarrow> 't \<Rightarrow> bool"
    and add :: "'a \<Rightarrow> 't \<Rightarrow> 't option"
    and remove :: "'a \<Rightarrow> 't \<Rightarrow> 't"
  assumes member_valid: "invar t \<Longrightarrow> member x t \<Longrightarrow> valid x"
    and add_invar: "invar t \<Longrightarrow> valid x \<Longrightarrow> add x t = Some t' \<Longrightarrow> invar t'"
    and add_member: "invar t \<Longrightarrow> valid x \<Longrightarrow> add x t = Some t' \<Longrightarrow> member y t' \<longleftrightarrow> y = x \<or> member y t"
    and add_present: "invar t \<Longrightarrow> member x t \<Longrightarrow> add x t = Some t"
    and remove_invar: "invar t \<Longrightarrow> valid x \<Longrightarrow> invar (remove x t)"
    and remove_member: "invar t \<Longrightarrow> valid x \<Longrightarrow> member y (remove x t) \<longleftrightarrow> y \<noteq> x \<and> member y t"
begin

text \<open>A failed insertion is one of a new element; removing undoes an insertion.\<close>

lemma add_None_new: "invar t \<Longrightarrow> add x t = None \<Longrightarrow> \<not> member x t"
  using add_present by fastforce

lemma remove_add:
  assumes "invar t" and "valid x" and "add x t = Some t'" and "\<not> member x t"
  shows "member y (remove x t') \<longleftrightarrow> member y t"
  using remove_member [OF add_invar [OF assms(1-3)] assms(2)] add_member [OF assms(1-3)] assms(4) by auto

text \<open>After a removal there is room for the element again only if the insertion succeeds; then the set is back.\<close>

lemma add_remove:
  assumes "invar t" and "member x t" and "add x (remove x t) = Some t'"
  shows "member y t' \<longleftrightarrow> member y t"
  using add_member [OF remove_invar [OF assms(1)] _ assms(3)] member_valid [OF assms(1,2)]
    remove_member [OF assms(1)] assms(1,2) by auto

end

section \<open>The host addresses of a listener\<close>

definition valid_ip :: "u8 list \<Rightarrow> bool" where
  "valid_ip ip \<longleftrightarrow> length ip = 16 \<and> ip \<noteq> zero_ip"

definition slots_ok :: "u8 list list \<Rightarrow> bool" where
  "slots_ok tbl \<longleftrightarrow> length tbl = SNSD_MAX_IP_PHYPORT \<and> (\<forall>ip \<in> set tbl. length ip = 16) \<and>
    (\<forall>i < length tbl. \<forall>j < length tbl. tbl ! i = tbl ! j \<longrightarrow> tbl ! i \<noteq> zero_ip \<longrightarrow> i = j)"

definition has_ip :: "u8 list \<Rightarrow> u8 list list \<Rightarrow> bool" where
  "has_ip ip tbl \<longleftrightarrow> ip \<in> set tbl \<and> ip \<noteq> zero_ip"

lemma first_idx_eq_None: "first_idx (\<lambda>x. x = y) xs = None \<longleftrightarrow> y \<notin> set xs"
  by auto

lemma in_set_update: "i < length xs \<Longrightarrow> y \<in> set (xs[i := v]) \<longleftrightarrow> y = v \<or> (\<exists>j < length xs. j \<noteq> i \<and> xs ! j = y)"
  by (auto simp: in_set_conv_nth nth_list_update split: if_splits)

lemma slots_okD: "slots_ok tbl \<Longrightarrow> i < length tbl \<Longrightarrow> j < length tbl \<Longrightarrow> tbl ! i = tbl ! j \<Longrightarrow>
    tbl ! i \<noteq> zero_ip \<Longrightarrow> i = j"
  by (simp add: slots_ok_def)

lemma slots_ok_update:
  assumes "slots_ok tbl" and "i < length tbl" and "length ip = 16" and "ip = zero_ip \<or> ip \<notin> set tbl"
  shows "slots_ok (tbl[i := ip])"
proof -
  have n: "tbl ! j \<noteq> ip \<or> ip = zero_ip" if "j < length tbl" for j
    using assms(4) that by auto
  have inj: "a = b" if "a < length tbl" "b < length tbl" "tbl[i := ip] ! a = tbl[i := ip] ! b"
      "tbl[i := ip] ! a \<noteq> zero_ip" for a b
    using that n [of a] n [of b] slots_okD [OF assms(1), of a b] assms(2)
    by (auto simp: nth_list_update split: if_splits)
  then show ?thesis
    using assms(1-3) set_update_subset_insert [of tbl i ip] by (auto simp: slots_ok_def)
qed

lemma host_ip_remove_has:
  assumes "slots_ok tbl" and "valid_ip ip"
  shows "has_ip y (host_ip_remove ip tbl) \<longleftrightarrow> y \<noteq> ip \<and> has_ip y tbl"
proof (cases "first_idx (\<lambda>x. x = ip) tbl")
  case None
  then have "host_ip_remove ip tbl = tbl" by (simp add: host_ip_remove_def del: first_idx_None)
  moreover have "ip \<notin> set tbl" by (rule first_idx_eq_None [THEN iffD1, OF None])
  ultimately show ?thesis by (auto simp: has_ip_def)
next
  case (Some i)
  note f = first_idx_SomeD [OF Some]
  have nz: "ip \<noteq> zero_ip" using assms(2) by (simp add: valid_ip_def)
  have "y \<in> set (tbl[i := zero_ip]) \<longleftrightarrow> y \<noteq> ip \<and> y \<in> set tbl" if "y \<noteq> zero_ip" for y
    unfolding in_set_update [OF f(1)] unfolding in_set_conv_nth
    using slots_okD [OF assms(1) _ f(1)] f(1,2) that nz by metis
  then show ?thesis using Some nz by (auto simp: host_ip_remove_def has_ip_def)
qed

lemma host_ip_remove_ok:
  assumes "slots_ok tbl"
  shows "slots_ok (host_ip_remove ip tbl)"
proof (cases "first_idx (\<lambda>x. x = ip) tbl")
  case None
  with assms show ?thesis by (simp add: host_ip_remove_def del: first_idx_None)
next
  case (Some i)
  have "slots_ok (tbl[i := zero_ip])"
    by (rule slots_ok_update [OF assms first_idx_SomeD(1) [OF Some]]) (simp_all add: zero_ip_def)
  with Some show ?thesis by (simp add: host_ip_remove_def)
qed

lemma host_ip_add_cases:
  assumes "host_ip_add ip tbl = Some tbl'"
  obtains (present) "tbl' = tbl" "ip \<in> set tbl"
  | (new) i where "i < length tbl" "tbl' = tbl[i := ip]" "tbl ! i = zero_ip" "ip \<notin> set tbl"
proof (cases "first_idx (\<lambda>x. x = ip) tbl")
  case None
  then have ni: "ip \<notin> set tbl" by (simp add: first_idx_eq_None del: first_idx_None)
  from None assms obtain i where "first_idx (\<lambda>x. x = zero_ip) tbl = Some i" "tbl' = tbl[i := ip]"
    by (auto simp: host_ip_add_def simp del: first_idx_None split: option.splits)
  with first_idx_SomeD [OF this(1)] ni show thesis by (intro new) auto
next
  case (Some j)
  with assms first_idx_SomeD [OF Some] show thesis by (intro present) (auto simp: host_ip_add_def)
qed

lemma host_ip_add_room:
  assumes "zero_ip \<in> set tbl"
  shows "\<exists>tbl'. host_ip_add ip tbl = Some tbl'"
proof -
  obtain i where "first_idx (\<lambda>x. x = zero_ip) tbl = Some i"
    using first_idx_ex [OF assms, of "\<lambda>x. x = zero_ip"] by blast
  then show ?thesis by (cases "first_idx (\<lambda>x. x = ip) tbl") (simp_all add: host_ip_add_def del: first_idx_None)
qed

lemma host_ip_add_present: "has_ip ip tbl \<Longrightarrow> host_ip_add ip tbl = Some tbl"
  using first_idx_ex [of ip tbl "\<lambda>x. x = ip"] by (auto simp: host_ip_add_def has_ip_def)

lemma host_ip_add_ok:
  assumes "slots_ok tbl" and "valid_ip ip" and "host_ip_add ip tbl = Some tbl'"
  shows "slots_ok tbl'"
  using assms(3)
proof (cases rule: host_ip_add_cases)
  case present
  with assms(1) show ?thesis by simp
next
  case (new i)
  with slots_ok_update [OF assms(1), of i ip] assms(2) show ?thesis by (simp add: valid_ip_def)
qed

lemma host_ip_add_has:
  assumes "slots_ok tbl" and "valid_ip ip" and "host_ip_add ip tbl = Some tbl'"
  shows "has_ip y tbl' \<longleftrightarrow> y = ip \<or> has_ip y tbl"
  using assms(3)
proof (cases rule: host_ip_add_cases)
  case present
  with assms(2) show ?thesis by (auto simp: has_ip_def valid_ip_def)
next
  case (new i)
  have "y \<in> set tbl' \<longleftrightarrow> y = ip \<or> y \<in> set tbl" if "y \<noteq> zero_ip"
    unfolding new(2) in_set_update [OF new(1)] unfolding in_set_conv_nth using new(1,3) that by metis
  then show ?thesis using assms(2) by (auto simp: has_ip_def valid_ip_def)
qed

lemma has_ip_valid: "slots_ok tbl \<Longrightarrow> has_ip ip tbl \<Longrightarrow> valid_ip ip"
  by (simp add: slots_ok_def has_ip_def valid_ip_def)

interpretation host_ips: bounded_set slots_ok valid_ip has_ip host_ip_add host_ip_remove
proof unfold_locales
  fix t t' :: "u8 list list" and x y :: "u8 list"
  show "slots_ok t \<Longrightarrow> has_ip x t \<Longrightarrow> valid_ip x" by (rule has_ip_valid)
  show "slots_ok t \<Longrightarrow> valid_ip x \<Longrightarrow> host_ip_add x t = Some t' \<Longrightarrow> slots_ok t'"
    by (rule host_ip_add_ok)
  show "slots_ok t \<Longrightarrow> valid_ip x \<Longrightarrow> host_ip_add x t = Some t' \<Longrightarrow> has_ip y t' \<longleftrightarrow> y = x \<or> has_ip y t"
    by (rule host_ip_add_has)
  show "slots_ok t \<Longrightarrow> has_ip x t \<Longrightarrow> host_ip_add x t = Some t" by (rule host_ip_add_present)
  show "slots_ok t \<Longrightarrow> valid_ip x \<Longrightarrow> slots_ok (host_ip_remove x t)" by (rule host_ip_remove_ok)
  show "slots_ok t \<Longrightarrow> valid_ip x \<Longrightarrow> has_ip y (host_ip_remove x t) \<longleftrightarrow> y \<noteq> x \<and> has_ip y t"
    by (rule host_ip_remove_has)
qed

section \<open>Adding and removing host addresses\<close>

definition listener_of :: "int \<Rightarrow> server \<Rightarrow> nat option" where
  "listener_of fd s = first_idx (\<lambda>l. ls_fd l = fd) (sv_listeners s)"

text \<open>The host addresses of the socket \<open>fd\<close>.\<close>

definition host_set :: "int \<Rightarrow> server \<Rightarrow> u8 list set" where
  "host_set fd s = (case listener_of fd s of
    None \<Rightarrow> {} | Some i \<Rightarrow> {ip. has_ip ip (ls_host_ip (sv_listeners s ! i))})"

lemma first_idx_update:
  assumes "\<And>j. j < length xs \<Longrightarrow> P (xs[i := v] ! j) \<longleftrightarrow> P (xs ! j)"
  shows "first_idx P (xs[i := v]) = first_idx P xs"
proof (cases "first_idx P xs")
  case None
  then have "\<forall>j < length xs. \<not> P (xs ! j)" by (simp add: all_set_conv_all_nth)
  then have "first_idx P (xs[i := v]) = None" using assms by (simp add: all_set_conv_all_nth)
  then show ?thesis by (rule trans [OF _ None [symmetric]])
next
  case (Some k)
  then have "first_idx P (xs[i := v]) = Some k"
    using assms unfolding first_idx_Some by auto
  with Some show ?thesis by simp
qed

lemma listener_of_host_update:
  "listener_of fd (s\<lparr>sv_listeners := (sv_listeners s)[i := (sv_listeners s ! i)\<lparr>ls_host_ip := tbl\<rparr>]\<rparr>) =
    listener_of fd s"
  unfolding listener_of_def
  by (simp, rule first_idx_update, cases "i < length (sv_listeners s)") (auto simp: nth_list_update)

lemma host_set_update:
  assumes "listener_of fd s = Some i"
  shows "host_set fd' (s\<lparr>sv_listeners := (sv_listeners s)[i := (sv_listeners s ! i)\<lparr>ls_host_ip := tbl\<rparr>]\<rparr>) =
    (if fd' = fd then {ip. has_ip ip tbl} else host_set fd' s)"
proof -
  have i: "i < length (sv_listeners s)" "ls_fd (sv_listeners s ! i) = fd"
    using first_idx_SomeD [OF assms [unfolded listener_of_def]] by simp_all
  have ne: "j \<noteq> i" if "listener_of fd' s = Some j" "fd' \<noteq> fd" for j
    using first_idx_SomeD(2) [OF that(1) [unfolded listener_of_def]] i(2) that(2) by auto
  show ?thesis
    unfolding host_set_def listener_of_host_update using assms i ne by (auto split: option.split)
qed

lemma host_set_add:
  assumes "listener_of fd s = Some i" and "slots_ok (ls_host_ip (sv_listeners s ! i))"
    and "valid_ip (pri_ip port)" and "host_ip_add (pri_ip port) (ls_host_ip (sv_listeners s ! i)) = Some tbl"
  shows "snd (snsd_add_server_ip fd port s) = Inr ()"
    and "host_set fd (fst (snsd_add_server_ip fd port s)) = insert (pri_ip port) (host_set fd s)"
    and "fd' \<noteq> fd \<Longrightarrow> host_set fd' (fst (snsd_add_server_ip fd port s)) = host_set fd' s"
    and "listener_of fd' (fst (snsd_add_server_ip fd port s)) = listener_of fd' s"
proof -
  have f: "first_idx (\<lambda>l. ls_fd l = fd) (sv_listeners s) = Some i" using assms(1) by (simp add: listener_of_def)
  have hs: "host_set fd s = {ip. has_ip ip (ls_host_ip (sv_listeners s ! i))}"
    using assms(1) by (simp add: host_set_def)
  have "{y. has_ip y tbl} = insert (pri_ip port) (host_set fd s)"
    using host_ips.add_member [OF assms(2-4)] hs by auto
  then show "snd (snsd_add_server_ip fd port s) = Inr ()"
    and "host_set fd (fst (snsd_add_server_ip fd port s)) = insert (pri_ip port) (host_set fd s)"
    and "fd' \<noteq> fd \<Longrightarrow> host_set fd' (fst (snsd_add_server_ip fd port s)) = host_set fd' s"
    and "listener_of fd' (fst (snsd_add_server_ip fd port s)) = listener_of fd' s"
    using f assms(4)
    by (simp_all add: snsd_add_server_ip_def host_set_update [OF assms(1)] listener_of_host_update)
qed

text \<open>
  The host addresses of a listener behave as a bounded set: a successful
  \<open>snsd_add_server_ip\<close> adds exactly the address, it fails only when the socket has no listener
  or all 64 slots are taken by other addresses, \<open>snsd_remove_server_ip\<close> removes exactly the
  address, and neither changes the addresses of another socket.
\<close>

theorem host_ip_operations:
  assumes "listener_of fd s = Some i" and "slots_ok (ls_host_ip (sv_listeners s ! i))"
    and "valid_ip (pri_ip port)"
  shows "(case snsd_add_server_ip fd port s of
      (s', Inr _) \<Rightarrow> host_set fd s' = insert (pri_ip port) (host_set fd s) \<and>
        (\<forall>fd'. fd' \<noteq> fd \<longrightarrow> host_set fd' s' = host_set fd' s)
    | (s', Inl e) \<Rightarrow> s' = s \<and> e = ENODEV \<and> pri_ip port \<notin> host_set fd s \<and>
        zero_ip \<notin> set (ls_host_ip (sv_listeners s ! i))) \<and>
    host_set fd (fst (snsd_remove_server_ip fd port s)) = host_set fd s - {pri_ip port} \<and>
    (\<forall>fd'. fd' \<noteq> fd \<longrightarrow> host_set fd' (fst (snsd_remove_server_ip fd port s)) = host_set fd' s)"
proof -
  let ?tbl = "ls_host_ip (sv_listeners s ! i)" and ?ip = "pri_ip port"
  have f: "first_idx (\<lambda>l. ls_fd l = fd) (sv_listeners s) = Some i" using assms(1) by (simp add: listener_of_def)
  have hs: "host_set fd s = {ip. has_ip ip ?tbl}" using assms(1) by (simp add: host_set_def)
  have add: "case snsd_add_server_ip fd port s of
      (s', Inr _) \<Rightarrow> host_set fd s' = insert ?ip (host_set fd s) \<and>
        (\<forall>fd'. fd' \<noteq> fd \<longrightarrow> host_set fd' s' = host_set fd' s)
    | (s', Inl e) \<Rightarrow> s' = s \<and> e = ENODEV \<and> ?ip \<notin> host_set fd s \<and> zero_ip \<notin> set ?tbl"
  proof (cases "host_ip_add ?ip ?tbl")
    case None
    have "zero_ip \<notin> set ?tbl"
      using None first_idx_eq_None [of zero_ip ?tbl]
      by (auto simp: host_ip_add_def simp del: first_idx_None split: option.splits)
    moreover have "\<not> has_ip ?ip ?tbl" by (rule host_ips.add_None_new [OF assms(2) None])
    ultimately show ?thesis using None f hs by (simp add: snsd_add_server_ip_def)
  next
    case (Some tbl')
    from host_set_add [OF assms Some] show ?thesis by (simp add: split_beta split: sum.split)
  qed
  have "{y. has_ip y (host_ip_remove ?ip ?tbl)} = host_set fd s - {?ip}"
    using host_ips.remove_member [OF assms(2,3)] hs by auto
  with add show ?thesis using f by (simp add: snsd_remove_server_ip_def host_set_update [OF assms(1)])
qed

definition sample_port :: "u8 \<Rightarrow> port_related_info" where
  "sample_port n = \<lparr>pri_name = [101, 110, 48], pri_family = 2, pri_ip = [10, 0, 0, n] @ replicate 12 0,
    pri_mac = [1, 2, 3, 4, 5, 6], pri_ifindex = 3\<rparr>"

definition fresh_server :: server where
  "fresh_server = \<lparr>sv_listeners = [zero_listener\<lparr>ls_fd := 5\<rparr>, zero_listener\<lparr>ls_fd := - 1\<rparr>],
    sv_last_semp_time = 0, sv_heap = \<lparr>nxt = (\<lambda>_. 0), prv = (\<lambda>_. 0)\<rparr>, sv_msgs = (\<lambda>_. zero_nt_msg),
    sv_drop_msg = 0, sv_ack = zero_ack\<rparr>"

lemma fresh_server_facts:
  "listener_of 5 fresh_server = Some 0" "slots_ok (ls_host_ip (sv_listeners fresh_server ! 0))"
  "zero_ip \<in> set (ls_host_ip (sv_listeners fresh_server ! 0))"
  by (simp_all add: listener_of_def fresh_server_def slots_ok_def zero_listener_def zero_ip_def)

lemma sample_port_valid: "valid_ip (pri_ip (sample_port n))"
  by (auto simp: valid_ip_def sample_port_def zero_ip_def dest!: arg_cong [of _ _ hd])

theorem host_ip_operations_witness:
  "host_set 5 (fst (snsd_add_server_ip 5 (sample_port 1) fresh_server)) = {pri_ip (sample_port 1)}"
proof -
  have e: "host_set 5 fresh_server = {}"
    using fresh_server_facts(1) by (auto simp: host_set_def has_ip_def fresh_server_def zero_listener_def)
  from host_ip_operations [OF fresh_server_facts(1,2) sample_port_valid, of 1] fresh_server_facts(3) e
  show ?thesis by (auto split: prod.splits sum.splits)
qed

text \<open>
  The empty slots are addresses too: as long as a listener has a free slot, a notification
  whose destination is 0.0.0.0 (or ::) passes the check against the listener's host addresses.
\<close>

theorem unspecified_destination_accepted:
  assumes "zero_ip \<in> set host_ip" and "nm_family msg = AF_INET \<and> ipv4_dst_ip msg = replicate 4 0 \<or>
    nm_family msg = AF_INET6 \<and> ipv6_dst_ip msg = replicate 16 0"
  shows "snsd_check_hostip_consistent host_ip msg"
  using assms by (auto simp: snsd_check_hostip_consistent_def list_ex_iff snsd_ip_match_def zero_ip_def
      intro!: bexI [of _ "replicate 16 0"])

theorem unspecified_destination_accepted_witness:
  "snsd_check_hostip_consistent (ls_host_ip (sv_listeners fresh_server ! 0)) (zero_nt_msg\<lparr>nm_family := AF_INET\<rparr>)"
  by (rule unspecified_destination_accepted [OF fresh_server_facts(3)])
    (simp add: ipv4_dst_ip_def mem_get_def zero_nt_msg_def)

section \<open>The life of a listener slot\<close>

definition free_slots :: "server \<Rightarrow> nat" where
  "free_slots s = length (filter (\<lambda>l. ls_fd l = - 1) (sv_listeners s))"

lemma length_filter_update:
  "i < length xs \<Longrightarrow> P (xs ! i) \<Longrightarrow> \<not> P v \<Longrightarrow>
    length (filter P (xs[i := v])) + 1 = length (filter P xs)"
  by (induction xs arbitrary: i) (auto split: nat.splits simp: list_update.simps(2) nth_Cons)

lemma update_server_sock_Inr:
  assumes "first_idx (\<lambda>l. ls_fd l = - 1) (sv_listeners s) = Some i"
  shows "snd (snsd_update_server_sock fd port s) = Inr ()"
    and "sv_listeners (fst (snsd_update_server_sock fd port s)) = (sv_listeners s)[i :=
      (sv_listeners s ! i)\<lparr>ls_fd := fd, ls_addr_family := pri_family port,
        ls_addr_ifindex := pri_ifindex port, ls_addr_mac := pri_mac port,
        ls_if_name := (strncpy (pri_name port) 16)[15 := 0]\<rparr>]"
  using first_idx_SomeD(1) [OF assms] assms
  by (simp_all add: snsd_update_server_sock_def snsd_lookup_listener_id_def)

text \<open>
  Adding a server takes a slot even when it fails: if epoll refuses the socket,
  \<open>snsd_add_server\<close> reports \<open>EPERM\<close> but the listener slot stays taken; after 64 such
  failures no port can be served.
\<close>

theorem failed_add_server_leaks_slot:
  assumes "free_slots s > 0" and "fd \<noteq> - 1"
  shows "snd (snsd_add_server (Inr ()) False fd port s) = Inl EPERM \<and>
    free_slots (fst (snsd_add_server (Inr ()) False fd port s)) + 1 = free_slots s"
proof -
  have "filter (\<lambda>l. ls_fd l = - 1) (sv_listeners s) \<noteq> []" using assms(1) by (simp add: free_slots_def)
  then have "first_idx (\<lambda>l. ls_fd l = - 1) (sv_listeners s) \<noteq> None" by (simp add: filter_empty_conv)
  then obtain i where i: "first_idx (\<lambda>l. ls_fd l = - 1) (sv_listeners s) = Some i" by blast
  note u = update_server_sock_Inr [OF i, of fd port]
  obtain s' where s': "snsd_update_server_sock fd port s = (s', Inr ())"
    using u(1) by (cases "snsd_update_server_sock fd port s") simp
  obtain v where v: "sv_listeners s' = (sv_listeners s)[i := v]" "ls_fd v = fd"
    using u(2) s' by simp
  have "free_slots s' + 1 = free_slots s"
    unfolding free_slots_def v(1)
    by (rule length_filter_update [where P = "\<lambda>l. ls_fd l = - 1"])
      (use first_idx_SomeD [OF i] v(2) assms(2) in simp_all)
  then show ?thesis by (simp add: snsd_add_server_def s')
qed

theorem failed_add_server_leaks_slot_witness:
  "free_slots (fst (snsd_add_server (Inr ()) False 9 (sample_port 1) fresh_server)) = 0"
  using failed_add_server_leaks_slot [of fresh_server 9 "sample_port 1"]
  by (simp add: free_slots_def fresh_server_def zero_listener_def)

text \<open>
  Closing a socket does not clear its addresses: when the next socket gets the slot, it
  starts with the host addresses, the counters and the drop state of the closed one.
\<close>

theorem reused_slot_keeps_addresses:
  assumes "listener_of fd s = Some i" and "\<And>j. j < i \<Longrightarrow> ls_fd (sv_listeners s ! j) \<noteq> - 1"
    and "s1 = fst (snsd_remove_server fd s)" and "s2 = fst (snsd_add_server (Inr ()) True fd2 port s1)"
  shows "ls_fd (sv_listeners s2 ! i) = fd2 \<and>
    ls_host_ip (sv_listeners s2 ! i) = ls_host_ip (sv_listeners s ! i) \<and>
    ls_drop (sv_listeners s2 ! i) = ls_drop (sv_listeners s ! i)"
proof -
  have f: "first_idx (\<lambda>l. ls_fd l = fd) (sv_listeners s) = Some i" using assms(1) by (simp add: listener_of_def)
  note i = first_idx_SomeD [OF f]
  have s1: "sv_listeners s1 = (sv_listeners s)[i := (sv_listeners s ! i)\<lparr>ls_fd := - 1\<rparr>]"
    using f by (simp add: assms(3) snsd_remove_server_def)
  have "first_idx (\<lambda>l. ls_fd l = - 1) (sv_listeners s1) = Some i"
    using i(1) assms(2) by (simp add: first_idx_Some s1)
  note u = update_server_sock_Inr [OF this, of fd2 port]
  obtain s' where s': "snsd_update_server_sock fd2 port s1 = (s', Inr ())"
    using u(1) by (cases "snsd_update_server_sock fd2 port s1") simp
  have "s2 = s'" by (simp add: assms(4) snsd_add_server_def s')
  with u(2) s' i(1) show ?thesis by (simp add: s1)
qed

theorem reused_slot_keeps_addresses_witness:
  "let s = fst (snsd_add_server_ip 5 (sample_port 1) fresh_server);
       s2 = fst (snsd_add_server (Inr ()) True 9 (sample_port 2) (fst (snsd_remove_server 5 s)))
   in host_set 9 s2 = {pri_ip (sample_port 1)}"
proof -
  let ?s = "fst (snsd_add_server_ip 5 (sample_port 1) fresh_server)"
  let ?s2 = "fst (snsd_add_server (Inr ()) True 9 (sample_port 2) (fst (snsd_remove_server 5 ?s)))"
  obtain tbl where "host_ip_add (pri_ip (sample_port 1)) (ls_host_ip (sv_listeners fresh_server ! 0)) = Some tbl"
    using host_ip_add_room [OF fresh_server_facts(3)] by blast
  note a = host_set_add [OF fresh_server_facts(1,2) sample_port_valid this]
  have "host_set 5 fresh_server = {}"
    using fresh_server_facts(1) by (auto simp: host_set_def has_ip_def fresh_server_def zero_listener_def)
  with a(2) have e: "host_set 5 ?s = {pri_ip (sample_port 1)}" by simp
  have l: "listener_of 5 ?s = Some 0" using a(4) fresh_server_facts(1) by simp
  from reused_slot_keeps_addresses [OF l _ refl refl, of 9 "sample_port 2"]
  have r: "ls_fd (sv_listeners ?s2 ! 0) = 9" "ls_host_ip (sv_listeners ?s2 ! 0) = ls_host_ip (sv_listeners ?s ! 0)"
    by simp_all
  have "length (sv_listeners ?s2) = 2"
    by (simp add: fresh_server_def snsd_add_server_ip_def snsd_remove_server_def snsd_add_server_def
        snsd_update_server_sock_def snsd_lookup_listener_id_def split: option.split prod.split sum.split)
  with r have "listener_of 9 ?s2 = Some 0" by (simp add: listener_of_def first_idx_Some)
  with r e l show ?thesis by (simp add: host_set_def)
qed

section \<open>The flood monitor\<close>

text \<open>
  One sample of a listener that received \<open>n\<close> frames since the last one, and a run of samples.
\<close>

definition sample_after :: "nat \<Rightarrow> listener \<Rightarrow> listener" where
  "sample_after n l = sample_listener SNSD_SERVER_FLOOD_ATTACK_THRESHOLD
    (l\<lparr>ls_rcv_cnt := ls_last_samp_cnt l + word_of_nat n\<rparr>)"

definition calm :: "nat \<Rightarrow> bool" where
  "calm n \<longleftrightarrow> n < SNSD_SERVER_FLOOD_ATTACK_THRESHOLD"

text \<open>Away from the wrap-around of the 64-bit counter a sample is what its rate says.\<close>

lemma sample_after_eq:
  assumes "unat (ls_last_samp_cnt l) + n < 2 ^ 64"
  shows "sample_after n l = snsd_listener_state_change (\<not> calm n)
    (l\<lparr>ls_rcv_cnt := ls_last_samp_cnt l + word_of_nat n, ls_last_samp_cnt := ls_last_samp_cnt l + word_of_nat n\<rparr>)"
proof -
  let ?a = "ls_last_samp_cnt l" and ?n = "word_of_nat n :: u64"
  have n: "unat ?n = n" using assms by (simp add: unat_of_nat take_bit_nat_eq_self)
  have s: "unat (?a + ?n) = unat ?a + n"
    using assms n by (subst unat_word_ariths) (simp add: take_bit_eq_mod)
  have "?a < ?a + ?n \<longleftrightarrow> n > 0" by (simp add: word_less_nat_alt s)
  moreover have "unat (?a + ?n - ?a) = n" using n by simp
  ultimately show ?thesis
    by (auto simp: sample_after_def sample_listener_def Let_def calm_def)
qed

lemma state_change_sel [simp]:
  "ls_last_samp_cnt (snsd_listener_state_change b l) = ls_last_samp_cnt l"
  by (simp add: snsd_listener_state_change_def Let_def)

text \<open>While dropping, an attack sample changes nothing and a calm one counts.\<close>

lemma state_change_dropping:
  assumes "ls_drop l" and "unat (ls_drop_interval l) = k" and "k \<le> 20"
  shows "if b then snsd_listener_state_change b l = l
    else unat (ls_drop_interval (snsd_listener_state_change b l)) = k + 1 \<and>
      (ls_drop (snsd_listener_state_change b l) \<longleftrightarrow> k + 1 \<le> 20)"
proof -
  have "unat (ls_drop_interval l + 1) = k + 1"
    using assms(2,3) by (subst unat_word_ariths) (simp add: take_bit_eq_mod)
  then show ?thesis using assms by (auto simp: snsd_listener_state_change_def Let_def)
qed

lemma run_samples_dropping:
  assumes "ls_drop l" and "unat (ls_drop_interval l) + length (filter calm ns) \<le> 20"
    and "unat (ls_last_samp_cnt l) + sum_list ns < 2 ^ 64"
  shows "ls_drop (fold sample_after ns l) \<and>
    unat (ls_drop_interval (fold sample_after ns l)) = unat (ls_drop_interval l) + length (filter calm ns) \<and>
    unat (ls_last_samp_cnt (fold sample_after ns l)) = unat (ls_last_samp_cnt l) + sum_list ns"
  using assms
proof (induction ns arbitrary: l)
  case Nil
  then show ?case by simp
next
  case (Cons n ns)
  let ?cnt = "ls_last_samp_cnt l + word_of_nat n"
  let ?m = "l\<lparr>ls_rcv_cnt := ?cnt, ls_last_samp_cnt := ?cnt\<rparr>"
  have fits: "unat (ls_last_samp_cnt l) + n < 2 ^ 64" using Cons.prems(3) by simp
  have n: "unat (word_of_nat n :: u64) = n" using fits by (simp add: unat_of_nat take_bit_nat_eq_self)
  have c: "unat ?cnt = unat (ls_last_samp_cnt l) + n"
    using fits n by (subst unat_word_ariths) (simp add: take_bit_eq_mod)
  have eq: "sample_after n l = snsd_listener_state_change (\<not> calm n) ?m" by (rule sample_after_eq [OF fits])
  have k: "unat (ls_drop_interval l) \<le> 20" using Cons.prems(2) by simp
  have d: "if \<not> calm n then snsd_listener_state_change (\<not> calm n) ?m = ?m
    else unat (ls_drop_interval (snsd_listener_state_change (\<not> calm n) ?m)) = unat (ls_drop_interval l) + 1 \<and>
      (ls_drop (snsd_listener_state_change (\<not> calm n) ?m) \<longleftrightarrow> unat (ls_drop_interval l) + 1 \<le> 20)"
    by (rule state_change_dropping) (use Cons.prems(1) k in simp_all)
  have s: "ls_drop (sample_after n l)"
    "unat (ls_drop_interval (sample_after n l)) = unat (ls_drop_interval l) + length (filter calm [n])"
    "unat (ls_last_samp_cnt (sample_after n l)) = unat (ls_last_samp_cnt l) + n"
    using d eq Cons.prems(1,2) c by (auto split: if_splits)
  have "ls_drop (fold sample_after ns (sample_after n l)) \<and>
    unat (ls_drop_interval (fold sample_after ns (sample_after n l))) =
      unat (ls_drop_interval (sample_after n l)) + length (filter calm ns) \<and>
    unat (ls_last_samp_cnt (fold sample_after ns (sample_after n l))) =
      unat (ls_last_samp_cnt (sample_after n l)) + sum_list ns"
    by (rule Cons.IH [OF s(1)]) (use Cons.prems(2,3) s(2,3) in \<open>auto split: if_splits\<close>)
  then show ?case using s(2,3) by (simp split: if_splits)
qed

text \<open>
  A listener that starts to drop keeps dropping for exactly 20 calm samples and takes
  messages again with the 21st one, however many attack samples lie between them: an attack sample
  in the meantime does not start the recovery over.
\<close>

theorem flood_recovery:
  assumes "ls_drop l" and "ls_drop_interval l = 0" and "length (filter calm ns) = SNSD_SERVER_RECOVERY_CYCLES"
    and "calm n" and "unat (ls_last_samp_cnt l) + sum_list ns + n < 2 ^ 64"
  shows "ls_drop (fold sample_after ns l) \<and> \<not> ls_drop (fold sample_after (ns @ [n]) l)"
proof -
  let ?l = "fold sample_after ns l"
  have r: "ls_drop ?l" "unat (ls_drop_interval ?l) = 20"
    "unat (ls_last_samp_cnt ?l) = unat (ls_last_samp_cnt l) + sum_list ns"
    using run_samples_dropping [OF assms(1), of ns] assms(2,3,5) by simp_all
  have fits: "unat (ls_last_samp_cnt ?l) + n < 2 ^ 64" using r(3) assms(5) by simp
  have "\<not> ls_drop (sample_after n ?l)"
    unfolding sample_after_eq [OF fits]
    using state_change_dropping [of "?l\<lparr>ls_rcv_cnt := ls_last_samp_cnt ?l + word_of_nat n,
      ls_last_samp_cnt := ls_last_samp_cnt ?l + word_of_nat n\<rparr>" 20 False] r(1,2) assms(4) by simp
  with r(1) show ?thesis by simp
qed

theorem flood_recovery_witness:
  "\<not> ls_drop (fold sample_after ((replicate 20 1 @ [700]) @ [2]) (zero_listener\<lparr>ls_drop := True\<rparr>))"
  using flood_recovery [of "zero_listener\<lparr>ls_drop := True\<rparr>" "replicate 20 1 @ [700]" 2]
  by (simp add: calm_def zero_listener_def sum_list_replicate)

end
