(* ===== verification/Snsd_Tlv_Props.thy ===== *)
theory Snsd_Tlv_Props
  imports Snsd_Tlv
begin

text \<open>
  What decoding a notification does: the loop agrees with a structural parser of TLV lists and
  reads nothing outside the value of its root TLV; a message whose map is complete has one address
  family and the addresses, sequence number, state and additional information that were sent.
\<close>

section \<open>Well-formed messages\<close>

definition nt_msg_ok :: "nt_msg \<Rightarrow> bool" where
  "nt_msg_ok m \<longleftrightarrow> length (nm_ip_tlv m) = 38 \<and> length (nm_seq_tlv m) = 7 \<and>
    length (nm_ad_info m) = 263 \<and> nm_state m < 2 ^ 32 \<and> nm_reason m < 2 ^ 32"

lemma zero_nt_msg_ok: "nt_msg_ok (zero_nt_msg\<lparr>nm_ver := v\<rparr>)"
  by (simp add: nt_msg_ok_def zero_nt_msg_def)

lemma rd_Some [simp]: "rd buf pos n = Some bs \<longleftrightarrow> pos + n \<le> length buf \<and> bs = mem_get pos n buf"
  by (auto simp: rd_def)

lemma length_save_tl_info [simp]: "length (snsd_save_tl_info ty n) = 3"
  by (simp add: snsd_save_tl_info_def)

lemma set_valid_bit_simps [simp]:
  "nm_ip_tlv (snsd_set_msg_valid_bit ty m) = nm_ip_tlv m"
  "nm_seq_tlv (snsd_set_msg_valid_bit ty m) = nm_seq_tlv m"
  "nm_ad_info (snsd_set_msg_valid_bit ty m) = nm_ad_info m"
  "nm_state (snsd_set_msg_valid_bit ty m) = nm_state m"
  "nm_reason (snsd_set_msg_valid_bit ty m) = nm_reason m"
  "nm_family (snsd_set_msg_valid_bit ty m) = nm_family m"
  "nm_ver (snsd_set_msg_valid_bit ty m) = nm_ver m"
  by (simp_all add: snsd_set_msg_valid_bit_def)

lemma save_ip_simps [simp]:
  "nm_seq_tlv (save_ip off ty n ip m) = nm_seq_tlv m" "nm_ad_info (save_ip off ty n ip m) = nm_ad_info m"
  "nm_state (save_ip off ty n ip m) = nm_state m" "nm_reason (save_ip off ty n ip m) = nm_reason m"
  "nm_family (save_ip off ty n ip m) = nm_family m" "nm_ver (save_ip off ty n ip m) = nm_ver m"
  "nm_map (save_ip off ty n ip m) = nm_map m"
  by (simp_all add: save_ip_def)

lemma length_save_ip:
  "length (nm_ip_tlv m) = 38 \<Longrightarrow> off + 3 + length ip \<le> 38 \<Longrightarrow> length (nm_ip_tlv (save_ip off ty n ip m)) = 38"
  by (simp add: save_ip_def)

lemma foldl_be32_less:
  "foldl (\<lambda>n b. 256 * n + unat (b :: u8)) a bs < (a + 1) * 256 ^ length bs"
proof (induction bs arbitrary: a)
  case Nil
  then show ?case by simp
next
  case (Cons b bs)
  have "(256 * a + unat b + 1) * 256 ^ length bs \<le> (a + 1) * 256 * 256 ^ length bs"
    using unat_lt_256 [of b] by (intro mult_right_mono) simp_all
  also have "\<dots> = (a + 1) * 256 ^ length (b # bs)" by (simp add: algebra_simps)
  finally show ?case using Cons [of "256 * a + unat b"] by simp
qed

lemma ntohl_right_less: "length bs \<le> 4 \<Longrightarrow> ntohl_right bs < 4294967296"
  using foldl_be32_less [of 0 "replicate (4 - length bs) 0 @ bs"]
  by (simp add: ntohl_right_def be32_val_def)

lemma check_len_cases [simp]:
  "snsd_check_state_len v n \<longleftrightarrow> v = 0 \<and> n = 1 \<or> v = 1 \<and> n = 4"
  "snsd_check_reason_len v n \<longleftrightarrow> v = 0 \<and> n = 1 \<or> v = 1 \<and> n = 4"
  by (auto simp: snsd_check_state_len_def snsd_check_reason_len_def)

lemmas handler_defs = snsd_get_src_ipv4_def snsd_get_dst_ipv4_def snsd_get_src_ipv6_def
  snsd_get_dst_ipv6_def snsd_get_client_seq_def snsd_get_client_state_def snsd_get_nt_reason_def
  snsd_get_ad_info_def

lemma snsd_get_value_cases:
  obtains "snsd_get_value buf pos ty n m = snsd_get_src_ipv4 buf pos ty n m" "ty = 1"
  | "snsd_get_value buf pos ty n m = snsd_get_dst_ipv4 buf pos ty n m" "ty = 2"
  | "snsd_get_value buf pos ty n m = snsd_get_src_ipv6 buf pos ty n m" "ty = 3"
  | "snsd_get_value buf pos ty n m = snsd_get_dst_ipv6 buf pos ty n m" "ty = 4"
  | "snsd_get_value buf pos ty n m = snsd_get_client_seq buf pos ty n m" "ty = 5"
  | "snsd_get_value buf pos ty n m = snsd_get_client_state buf pos ty n m" "ty = 6"
  | "snsd_get_value buf pos ty n m = snsd_get_nt_reason buf pos ty n m" "ty = 7"
  | "snsd_get_value buf pos ty n m = snsd_get_ad_info buf pos ty n m" "ty = 8"
  | "snsd_get_value buf pos ty n m = Some m" "ty \<notin> {1, 2, 3, 4, 5, 6, 7, 8}"
  unfolding snsd_get_value_def tlv_func_def by (simp split: if_splits) blast

text \<open>A handler whose value lies in the buffer reads only the value, and succeeds.\<close>

lemma snsd_get_value_local:
  assumes "pos + n \<le> length buf"
  shows "\<exists>m'. snsd_get_value buf pos ty n m = Some m' \<and>
    snsd_get_value (mem_get pos n buf) 0 ty n m = Some m'"
proof -
  let ?v = "mem_get pos n buf"
  have r: "rd buf pos n = Some ?v" "rd ?v 0 n = Some ?v"
    using assms by (simp_all add: mem_get_def)
  let ?P = "\<lambda>h :: tlv_handler. \<forall>t. \<exists>m'. h buf pos t n m = Some m' \<and> h ?v 0 t n m = Some m'"
  have "?P snsd_get_src_ipv4 \<and> ?P snsd_get_dst_ipv4"
    using r by (cases "n = 4") (auto simp: handler_defs simp del: rd_Some)
  moreover have "?P snsd_get_src_ipv6 \<and> ?P snsd_get_dst_ipv6"
    using r by (cases "n = 16") (auto simp: handler_defs simp del: rd_Some)
  moreover have "?P snsd_get_client_seq \<and> ?P snsd_get_client_state \<and> ?P snsd_get_nt_reason \<and>
      ?P snsd_get_ad_info"
    using r by (auto simp: handler_defs simp del: rd_Some)
  ultimately show ?thesis
    by (simp add: snsd_get_value_def tlv_func_def)
qed

lemma snsd_get_value_ok:
  assumes "snsd_get_value buf pos ty n m = Some m'" and "nt_msg_ok m"
  shows "nt_msg_ok m'"
  using assms unfolding snsd_get_value_def tlv_func_def
  by (auto simp: handler_defs nt_msg_ok_def length_save_ip ntohs_at_def ntohl_right_less
      split: if_splits option.splits)

section \<open>The loop and a structural parser\<close>

text \<open>The TLVs of a byte string, up to the first one that does not fit.\<close>

fun tlvs :: "u8 list \<Rightarrow> (u8 \<times> u8 list) list" where
  "tlvs (t # a # b # rest) =
    (let n = be16_val a b in if n \<le> length rest then (t, take n rest) # tlvs (drop n rest) else [])"
| "tlvs _ = []"

definition apply_tlv :: "nt_msg \<Rightarrow> u8 \<times> u8 list \<Rightarrow> nt_msg" where
  "apply_tlv m tv = the (snsd_get_value (snd tv) 0 (fst tv) (length (snd tv)) m)"

lemma mem_get_Suc: "pos < length buf \<Longrightarrow> mem_get pos (Suc n) buf = buf ! pos # mem_get (Suc pos) n buf"
  by (simp add: mem_get_def Cons_nth_drop_Suc [symmetric])

lemma get_type_in: "pos < length buf \<Longrightarrow> snsd_get_type buf pos = Some (buf ! pos)"
  by (simp add: snsd_get_type_def rd_def mem_get_def Cons_nth_drop_Suc [symmetric])

lemma get_len_in:
  "Suc pos < length buf \<Longrightarrow> snsd_get_len buf pos = Some (be16_val (buf ! pos) (buf ! Suc pos))"
  by (simp add: snsd_get_len_def rd_def mem_get_def Cons_nth_drop_Suc [symmetric] numeral_2_eq_2)

lemma tlvs_short: "length xs < 3 \<Longrightarrow> tlvs xs = []"
  by (cases xs rule: tlvs.cases) auto

lemma take_mem_get: "n \<le> k \<Longrightarrow> take n (mem_get pos k buf) = mem_get pos n buf"
  by (simp add: mem_get_def min_def)

lemma drop_mem_get: "drop n (mem_get pos k buf) = mem_get (pos + n) (k - n) buf"
  by (simp add: mem_get_def drop_take add.commute)

lemma sub_tlv_loop_tlvs:
  assumes "len \<le> root_len" and "pos + (root_len - len) \<le> length buf"
  shows "sub_tlv_loop buf root_len pos len m =
    Some (foldl apply_tlv m (tlvs (mem_get pos (root_len - len) buf)))"
  using assms
proof (induction "root_len - len" arbitrary: pos len m rule: less_induct)
  case less
  let ?k = "root_len - len"
  show ?case
  proof (cases "?k < 3")
    case True
    have "tlvs (mem_get pos ?k buf) = []"
      by (rule tlvs_short) (use True less.prems in simp)
    moreover have "sub_tlv_loop buf root_len pos len m = Some m"
      using True less.prems get_type_in [of pos buf]
      by (subst sub_tlv_loop.simps) (auto simp: Let_def)
    ultimately show ?thesis by simp
  next
    case False
    then obtain k where k: "?k = Suc (Suc (Suc k))"
      by (metis Suc_diff_Suc diff_0_eq_0 less_Suc_eq_0_disj linorder_not_less numeral_3_eq_3
          not0_implies_Suc less_Suc_eq)
    let ?t = "buf ! pos" and ?a = "buf ! Suc pos" and ?b = "buf ! Suc (Suc pos)"
    let ?n = "be16_val ?a ?b"
    have bounds: "pos < length buf" "Suc pos < length buf" "Suc (Suc pos) < length buf"
      using less.prems k by simp_all
    have area: "mem_get pos ?k buf = ?t # ?a # ?b # mem_get (pos + 3) k buf"
      unfolding k by (simp add: mem_get_Suc bounds numeral_3_eq_3)
    have lk: "length (mem_get (pos + 3) k buf) = k" using less.prems k by simp
    have step: "sub_tlv_loop buf root_len pos len m =
      (if ?n \<le> k then case snsd_get_value buf (pos + 3) ?t ?n m of
           None \<Rightarrow> None | Some m \<Rightarrow> sub_tlv_loop buf root_len (pos + 3 + ?n) (len + 3 + ?n) m
       else Some m)"
      using k less.prems(1)
      by (subst sub_tlv_loop.simps)
        (auto simp: Let_def get_type_in get_len_in bounds numeral_3_eq_3 split: option.splits)
    show ?thesis
    proof (cases "?n \<le> k")
      case False
      then show ?thesis unfolding step area by (simp add: lk Let_def)
    next
      case True
      have inb: "pos + 3 + ?n \<le> length buf" using less.prems k True by simp
      obtain m' where m': "snsd_get_value buf (pos + 3) ?t ?n m = Some m'"
        "snsd_get_value (mem_get (pos + 3) ?n buf) 0 ?t ?n m = Some m'"
        using snsd_get_value_local [OF inb] by blast
      have "sub_tlv_loop buf root_len (pos + 3 + ?n) (len + 3 + ?n) m' =
          Some (foldl apply_tlv m' (tlvs (mem_get (pos + 3 + ?n) (root_len - (len + 3 + ?n)) buf)))"
        by (rule less.hyps) (use k True less.prems in auto)
      moreover have "root_len - (len + 3 + ?n) = k - ?n" using k by simp
      moreover have "apply_tlv m (?t, mem_get (pos + 3) ?n buf) = m'"
        using m'(2) inb by (simp add: apply_tlv_def)
      moreover have "tlvs (mem_get pos ?k buf) =
          (?t, mem_get (pos + 3) ?n buf) # tlvs (mem_get (pos + 3 + ?n) (k - ?n) buf)"
        unfolding area using True by (simp add: lk Let_def take_mem_get drop_mem_get)
      ultimately show ?thesis unfolding step using True m'(1) by simp
    qed
  qed
qed

text \<open>
  C4: for a root value inside the buffer, \<open>snsd_decode_sub_tlv\<close> never reads outside it and
  applies exactly the TLVs a structural parser finds in it, in order: a TLV that does not fit ends
  the message, and unknown types and wrong lengths change nothing.
\<close>

theorem snsd_decode_sub_tlv_spec:
  assumes "root_pos + root_len \<le> length buf"
  shows "snsd_decode_sub_tlv buf root_pos root_len m =
    Some (foldl apply_tlv m (tlvs (mem_get root_pos root_len buf)))"
  using sub_tlv_loop_tlvs [of 0 root_len root_pos buf m] assms by (simp add: snsd_decode_sub_tlv_def)

theorem snsd_decode_sub_tlv_spec_witness:
  "map_option nm_map (snsd_decode_sub_tlv [9, 1, 0, 4, 10, 0, 0, 1, 7] 1 7 zero_nt_msg) =
    Some (nm_map (apply_tlv zero_nt_msg (1, [10, 0, 0, 1])))"
  using snsd_decode_sub_tlv_spec [of 1 7 "[9, 1, 0, 4, 10, 0, 0, 1, 7]" zero_nt_msg]
  by (simp add: mem_get_def be16_val_def)

section \<open>What a complete message says\<close>

lemma mem_get_save_ip:
  assumes "length (nm_ip_tlv m) = 38" and "off + 3 + length ip \<le> 38"
  shows "mem_get off (3 + length ip) (nm_ip_tlv (save_ip off ty n ip m)) = snsd_save_tl_info ty n @ ip"
  using assms
  by (simp add: save_ip_def mem_get_def mem_put_def min_def drop_append)

lemma mem_get_save_ip_other:
  assumes "length (nm_ip_tlv m) = 38" and "off + 3 + length ip \<le> 38" and "off' + k \<le> 38"
    and "off' + k \<le> off \<or> off + 3 + length ip \<le> off'"
  shows "mem_get off' k (nm_ip_tlv (save_ip off ty n ip m)) = mem_get off' k (nm_ip_tlv m)"
proof -
  let ?m = "mem_put off (snsd_save_tl_info ty n) (nm_ip_tlv m)"
  have "mem_get off' k (mem_put (off + 3) ip ?m) = mem_get off' k ?m"
    by (rule mem_get_put_other) (use assms in auto)
  also have "\<dots> = mem_get off' k (nm_ip_tlv m)"
    by (rule mem_get_put_other) (use assms in auto)
  finally show ?thesis by (simp add: save_ip_def)
qed

lemma bit_valid [simp]:
  "bit (nm_map (snsd_set_msg_valid_bit ty m)) i \<longleftrightarrow>
    bit (nm_map m) i \<or> (i = unat ty - 1 \<and> i < 16)"
  by (auto simp: snsd_set_msg_valid_bit_def bit_or_iff bit_exp_iff possible_bit_word)

definition sent :: "(u8 \<times> u8 list) list \<Rightarrow> u8 \<Rightarrow> u8 list \<Rightarrow> bool" where
  "sent ts ty v \<longleftrightarrow> (ty, v) \<in> set ts"

definition fields_from :: "(u8 \<times> u8 list) list \<Rightarrow> nt_msg \<Rightarrow> bool" where
  "fields_from ts m \<longleftrightarrow> (let b = bit (nm_map m) in
    (b 0 \<and> \<not> b 2 \<and> \<not> b 3 \<longrightarrow> nm_family m = AF_INET \<and>
      (\<exists>v. sent ts 1 v \<and> length v = 4 \<and> mem_get 0 7 (nm_ip_tlv m) = snsd_save_tl_info 1 4 @ v)) \<and>
    (b 1 \<and> \<not> b 2 \<and> \<not> b 3 \<longrightarrow>
      (\<exists>v. sent ts 2 v \<and> length v = 4 \<and> mem_get 7 7 (nm_ip_tlv m) = snsd_save_tl_info 2 4 @ v)) \<and>
    (b 2 \<and> \<not> b 0 \<and> \<not> b 1 \<longrightarrow> nm_family m = AF_INET6 \<and>
      (\<exists>v. sent ts 3 v \<and> length v = 16 \<and> mem_get 0 19 (nm_ip_tlv m) = snsd_save_tl_info 3 16 @ v)) \<and>
    (b 3 \<and> \<not> b 0 \<and> \<not> b 1 \<longrightarrow>
      (\<exists>v. sent ts 4 v \<and> length v = 16 \<and> mem_get 19 19 (nm_ip_tlv m) = snsd_save_tl_info 4 16 @ v)) \<and>
    (b 4 \<longrightarrow> (\<exists>v. sent ts 5 v \<and> length v = 4 \<and> nm_seq_tlv m = snsd_save_tl_info 5 4 @ v)) \<and>
    (b 5 \<longrightarrow> (\<exists>v. sent ts 6 v \<and> nm_state m = ntohl_right v)) \<and>
    (b 6 \<longrightarrow> (\<exists>v. sent ts 7 v \<and> nm_reason m = ntohl_right v)) \<and>
    (b 7 \<longrightarrow> (\<exists>v. sent ts 8 v \<and> length v \<le> SNSD_ADDTION_LEN_MAX)))"

lemma sent_snoc: "sent (ts @ [(ty, v)]) ty' v' \<longleftrightarrow> sent ts ty' v' \<or> (ty' = ty \<and> v' = v)"
  by (auto simp: sent_def)

lemma apply_tlv_cases:
  obtains (other) "apply_tlv m (ty, v) = m"
  | (src4) "ty = 1" "length v = 4"
      "apply_tlv m (ty, v) = (snsd_set_msg_valid_bit 1 (save_ip 0 1 4 v m))\<lparr>nm_family := AF_INET\<rparr>"
  | (dst4) "ty = 2" "length v = 4" "apply_tlv m (ty, v) = snsd_set_msg_valid_bit 2 (save_ip 7 2 4 v m)"
  | (src6) "ty = 3" "length v = 16"
      "apply_tlv m (ty, v) = (snsd_set_msg_valid_bit 3 (save_ip 0 3 16 v m))\<lparr>nm_family := AF_INET6\<rparr>"
  | (dst6) "ty = 4" "length v = 16" "apply_tlv m (ty, v) = snsd_set_msg_valid_bit 4 (save_ip 19 4 16 v m)"
  | (seq) "ty = 5" "length v = 4" "apply_tlv m (ty, v) = snsd_set_msg_valid_bit 5
      (m\<lparr>nm_seq_tlv := mem_put 3 v (mem_put 0 (snsd_save_tl_info 5 4) (nm_seq_tlv m))\<rparr>)"
  | (state) "ty = 6" "apply_tlv m (ty, v) = snsd_set_msg_valid_bit 6
      (m\<lparr>nm_state := ntohl_right v, nm_state_tl := snsd_save_tl_info 6 (length v)\<rparr>)"
  | (reason) "ty = 7" "apply_tlv m (ty, v) = snsd_set_msg_valid_bit 7
      (m\<lparr>nm_reason := ntohl_right v, nm_reason_tl := snsd_save_tl_info 7 (length v)\<rparr>)"
  | (ad) "ty = 8" "length v \<le> SNSD_ADDTION_LEN_MAX" "apply_tlv m (ty, v) = snsd_set_msg_valid_bit 8
      (m\<lparr>nm_ad_tl := snsd_save_tl_info 8 (length v),
         nm_ad_info := ntohs_at 4 (mem_put 0 v (nm_ad_info m))\<rparr>)"
proof -
  obtain m' where m': "snsd_get_value v 0 ty (length v) m = Some m'"
    using snsd_get_value_local [of 0 "length v" v ty m] by auto
  have a: "apply_tlv m (ty, v) = m'" by (simp add: apply_tlv_def m')
  have r: "rd v 0 n = (if n \<le> length v then Some (take n v) else None)" for n by (simp add: rd_def)
  show thesis
    by (cases rule: snsd_get_value_cases [of v 0 ty "length v" m])
      (use m' a that in \<open>auto simp: handler_defs r split: if_splits\<close>)
qed

lemma seq_put:
  assumes "length s = 7" and "length v = 4"
  shows "mem_put 3 v (mem_put 0 (snsd_save_tl_info ty n) s) = snsd_save_tl_info ty n @ v"
  using assms by (simp add: mem_put_def)

lemma save_ip_fields:
  assumes "length (nm_ip_tlv m) = 38"
  shows "length w = 4 \<Longrightarrow> mem_get 0 7 (nm_ip_tlv (save_ip 0 t n w m)) = snsd_save_tl_info t n @ w"
    and "length w = 4 \<Longrightarrow> mem_get 7 7 (nm_ip_tlv (save_ip 7 t n w m)) = snsd_save_tl_info t n @ w"
    and "length w = 4 \<Longrightarrow> mem_get 7 7 (nm_ip_tlv (save_ip 0 t n w m)) = mem_get 7 7 (nm_ip_tlv m)"
    and "length w = 4 \<Longrightarrow> mem_get 0 7 (nm_ip_tlv (save_ip 7 t n w m)) = mem_get 0 7 (nm_ip_tlv m)"
    and "length w = 16 \<Longrightarrow> mem_get 0 19 (nm_ip_tlv (save_ip 0 t n w m)) = snsd_save_tl_info t n @ w"
    and "length w = 16 \<Longrightarrow> mem_get 19 19 (nm_ip_tlv (save_ip 19 t n w m)) = snsd_save_tl_info t n @ w"
    and "length w = 16 \<Longrightarrow> mem_get 19 19 (nm_ip_tlv (save_ip 0 t n w m)) = mem_get 19 19 (nm_ip_tlv m)"
    and "length w = 16 \<Longrightarrow> mem_get 0 19 (nm_ip_tlv (save_ip 19 t n w m)) = mem_get 0 19 (nm_ip_tlv m)"
  using mem_get_save_ip [OF assms, of 0 w t n] mem_get_save_ip [OF assms, of 7 w t n]
    mem_get_save_ip [OF assms, of 19 w t n]
    mem_get_save_ip_other [OF assms, of 0 w 7 7 t n] mem_get_save_ip_other [OF assms, of 7 w 0 7 t n]
    mem_get_save_ip_other [OF assms, of 0 w 19 19 t n] mem_get_save_ip_other [OF assms, of 19 w 0 19 t n]
  by simp_all

lemma fields_from_step:
  assumes "fields_from ts m" and "nt_msg_ok m"
  shows "fields_from (ts @ [(ty, v)]) (apply_tlv m (ty, v))"
proof -
  have l: "length (nm_ip_tlv m) = 38" "length (nm_seq_tlv m) = 7"
    using assms(2) by (simp_all add: nt_msg_ok_def)
  note ip = save_ip_fields [OF l(1)]
  have keep: "sent (ts @ [(ty, v)]) t w" if "sent ts t w" for t w
    using that by (simp add: sent_snoc)
  note old = assms(1) [unfolded fields_from_def Let_def]
  show ?thesis
  proof (cases rule: apply_tlv_cases [of m ty v])
    case other
    with old keep show ?thesis unfolding fields_from_def Let_def by metis
  next
    case src4
    have "sent (ts @ [(ty, v)]) 1 v" by (simp add: sent_snoc src4(1))
    with src4 old keep show ?thesis unfolding fields_from_def Let_def
      by (simp add: ip del: mem_get_0) metis
  next
    case dst4
    have "sent (ts @ [(ty, v)]) 2 v" by (simp add: sent_snoc dst4(1))
    with dst4 old keep show ?thesis unfolding fields_from_def Let_def
      by (simp add: ip del: mem_get_0) metis
  next
    case src6
    have "sent (ts @ [(ty, v)]) 3 v" by (simp add: sent_snoc src6(1))
    with src6 old keep show ?thesis unfolding fields_from_def Let_def
      by (simp add: ip del: mem_get_0) metis
  next
    case dst6
    have "sent (ts @ [(ty, v)]) 4 v" by (simp add: sent_snoc dst6(1))
    with dst6 old keep show ?thesis unfolding fields_from_def Let_def
      by (simp add: ip del: mem_get_0) metis
  next
    case seq
    have "sent (ts @ [(ty, v)]) 5 v" by (simp add: sent_snoc seq(1))
    with seq old keep show ?thesis unfolding fields_from_def Let_def
      by (simp add: seq_put [OF l(2)] del: mem_get_0) metis
  next
    case state
    have "sent (ts @ [(ty, v)]) 6 v" by (simp add: sent_snoc state(1))
    with state old keep show ?thesis unfolding fields_from_def Let_def
      by (simp del: mem_get_0) metis
  next
    case reason
    have "sent (ts @ [(ty, v)]) 7 v" by (simp add: sent_snoc reason(1))
    with reason old keep show ?thesis unfolding fields_from_def Let_def
      by (simp del: mem_get_0) metis
  next
    case ad
    have "sent (ts @ [(ty, v)]) 8 v" by (simp add: sent_snoc ad(1))
    with ad old keep show ?thesis unfolding fields_from_def Let_def
      by (simp del: mem_get_0) metis
  qed
qed

lemma apply_tlv_ok: "nt_msg_ok m \<Longrightarrow> nt_msg_ok (apply_tlv m tv)"
  using snsd_get_value_local [of 0 "length (snd tv)" "snd tv" "fst tv" m]
  by (auto simp: apply_tlv_def intro: snsd_get_value_ok)

lemma foldl_apply_tlv:
  assumes "fields_from ts0 m" and "nt_msg_ok m"
  shows "fields_from (ts0 @ ts) (foldl apply_tlv m ts) \<and> nt_msg_ok (foldl apply_tlv m ts)"
  using assms
proof (induction ts arbitrary: ts0 m)
  case Nil
  then show ?case by simp
next
  case (Cons tv ts)
  have "fields_from (ts0 @ [tv]) (apply_tlv m tv)"
    using fields_from_step [OF Cons.prems, of "fst tv" "snd tv"] by simp
  from Cons.IH [OF this apply_tlv_ok [OF Cons.prems(2)]] show ?case by simp
qed

lemma fields_from_zero: "fields_from [] (zero_nt_msg\<lparr>nm_ver := v\<rparr>)"
  by (simp add: fields_from_def zero_nt_msg_def)

lemma foldl_apply_tlv_zero:
  "fields_from ts (foldl apply_tlv (zero_nt_msg\<lparr>nm_ver := v\<rparr>) ts) \<and>
    nt_msg_ok (foldl apply_tlv (zero_nt_msg\<lparr>nm_ver := v\<rparr>) ts)"
  using foldl_apply_tlv [OF fields_from_zero zero_nt_msg_ok, of ts v] by simp

lemma apply_ad_info:
  "length v \<le> SNSD_ADDTION_LEN_MAX \<Longrightarrow>
    nm_ad_info (apply_tlv m (8, v)) = ntohs_at 4 (mem_put 0 v (nm_ad_info m))"
  by (simp add: apply_tlv_def snsd_get_value_def tlv_func_def snsd_get_ad_info_def rd_def)

lemma ip_parts:
  "length v = 4 \<Longrightarrow> mem_get 0 7 xs = snsd_save_tl_info t n @ v \<Longrightarrow> mem_get 3 4 xs = v"
  "length v = 4 \<Longrightarrow> mem_get 7 7 xs = snsd_save_tl_info t n @ v \<Longrightarrow> mem_get 10 4 xs = v"
  "length v = 16 \<Longrightarrow> mem_get 0 19 xs = snsd_save_tl_info t n @ v \<Longrightarrow> mem_get 3 16 xs = v"
  "length v = 16 \<Longrightarrow> mem_get 19 19 xs = snsd_save_tl_info t n @ v \<Longrightarrow> mem_get 22 16 xs = v"
proof -
  have d: "drop 3 (mem_get p k xs) = mem_get (p + 3) (k - 3) xs" for p k by (rule drop_mem_get)
  have t: "drop 3 (snsd_save_tl_info t n @ v) = v" by simp
  show "length v = 4 \<Longrightarrow> mem_get 0 7 xs = snsd_save_tl_info t n @ v \<Longrightarrow> mem_get 3 4 xs = v"
    using d [of 0 7] t by (simp del: mem_get_0)
  show "length v = 4 \<Longrightarrow> mem_get 7 7 xs = snsd_save_tl_info t n @ v \<Longrightarrow> mem_get 10 4 xs = v"
    using d [of 7 7] t by simp
  show "length v = 16 \<Longrightarrow> mem_get 0 19 xs = snsd_save_tl_info t n @ v \<Longrightarrow> mem_get 3 16 xs = v"
    using d [of 0 19] t by (simp del: mem_get_0)
  show "length v = 16 \<Longrightarrow> mem_get 19 19 xs = snsd_save_tl_info t n @ v \<Longrightarrow> mem_get 22 16 xs = v"
    using d [of 19 19] t by simp
qed

lemma complete_fields:
  assumes "fields_from ts m" and "snsd_check_msg_complete (nm_map m)"
  shows "(nm_family m = AF_INET \<and> sent ts 1 (ipv4_src_ip m) \<and> sent ts 2 (ipv4_dst_ip m) \<and>
      mem_get 0 7 (nm_ip_tlv m) = snsd_save_tl_info 1 4 @ ipv4_src_ip m \<and>
      mem_get 7 7 (nm_ip_tlv m) = snsd_save_tl_info 2 4 @ ipv4_dst_ip m \<or>
     nm_family m = AF_INET6 \<and> sent ts 3 (ipv6_src_ip m) \<and> sent ts 4 (ipv6_dst_ip m) \<and>
      mem_get 0 19 (nm_ip_tlv m) = snsd_save_tl_info 3 16 @ ipv6_src_ip m \<and>
      mem_get 19 19 (nm_ip_tlv m) = snsd_save_tl_info 4 16 @ ipv6_dst_ip m) \<and>
    sent ts 5 (mem_get 3 4 (nm_seq_tlv m)) \<and>
    nm_seq_tlv m = snsd_save_tl_info 5 4 @ mem_get 3 4 (nm_seq_tlv m) \<and>
    (\<exists>v. sent ts 6 v \<and> nm_state m = ntohl_right v) \<and>
    (\<exists>v. sent ts 7 v \<and> nm_reason m = ntohl_right v) \<and>
    (\<exists>v. sent ts 8 v \<and> length v \<le> SNSD_ADDTION_LEN_MAX)"
proof -
  note f = assms(1) [unfolded fields_from_def Let_def]
  have b4: "bit (nm_map m) 4" "bit (nm_map m) 5" "bit (nm_map m) 6" "bit (nm_map m) 7"
    using assms(2) by (auto simp: snsd_check_msg_complete_def)
  from f b4(1) obtain q where q: "sent ts 5 q" "length q = 4" "nm_seq_tlv m = snsd_save_tl_info 5 4 @ q"
    by blast
  have q': "mem_get 3 4 (nm_seq_tlv m) = q" by (simp add: q(2,3) mem_get_def)
  have tail: "(\<exists>v. sent ts 6 v \<and> nm_state m = ntohl_right v) \<and> (\<exists>v. sent ts 7 v \<and> nm_reason m = ntohl_right v) \<and>
      (\<exists>v. sent ts 8 v \<and> length v \<le> SNSD_ADDTION_LEN_MAX)"
    using f b4 by blast
  consider "nm_map m = 0xF3" | "nm_map m = 0xFC"
    using assms(2) by (auto simp: snsd_check_msg_complete_def)
  then show ?thesis
  proof cases
    case 1
    then have "bit (nm_map m) 0" "bit (nm_map m) 1" "\<not> bit (nm_map m) 2" "\<not> bit (nm_map m) 3" by simp_all
    with f obtain v w where "nm_family m = AF_INET" "sent ts 1 v" "length v = 4"
      "mem_get 0 7 (nm_ip_tlv m) = snsd_save_tl_info 1 4 @ v" "sent ts 2 w" "length w = 4"
      "mem_get 7 7 (nm_ip_tlv m) = snsd_save_tl_info 2 4 @ w" by blast
    with q q' tail ip_parts(1,2) show ?thesis by (simp add: ipv4_src_ip_def ipv4_dst_ip_def del: mem_get_0)
  next
    case 2
    then have "\<not> bit (nm_map m) 0" "\<not> bit (nm_map m) 1" "bit (nm_map m) 2" "bit (nm_map m) 3" by simp_all
    with f obtain v w where "nm_family m = AF_INET6" "sent ts 3 v" "length v = 16"
      "mem_get 0 19 (nm_ip_tlv m) = snsd_save_tl_info 3 16 @ v" "sent ts 4 w" "length w = 16"
      "mem_get 19 19 (nm_ip_tlv m) = snsd_save_tl_info 4 16 @ w" by blast
    with q q' tail ip_parts(3,4) show ?thesis by (simp add: ipv6_src_ip_def ipv6_dst_ip_def del: mem_get_0)
  qed
qed


text \<open>A version 1 notification that 10.0.0.9 is active at 10.0.0.1, protocol 1.\<close>

definition sample_notification :: "u8 list" where
  "sample_notification =
    [1, 0, 4, 10, 0, 0, 9,  2, 0, 4, 10, 0, 0, 1,  5, 0, 4, 0, 0, 0, 7,
     6, 0, 4, 0, 0, 0, 1,  7, 0, 4, 0, 0, 0, 1,  8, 0, 7, 1, 1, 0, 0, 0x11, 0x58, 0]"

definition sample_msg :: nt_msg where
  "sample_msg = the (snsd_decode_sub_tlv sample_notification 0 45 (zero_nt_msg\<lparr>nm_ver := 1\<rparr>))"

lemma sample_msg_eq:
  "snsd_decode_sub_tlv sample_notification 0 45 (zero_nt_msg\<lparr>nm_ver := 1\<rparr>) = Some sample_msg"
  using sub_tlv_loop_tlvs [of 0 45 0 sample_notification "zero_nt_msg\<lparr>nm_ver := 1\<rparr>"]
  by (simp add: snsd_decode_sub_tlv_def sample_msg_def sample_notification_def del: tlvs.simps)

lemma sample_map: "nm_map sample_msg = 0xF3"
  by code_simp


text \<open>
  An additional information TLV too short to carry a port (fewer than five bytes) still
  converts the port field to host order, so after one that carries a port it turns the port into its
  byte-swapped value.
\<close>

theorem short_ad_info_swaps_port:
  assumes "nt_msg_ok m" and "length v < 5"
  shows "ad_proto_port (apply_tlv m (NOTIFY_SUB_TLV8_AD, v)) =
    word_of_nat (be16_val (nm_ad_info m ! 4) (nm_ad_info m ! 5))"
proof -
  let ?a = "mem_put 0 v (nm_ad_info m)"
  have len: "length (nm_ad_info m) = 263" using assms(1) by (simp add: nt_msg_ok_def)
  have "?a ! 4 = nm_ad_info m ! 4" "?a ! 5 = nm_ad_info m ! 5"
    using nth_mem_put [of 0 v "nm_ad_info m" 4] nth_mem_put [of 0 v "nm_ad_info m" 5] len assms(2)
    by simp_all
  moreover have "length ?a = 263" using len assms(2) by simp
  moreover have "nm_ad_info (apply_tlv m (NOTIFY_SUB_TLV8_AD, v)) = ntohs_at 4 ?a"
    using assms(2) by (simp add: apply_ad_info)
  ultimately show ?thesis by (simp add: ad_proto_port_def ntohs_at_def)
qed

theorem short_ad_info_swaps_port_witness:
  "ad_proto_port sample_msg = 0x1158 \<and>
    ad_proto_port (apply_tlv sample_msg (NOTIFY_SUB_TLV8_AD, [])) = 0x5811"
proof -
  have a: "nm_ad_info sample_msg ! 4 = 0x58" "nm_ad_info sample_msg ! 5 = 0x11" by code_simp+
  have ok: "nt_msg_ok sample_msg"
    using foldl_apply_tlv_zero [of "tlvs sample_notification" 1] sub_tlv_loop_tlvs [of 0 45 0 sample_notification "zero_nt_msg\<lparr>nm_ver := 1\<rparr>"]
      sample_msg_eq by (simp add: snsd_decode_sub_tlv_def sample_notification_def del: tlvs.simps)
  from short_ad_info_swaps_port [OF ok, of "[]"] show ?thesis
    by (simp add: a ad_proto_port_def be16_val_def)
qed

end
