(* ===== verification/Snsd_Server_Props.thy ===== *)
theory Snsd_Server_Props
  imports Snsd_Server Snsd_Tlv_Props
begin

text \<open>
  The receive path of \<open>Snsd_Server\<close>: building acknowledgements stays in the payload and
  can be decoded again; handling a frame touches no memory outside its buffers except in one case;
  the message pool neither loses nor duplicates a node, posts in order and is emptied by a dispatch.
\<close>

section \<open>Writing TLVs\<close>

definition tlv_bytes :: "u8 \<times> u8 list \<Rightarrow> u8 list" where
  "tlv_bytes tv = fst tv # be16 (length (snd tv)) @ snd tv"

definition tlv_list :: "(u8 \<times> u8 list) list \<Rightarrow> u8 list" where
  "tlv_list ts = concat (map tlv_bytes ts)"

lemma tlv_list_simps [simp]:
  "tlv_list [] = []" "tlv_list (tv # ts) = tlv_bytes tv @ tlv_list ts"
  "tlv_list (ts @ us) = tlv_list ts @ tlv_list us"
  by (simp_all add: tlv_list_def)

lemma length_tlv_bytes [simp]: "length (tlv_bytes tv) = 3 + length (snd tv)"
  by (simp add: tlv_bytes_def)

text \<open>Parsing what was written gives the TLVs back.\<close>

lemma tlvs_tlv_list:
  "(\<And>tv. tv \<in> set ts \<Longrightarrow> length (snd tv) < 65536) \<Longrightarrow> tlvs (tlv_list ts) = ts"
proof (induction ts)
  case Nil
  then show ?case by simp
next
  case (Cons tv ts)
  have "length (snd tv) < 65536" by (rule Cons.prems) simp
  then have "be16_val (word_of_nat (length (snd tv) div 256)) (word_of_nat (length (snd tv))) = length (snd tv)"
    by (rule be16_val_be16)
  moreover have "tlvs (tlv_list ts) = ts" by (rule Cons.IH) (simp add: Cons.prems)
  ultimately show ?case by (simp add: tlv_bytes_def be16_def Let_def)
qed

lemma wr_Some [simp]:
  "wr off bs buf = Some p \<longleftrightarrow> off + length bs \<le> length buf \<and> p = mem_put off bs buf"
  by (auto simp: wr_def)

lemma mem_put_prefix:
  assumes "n + length bs \<le> length p"
  shows "take (n + length bs) (mem_put n bs p) = take n p @ bs"
  using assms by (simp add: mem_put_def)

section \<open>Building the acknowledgement\<close>

text \<open>
  The length of the acknowledgement is a multiple of 24, the size of an IPv4 acknowledgement TLV
  (an IPv6 one has 48 bytes).  That is why the check of the code, which leaves the three header bytes
  of the TLV out of its sum, still keeps every write inside the payload.
\<close>

definition ack_ok :: "ack_msg \<Rightarrow> bool" where
  "ack_ok a \<longleftrightarrow> length (ak_payload a) = SNSD_MAX_TLV_LEN \<and> 24 dvd ak_tlv_len a \<and>
    ak_tlv_len a \<le> SNSD_MAX_TLV_LEN \<and>
    (\<exists>ts. (\<forall>tv \<in> set ts. length (snd tv) < 65536) \<and> take (ak_tlv_len a) (ak_payload a) = tlv_list ts)"

lemma build_tlv_by_family:
  assumes a: "ack_ok a" and len: "length ip_tlv = 14 \<or> length ip_tlv = 38" and seq: "length (nm_seq_tlv msg) = 7"
  shows "\<exists>a'. snsd_build_tlv_by_family msg ip_tlv a = Some a' \<and> ack_ok a' \<and>
    (a' = a \<or> ak_tlv_len a' = ak_tlv_len a + 10 + length ip_tlv \<and>
      take (ak_tlv_len a') (ak_payload a') =
        take (ak_tlv_len a) (ak_payload a) @ tlv_bytes (0x22, ip_tlv @ nm_seq_tlv msg)) \<and>
    ak_dest a' = ak_dest a \<and> ak_source a' = ak_source a \<and> ak_ver a' = ak_ver a"
proof -
  let ?n = "ak_tlv_len a" and ?p = "ak_payload a" and ?v = "ip_tlv @ nm_seq_tlv msg"
  have P: "length ?p = 1492" "24 dvd ?n" "?n \<le> 1492" using a by (simp_all add: ack_ok_def)
  show ?thesis
  proof (cases "?n + (length ip_tlv + 7) > 1492")
    case True
    then show ?thesis using a by (simp add: snsd_build_tlv_by_family_def)
  next
    case False
    have room: "?n + 10 + length ip_tlv \<le> 1488"
    proof -
      obtain k where k: "?n = 24 * k" using P(2) by (auto elim: dvdE)
      from len show ?thesis
      proof
        assume "length ip_tlv = 14"
        with False k have "k \<le> 61" by simp
        with k \<open>length ip_tlv = 14\<close> show ?thesis by simp
      next
        assume "length ip_tlv = 38"
        with False k have "k \<le> 60" by simp
        with k \<open>length ip_tlv = 38\<close> show ?thesis by simp
      qed
    qed
    let ?p1 = "mem_put ?n [0x22] ?p"
    let ?p2 = "mem_put (?n + 1) (be16 (length ip_tlv + 7)) ?p1"
    let ?p3 = "mem_put (?n + 3) ip_tlv ?p2"
    let ?p4 = "mem_put (?n + 3 + length ip_tlv) (nm_seq_tlv msg) ?p3"
    let ?a' = "a\<lparr>ak_tlv_len := ?n + 3 + length ip_tlv + 7, ak_payload := ?p4\<rparr>"
    have l: "length ?p1 = 1492" "length ?p2 = 1492" "length ?p3 = 1492" "length ?p4 = 1492"
      using P(1) room seq by simp_all
    have t1: "take (?n + 1) ?p1 = take ?n ?p @ [0x22]"
      using mem_put_prefix [of ?n "[0x22]" ?p] room P by simp
    have t2: "take (?n + 3) ?p2 = take ?n ?p @ 0x22 # be16 (length ip_tlv + 7)"
      using mem_put_prefix [of "?n + 1" "be16 (length ip_tlv + 7)" ?p1] room l t1
      by (simp add: numeral_3_eq_3)
    have t3: "take (?n + 3 + length ip_tlv) ?p3 = take ?n ?p @ 0x22 # be16 (length ip_tlv + 7) @ ip_tlv"
      using mem_put_prefix [of "?n + 3" ip_tlv ?p2] room l t2 by simp
    have t4: "take (?n + 3 + length ip_tlv + 7) ?p4 = take ?n ?p @ tlv_bytes (0x22, ?v)"
      using mem_put_prefix [of "?n + 3 + length ip_tlv" "nm_seq_tlv msg" ?p3] room l t3 seq
      by (simp add: tlv_bytes_def)
    have b: "snsd_build_tlv_by_family msg ip_tlv a = Some ?a'"
      using False room P l seq
      by (simp add: snsd_build_tlv_by_family_def Let_def wr_def add.assoc)
    have "24 dvd 3 + length ip_tlv + 7" using len by (elim disjE) simp_all
    with P(2) have "24 dvd ?n + (3 + length ip_tlv + 7)" by (rule dvd_add)
    moreover obtain ts where "\<forall>tv \<in> set ts. length (snd tv) < 65536" "take ?n ?p = tlv_list ts"
      using a by (auto simp: ack_ok_def)
    ultimately have "ack_ok ?a'"
      using l(4) room t4 len seq unfolding ack_ok_def
      by (auto simp: add.assoc intro!: exI [of _ "ts @ [(0x22, ?v)]"])
    with b t4 show ?thesis by (auto simp: add.assoc add.commute)
  qed
qed

section \<open>The receive path\<close>

lemma post_frame [simp]:
  "sv_ack (fst (snsd_post_one_msg msg s)) = sv_ack s"
  "sv_listeners (fst (snsd_post_one_msg msg s)) = sv_listeners s"
  "sv_drop_msg (fst (snsd_post_one_msg msg s)) = sv_drop_msg s"
  by (simp_all add: snsd_post_one_msg_def Let_def)

lemma build_ack_tlv_info:
  assumes "ack_ok a" and "nt_msg_ok msg"
  shows "\<exists>a'. snsd_build_ack_tlv_info msg a = Some a' \<and> ack_ok a'"
proof -
  have l: "length (take 14 (nm_ip_tlv msg)) = 14" "length (take 38 (nm_ip_tlv msg)) = 38"
    "length (nm_seq_tlv msg) = 7" using assms(2) by (simp_all add: nt_msg_ok_def)
  show ?thesis
    using build_tlv_by_family [OF assms(1) _ l(3), of "take 14 (nm_ip_tlv msg)"]
      build_tlv_by_family [OF assms(1) _ l(3), of "take 38 (nm_ip_tlv msg)"] l assms(1)
    unfolding snsd_build_ack_tlv_info_def by auto
qed

lemma deal_one_msg:
  assumes "ack_ok (sv_ack s)" and "nt_msg_ok msg"
  shows "\<exists>s'. snsd_deal_one_msg host_ip msg s = Some s' \<and> ack_ok (sv_ack s') \<and>
    sv_listeners s' = sv_listeners s"
proof -
  obtain a' where "snsd_build_ack_tlv_info msg (sv_ack s) = Some a'" "ack_ok a'"
    using build_ack_tlv_info [OF assms] by blast
  with assms(1) show ?thesis
    by (simp add: snsd_deal_one_msg_def split_beta)
qed

lemma decode_sub_tlv_ok:
  assumes "pos + n \<le> length buf"
  shows "\<exists>m. snsd_decode_sub_tlv buf pos n (zero_nt_msg\<lparr>nm_ver := ver\<rparr>) = Some m \<and> nt_msg_ok m \<and>
    m = foldl apply_tlv (zero_nt_msg\<lparr>nm_ver := ver\<rparr>) (tlvs (mem_get pos n buf))"
  using sub_tlv_loop_tlvs [of 0 n pos buf "zero_nt_msg\<lparr>nm_ver := ver\<rparr>"] assms foldl_apply_tlv_zero
  by (simp add: snsd_decode_sub_tlv_def)

text \<open>One round of the root loop, when the reads are inside the buffer.\<close>

lemma nt_tlv_loop_step:
  obtains (stop) "nt_tlv_loop buf host_ip ver pos s = Some s"
  | (round) n m where "pos + 3 + n \<le> length buf"
      "snsd_decode_sub_tlv buf (pos + 3) n (zero_nt_msg\<lparr>nm_ver := ver\<rparr>) = Some m" "nt_msg_ok m"
      "nt_tlv_loop buf host_ip ver pos s =
        (case snsd_deal_one_msg host_ip m s of
           None \<Rightarrow> None | Some s' \<Rightarrow> nt_tlv_loop buf host_ip ver (pos + 3 + n) s')"
proof (cases "pos + 3 \<le> length buf \<and> \<not> (buf ! pos AND SNSD_TLV_FORMAT_STRUCT = 0 \<or>
    buf ! pos AND SNSD_MSG_NOTIFY_MASK \<noteq> SNSD_MSG_NOTIFY_TYPE)")
  case False
  have "nt_tlv_loop buf host_ip ver pos s = Some s"
    using False get_type_in [of pos buf]
    by (subst nt_tlv_loop.simps) (auto simp: Let_def)
  then show thesis by (rule stop)
next
  case True
  let ?n = "be16_val (buf ! Suc pos) (buf ! Suc (Suc pos))"
  have t: "snsd_get_type buf pos = Some (buf ! pos)" "snsd_get_len buf (Suc pos) = Some ?n"
    using True by (simp_all add: get_type_in get_len_in)
  show thesis
  proof (cases "pos + 3 + ?n \<le> length buf")
    case False
    have "nt_tlv_loop buf host_ip ver pos s = Some s"
      using False True t by (subst nt_tlv_loop.simps) (auto simp: Let_def numeral_3_eq_3)
    then show thesis by (rule stop)
  next
    case in_buf: True
    obtain m where m: "snsd_decode_sub_tlv buf (pos + 3) ?n (zero_nt_msg\<lparr>nm_ver := ver\<rparr>) = Some m"
      "nt_msg_ok m" using decode_sub_tlv_ok [OF in_buf] by blast
    have "nt_tlv_loop buf host_ip ver pos s =
        (case snsd_deal_one_msg host_ip m s of
           None \<Rightarrow> None | Some s' \<Rightarrow> nt_tlv_loop buf host_ip ver (pos + 3 + ?n) s')"
      using in_buf True t m(1)
      by (subst nt_tlv_loop.simps) (auto simp: Let_def numeral_3_eq_3 split: option.split)
    with in_buf m show thesis by (rule round)
  qed
qed

lemma nt_tlv_loop_ok:
  assumes "ack_ok (sv_ack s)"
  shows "\<exists>s'. nt_tlv_loop buf host_ip ver pos s = Some s' \<and> ack_ok (sv_ack s') \<and>
    sv_listeners s' = sv_listeners s"
  using assms
proof (induction "length buf - pos" arbitrary: pos s rule: less_induct)
  case less
  show ?case
  proof (cases rule: nt_tlv_loop_step [of buf host_ip ver pos s])
    case stop
    with less.prems show ?thesis by blast
  next
    case (round n m)
    obtain s' where s': "snsd_deal_one_msg host_ip m s = Some s'" "ack_ok (sv_ack s')"
      "sv_listeners s' = sv_listeners s" using deal_one_msg [OF less.prems round(3)] by blast
    have "length buf - (pos + 3 + n) < length buf - pos" using round(1) by simp
    from less.hyps [OF this s'(2)] round(4) s' show ?thesis by auto
  qed
qed

lemma ack_ok_zero: "ack_ok zero_ack"
  by (auto simp: ack_ok_def zero_ack_def intro: exI [of _ "[]"])

lemma process_nt_msg_ok:
  assumes "ack_ok (sv_ack s)"
  shows "\<exists>s'. snsd_process_nt_msg buf n host_ip s = Some s'"
  using assms nt_tlv_loop_ok [of s]
  by (fastforce simp: snsd_process_nt_msg_def snsd_decode_nt_tlv_def split: sum.splits)

lemma build_ack_header_ok: "ack_ok (sv_ack s) \<Longrightarrow> ack_ok (sv_ack (snsd_build_ack_header mac s))"
  by (auto simp: snsd_build_ack_header_def ack_ok_def intro: exI [of _ "[]"])

text \<open>
  C19: handling a received frame, whatever its bytes, stays inside the receive buffer, the
  message and the acknowledgement, except in one case: a frame that fills the 1514-byte buffer makes
  the terminating write \<open>rcv_buf[read_cnt] = 0\<close> land one byte behind it.
\<close>

theorem snsd_client_notify_memory_safe:
  assumes "length bytes \<le> SNSD_MAX_BUFFER_LEN"
  shows "snsd_client_notify fd (Some bytes) s = None \<longleftrightarrow>
    snsd_get_server_listener fd s \<noteq> None \<and> length bytes = SNSD_MAX_BUFFER_LEN"
proof (cases "snsd_get_server_listener fd s")
  case None
  then show ?thesis by (simp add: snsd_client_notify_def)
next
  case (Some i)
  let ?s = "(snsd_listener_msg_inc fd s)\<lparr>sv_ack := zero_ack\<rparr>"
  have "\<exists>s'. snsd_process_nt_msg buf n host_ip (snsd_build_ack_header mac ?s) = Some s'" for buf n host_ip mac
    by (rule process_nt_msg_ok [OF build_ack_header_ok]) (simp add: ack_ok_zero)
  then have p: "snsd_process_nt_msg buf n host_ip (snsd_build_ack_header mac ?s) \<noteq> None"
    for buf n host_ip mac by simp
  show ?thesis
  proof (cases "length bytes = SNSD_MAX_BUFFER_LEN")
    case True
    then show ?thesis using Some by (simp add: snsd_client_notify_def Let_def wr_def)
  next
    case False
    then have "length bytes < 1514" using assms by simp
    then show ?thesis
      using Some p
      by (simp add: snsd_client_notify_def Let_def wr_def bind_eq_None_conv del: not_None_eq)
  qed
qed

definition sample_server :: server where
  "sample_server = \<lparr>sv_listeners = [zero_listener\<lparr>ls_fd := 5,
      ls_host_ip := [[10, 0, 0, 1] @ replicate 12 0, zero_ip]\<rparr>, zero_listener\<lparr>ls_fd := - 1\<rparr>],
    sv_last_semp_time = 0, sv_heap = \<lparr>nxt = (\<lambda>_. 0), prv = (\<lambda>_. 0)\<rparr>, sv_msgs = (\<lambda>_. zero_nt_msg),
    sv_drop_msg = 0, sv_ack = zero_ack\<rparr>"

theorem snsd_client_notify_memory_safe_witness:
  "snsd_client_notify 5 (Some (replicate 1514 0)) sample_server = None \<and>
    snsd_client_notify 5 (Some (replicate 1513 0)) sample_server \<noteq> None"
proof -
  have "snsd_get_server_listener 5 sample_server \<noteq> None"
    by (simp add: snsd_get_server_listener_def sample_server_def)
  with snsd_client_notify_memory_safe [of "replicate 1514 0" 5 sample_server]
    snsd_client_notify_memory_safe [of "replicate 1513 0" 5 sample_server]
  show ?thesis by simp
qed

text \<open>A message with room left for it grows by one TLV, and a complete message holds two address TLVs.\<close>

lemma build_tlv_appends:
  assumes "ack_ok a" and "ak_tlv_len a + 48 \<le> SNSD_MAX_TLV_LEN"
    and l: "length ip = 14 \<or> length ip = 38" and seq: "length (nm_seq_tlv msg) = 7"
  shows "\<exists>a'. snsd_build_tlv_by_family msg ip a = Some a' \<and>
    tlvs (take (ak_tlv_len a') (ak_payload a')) =
      tlvs (take (ak_tlv_len a) (ak_payload a)) @ [(0x22, ip @ nm_seq_tlv msg)]"
proof -
  obtain ts where ts: "\<forall>tv \<in> set ts. length (snd tv) < 65536"
    "take (ak_tlv_len a) (ak_payload a) = tlv_list ts" using assms(1) by (auto simp: ack_ok_def)
  have old: "tlvs (take (ak_tlv_len a) (ak_payload a)) = ts"
    unfolding ts(2) by (rule tlvs_tlv_list) (use ts(1) in blast)
  obtain a' where a': "snsd_build_tlv_by_family msg ip a = Some a'"
    "a' = a \<or> take (ak_tlv_len a') (ak_payload a') =
      take (ak_tlv_len a) (ak_payload a) @ tlv_bytes (0x22, ip @ nm_seq_tlv msg)"
    using build_tlv_by_family [OF assms(1) l seq] by blast
  have "\<not> ak_tlv_len a + (length ip + 7) > 1492" using l assms(2) by auto
  with a'(1) have "ak_tlv_len a' = ak_tlv_len a + 3 + length ip + 7"
    using seq by (auto simp: snsd_build_tlv_by_family_def Let_def bind_eq_Some_conv)
  then have "a' \<noteq> a" by auto
  with a'(2) ts(2) have p: "take (ak_tlv_len a') (ak_payload a') = tlv_list (ts @ [(0x22, ip @ nm_seq_tlv msg)])"
    by simp
  have "tlvs (tlv_list (ts @ [(0x22, ip @ nm_seq_tlv msg)])) = ts @ [(0x22, ip @ nm_seq_tlv msg)]"
    by (rule tlvs_tlv_list) (use ts(1) l seq in auto)
  with a'(1) p old show ?thesis by auto
qed

lemma complete_ip_tlvs:
  assumes "fields_from ts msg" and "nt_msg_ok msg" and "snsd_check_msg_complete (nm_map msg)"
  shows "nm_seq_tlv msg = tlv_bytes (5, mem_get 3 4 (nm_seq_tlv msg))"
    and "nm_family msg = AF_INET \<and> take 14 (nm_ip_tlv msg) = tlv_list [(1, ipv4_src_ip msg), (2, ipv4_dst_ip msg)] \<or>
      nm_family msg = AF_INET6 \<and> take 38 (nm_ip_tlv msg) = tlv_list [(3, ipv6_src_ip msg), (4, ipv6_dst_ip msg)]"
proof -
  have len: "length (nm_ip_tlv msg) = 38" "length (nm_seq_tlv msg) = 7"
    using assms(2) by (simp_all add: nt_msg_ok_def)
  note f = complete_fields [OF assms(1,3)]
  show "nm_seq_tlv msg = tlv_bytes (5, mem_get 3 4 (nm_seq_tlv msg))"
    using f len(2) by (simp add: tlv_bytes_def snsd_save_tl_info_def)
  have len4: "length (ipv4_src_ip msg) = 4" "length (ipv4_dst_ip msg) = 4"
    "length (ipv6_src_ip msg) = 16" "length (ipv6_dst_ip msg) = 16"
    using len by (simp_all add: ipv4_src_ip_def ipv4_dst_ip_def ipv6_src_ip_def ipv6_dst_ip_def)
  have parts: "take 14 (nm_ip_tlv msg) = mem_get 0 7 (nm_ip_tlv msg) @ mem_get 7 7 (nm_ip_tlv msg)"
    "take 38 (nm_ip_tlv msg) = mem_get 0 19 (nm_ip_tlv msg) @ mem_get 19 19 (nm_ip_tlv msg)"
    using take_add [of 7 7 "nm_ip_tlv msg"] take_add [of 19 19 "nm_ip_tlv msg"] by (simp_all add: mem_get_def)
  from f show "nm_family msg = AF_INET \<and> take 14 (nm_ip_tlv msg) = tlv_list [(1, ipv4_src_ip msg), (2, ipv4_dst_ip msg)] \<or>
      nm_family msg = AF_INET6 \<and> take 38 (nm_ip_tlv msg) = tlv_list [(3, ipv6_src_ip msg), (4, ipv6_dst_ip msg)]"
    unfolding parts using len4 by (auto simp: tlv_bytes_def snsd_save_tl_info_def simp del: mem_get_0)
qed

text \<open>
  C15: the acknowledgement of a complete notification can be decoded again: it appends one TLV
  of type 0x22 to those already in the payload, and the sub TLVs of that one are the source and the
  destination address and the sequence number of the notification.
\<close>

theorem snsd_build_ack_roundtrip:
  assumes "ack_ok a" and "ak_tlv_len a + 48 \<le> SNSD_MAX_TLV_LEN"
    and "fields_from ts msg" and "nt_msg_ok msg" and "snsd_check_msg_complete (nm_map msg)"
  shows "\<exists>a'. snsd_build_ack_tlv_info msg a = Some a' \<and>
    tlvs (take (ak_tlv_len a') (ak_payload a')) = tlvs (take (ak_tlv_len a) (ak_payload a)) @
      [(0x22, tlv_list (if nm_family msg = AF_INET
        then [(1, ipv4_src_ip msg), (2, ipv4_dst_ip msg), (5, mem_get 3 4 (nm_seq_tlv msg))]
        else [(3, ipv6_src_ip msg), (4, ipv6_dst_ip msg), (5, mem_get 3 4 (nm_seq_tlv msg))]))]"
proof -
  let ?ip = "if nm_family msg = AF_INET then take 14 (nm_ip_tlv msg) else take 38 (nm_ip_tlv msg)"
  note ip = complete_ip_tlvs [OF assms(3-5)]
  have b: "snsd_build_ack_tlv_info msg a = snsd_build_tlv_by_family msg ?ip a"
    using ip(2) by (auto simp: snsd_build_ack_tlv_info_def)
  have "?ip @ nm_seq_tlv msg = tlv_list (if nm_family msg = AF_INET
        then [(1, ipv4_src_ip msg), (2, ipv4_dst_ip msg), (5, mem_get 3 4 (nm_seq_tlv msg))]
        else [(3, ipv6_src_ip msg), (4, ipv6_dst_ip msg), (5, mem_get 3 4 (nm_seq_tlv msg))])"
    by (subst ip(1)) (use ip(2) in auto)
  moreover have "length ?ip = 14 \<or> length ?ip = 38" and "length (nm_seq_tlv msg) = 7"
    using assms(4) by (simp_all add: nt_msg_ok_def)
  ultimately show ?thesis using build_tlv_appends [OF assms(1,2), of ?ip msg] unfolding b by simp
qed

lemma sample_msg_fields: "fields_from (tlvs sample_notification) sample_msg \<and> nt_msg_ok sample_msg"
  using foldl_apply_tlv_zero [of "tlvs sample_notification" 1]
    sub_tlv_loop_tlvs [of 0 45 0 sample_notification "zero_nt_msg\<lparr>nm_ver := 1\<rparr>"] sample_msg_eq
  by (simp add: snsd_decode_sub_tlv_def sample_notification_def del: tlvs.simps)

theorem snsd_build_ack_roundtrip_witness:
  "\<exists>a'. snsd_build_ack_tlv_info sample_msg zero_ack = Some a' \<and>
    map fst (tlvs (take (ak_tlv_len a') (ak_payload a'))) = [0x22]"
proof -
  have c: "snsd_check_msg_complete (nm_map sample_msg)"
    by (simp add: snsd_check_msg_complete_def sample_map)
  have z: "tlvs (take (ak_tlv_len zero_ack) (ak_payload zero_ack)) = []" by (simp add: zero_ack_def)
  from snsd_build_ack_roundtrip [OF ack_ok_zero _ conjunct1 [OF sample_msg_fields]
      conjunct2 [OF sample_msg_fields] c] z
  show ?thesis by (auto simp: zero_ack_def)
qed

section \<open>The message pool\<close>

text \<open>
  The pool is what its two lists represent: the free nodes \<open>xs\<close> and the posted nodes
  \<open>ys\<close>, which share no node.
\<close>

definition pool :: "server \<Rightarrow> addr list \<Rightarrow> addr list \<Rightarrow> bool" where
  "pool s xs ys \<longleftrightarrow> dl_rep (sv_heap s) msg_recv_list xs \<and> dl_rep (sv_heap s) msg_active_list ys \<and>
    set (msg_recv_list # xs) \<inter> set (msg_active_list # ys) = {}"

lemma poolD:
  assumes "pool s xs ys"
  shows "dl_rep (sv_heap s) 0 xs" and "dl_rep (sv_heap s) 1 ys"
    and "set (0 # xs) \<inter> set (1 # ys) = {}" and "distinct (xs @ ys)"
  using assms dlq.rep_distinct [of "sv_heap s" 0 xs] dlq.rep_distinct [of "sv_heap s" 1 ys]
  by (auto simp: pool_def)

lemma post_one_msg_pool:
  assumes "pool s xs ys" and "ad_role_type msg \<noteq> SNSD_CLIENT"
  shows "case xs of
      [] \<Rightarrow> snsd_post_one_msg msg s = (s, False)
    | x # xs' \<Rightarrow> snd (snsd_post_one_msg msg s) \<and> pool (fst (snsd_post_one_msg msg s)) xs' (ys @ [x]) \<and>
        map (sv_msgs (fst (snsd_post_one_msg msg s))) (ys @ [x]) = map (sv_msgs s) ys @ [msg]"
proof (cases xs)
  case Nil
  then have "list_empty 0 (sv_heap s)" using dlq.rep_is_empty [OF poolD(1) [OF assms(1)]] by simp
  with Nil assms(2) show ?thesis by (simp add: snsd_post_one_msg_def)
next
  case (Cons x xs')
  note p = poolD [OF assms(1)]
  have ne: "\<not> list_empty 0 (sv_heap s)" using dlq.rep_is_empty [OF p(1)] Cons by simp
  have fr: "nxt (sv_heap s) 0 = x" using dlq.rep_front [OF p(1) [unfolded Cons]] by (simp add: list_first_def)
  have post: "snsd_post_one_msg msg s = (s\<lparr>sv_msgs := (sv_msgs s)(x := msg),
      sv_heap := list_add_tail x 1 (list_del x (sv_heap s))\<rparr>, True)"
    using ne assms(2) by (simp add: snsd_post_one_msg_def Let_def fr)
  note mv = dlq.move_front [OF p(1) [unfolded Cons] p(2) p(3) [unfolded Cons]]
  have h: "list_first 0 (sv_heap s) = x" by (simp add: list_first_def fr)
  have "pool (fst (snsd_post_one_msg msg s)) xs' (ys @ [x])"
    using mv p(3,4) dlq.rep_distinct [OF p(1)] Cons unfolding h pool_def post by auto
  moreover have "map ((sv_msgs s)(x := msg)) ys = map (sv_msgs s) ys"
    using p(4) Cons by auto
  ultimately show ?thesis using Cons post by simp
qed

text \<open>
  C16: posting is first in, first out and loses nothing: unless the sender is a host, whose
  messages are ignored, a message is stored in the first free node, which becomes the last posted
  one, and only when no node is free it is refused; then no acknowledgement is built and the switch
  sends it again.
\<close>

theorem snsd_post_one_msg_spec:
  assumes "pool s xs ys" and "ad_role_type msg \<noteq> SNSD_CLIENT"
  shows "case xs of
      [] \<Rightarrow> snsd_post_one_msg msg s = (s, False)
    | x # xs' \<Rightarrow> snd (snsd_post_one_msg msg s) \<and> pool (fst (snsd_post_one_msg msg s)) xs' (ys @ [x]) \<and>
        map (sv_msgs (fst (snsd_post_one_msg msg s))) (ys @ [x]) = map (sv_msgs s) ys @ [msg]"
  by (rule post_one_msg_pool [OF assms])

text \<open>A pool of two nodes: 2 is free, 3 is posted.\<close>

definition two_node_server :: server where
  "two_node_server = sample_server\<lparr>sv_heap :=
    \<lparr>nxt = (\<lambda>_. 0)(0 := 2, 2 := 0, 1 := 3, 3 := 1), prv = (\<lambda>_. 0)(0 := 2, 2 := 0, 1 := 3, 3 := 1)\<rparr>,
    sv_msgs := (\<lambda>_. sample_msg)\<rparr>"

lemma two_node_pool: "pool two_node_server [2] [3]"
  by (simp add: pool_def dl_rep_def two_node_server_def)

lemma sample_role: "ad_role_type sample_msg = 1"
  by code_simp

theorem snsd_post_one_msg_spec_witness:
  "pool (fst (snsd_post_one_msg sample_msg two_node_server)) [] [3, 2]"
  using snsd_post_one_msg_spec [OF two_node_pool, of sample_msg] by (simp add: sample_role)

section \<open>Dispatching\<close>

declare One_nat_def [simp del]

fun dispatch_all ::
  "('w, 'c) templates \<Rightarrow> (addr \<Rightarrow> 'w peon_env) \<Rightarrow> (addr \<Rightarrow> nt_msg) \<Rightarrow> addr list \<Rightarrow> ('w, 'c) peon_sys \<Rightarrow>
    ('w, 'c) peon_sys call" where
  "dispatch_all ts envs msgs [] ps = Done ps"
| "dispatch_all ts envs msgs (y # ys) ps =
    (case dispatch_one ts (envs y) (msgs y) ps of
       Stuck \<Rightarrow> Stuck | Done ps' \<Rightarrow> dispatch_all ts envs msgs ys ps')"

lemma dispatch_all_cong:
  "(\<And>y. y \<in> set ys \<Longrightarrow> msgs y = msgs' y) \<Longrightarrow>
    dispatch_all ts envs msgs ys ps = dispatch_all ts envs msgs' ys ps"
  by (induction ys arbitrary: ps) (simp_all split: call.split)

lemma dispatch_loop_pool:
  assumes "pool s xs ys"
  shows "case dispatch_all ts envs (sv_msgs s) ys ps of
      Stuck \<Rightarrow> dispatch_loop ts envs (nxt (sv_heap s) 1) (nxt (sv_heap s) (nxt (sv_heap s) 1)) s ps = Some Stuck
    | Done ps' \<Rightarrow> \<exists>s'. dispatch_loop ts envs (nxt (sv_heap s) 1) (nxt (sv_heap s) (nxt (sv_heap s) 1)) s ps =
        Some (Done (s', ps')) \<and> pool s' (xs @ ys) []"
  using assms
proof (induction ys arbitrary: s xs ps)
  case Nil
  have "nxt (sv_heap s) 1 = 1" using dl_rep_next [OF poolD(2) [OF Nil]] by simp
  then show ?case using Nil by (subst dispatch_loop.simps) simp
next
  case (Cons y ys)
  note p = poolD [OF Cons.prems]
  have fr: "nxt (sv_heap s) 1 = y" using dl_rep_next [OF p(2)] by simp
  have y1: "y \<noteq> 1" using dlq.rep_distinct [OF p(2)] by auto
  let ?h = "list_add_tail y 0 (list_del y (sv_heap s))"
  let ?s = "s\<lparr>sv_heap := ?h, sv_msgs := (sv_msgs s)(y := zero_nt_msg)\<rparr>"
  have dj: "set (1 # y # ys) \<inter> set (0 # xs) = {}" using p(3) by auto
  note mv = dlq.move_front [OF p(2,1) dj]
  have h: "list_first 1 (sv_heap s) = y" by (simp add: list_first_def fr)
  have ps: "pool ?s (xs @ [y]) ys"
    using mv p(3,4) dlq.rep_distinct [OF p(2)] unfolding h pool_def by auto
  have second: "nxt (sv_heap s) y = nxt ?h 1"
  proof -
    have "dl_path (sv_heap s) y ys 1" using p(2) by (simp add: dl_rep_def)
    from dl_path_first [OF this] have "nxt (sv_heap s) y = hd (ys @ [1])" .
    moreover have "nxt ?h 1 = hd (ys @ [1])" using dl_rep_next [OF poolD(2) [OF ps]] by simp
    ultimately show ?thesis by simp
  qed
  have loop: "dispatch_loop ts envs y (nxt (sv_heap s) y) s ps =
    (case dispatch_one ts (envs y) (sv_msgs s y) ps of
       Stuck \<Rightarrow> Some Stuck
     | Done ps' \<Rightarrow> dispatch_loop ts envs (nxt (sv_heap ?s) 1) (nxt (sv_heap ?s) (nxt (sv_heap ?s) 1)) ?s ps')" for ps
    using y1 second by (subst dispatch_loop.simps) (simp add: Let_def split: call.split)
  have same: "dispatch_all ts envs (sv_msgs ?s) ys ps' = dispatch_all ts envs (sv_msgs s) ys ps'" for ps'
    by (rule dispatch_all_cong) (use dlq.rep_distinct [OF p(2)] in auto)
  show ?case
  proof (cases "dispatch_one ts (envs y) (sv_msgs s y) ps")
    case Stuck
    then show ?thesis using loop by (simp add: fr)
  next
    case (Done ps')
    from Cons.IH [OF ps, of ps'] show ?thesis
      unfolding same using Done loop by (simp add: fr split: call.splits)
  qed
qed

text \<open>
  C17: \<open>snsd_msg_dispatch\<close> ends, handles every posted message exactly once in the order of
  posting, and returns all nodes to the free list, so the pool keeps its nodes; it stops short only
  when the connect layer blocks.
\<close>

theorem snsd_msg_dispatch_spec:
  assumes "pool s xs ys"
  shows "case dispatch_all ts envs (sv_msgs s) ys ps of
      Stuck \<Rightarrow> snsd_msg_dispatch ts envs s ps = Some Stuck
    | Done ps' \<Rightarrow> \<exists>s'. snsd_msg_dispatch ts envs s ps = Some (Done (s', ps')) \<and> pool s' (xs @ ys) []"
  using dispatch_loop_pool [OF assms, of ts envs ps]
  unfolding snsd_msg_dispatch_def msg_active_list_def .

theorem snsd_msg_dispatch_spec_witness:
  "\<exists>s' ps'. snsd_msg_dispatch (snsd_connect_templates_init :: (unit, unit) templates)
    (\<lambda>_. sample_env DynNoMemory) two_node_server (sample_sys []) = Some (Done (s', ps')) \<and> pool s' [2, 3] []"
proof -
  have none: "find_template snsd_connect_templates_init p = None" for p
    by (simp add: find_template_def snsd_connect_templates_init_def)
  have "dispatch_all snsd_connect_templates_init (\<lambda>_. sample_env DynNoMemory) (sv_msgs two_node_server)
      [3] (sample_sys []) = Done (sample_sys [])"
    by (simp add: dispatch_one_def snsd_connect_change_def snsd_connect_def snsd_disconnect_def none Let_def)
  with snsd_msg_dispatch_spec [OF two_node_pool, of snsd_connect_templates_init
      "\<lambda>_. sample_env DynNoMemory" "sample_sys []"]
  show ?thesis by auto
qed

declare One_nat_def [simp]

section \<open>Setting the pool up\<close>

lemma init_msg_loop_pool:
  assumes "pool s [2..<idx + 2] []"
  shows "case init_msg_loop ok idx n s of (s', k) \<Rightarrow> pool s' [2..<k + 2] [] \<and> k \<le> idx + n \<and>
    (k = idx + n \<longleftrightarrow> (\<forall>i. idx \<le> i \<and> i < idx + n \<longrightarrow> ok i))"
  using assms
proof (induction n arbitrary: idx s)
  case 0
  then show ?case by auto
next
  case (Suc n)
  show ?case
  proof (cases "ok idx")
    case False
    then show ?thesis using Suc.prems by (auto intro!: exI [of _ idx])
  next
    case True
    let ?s = "s\<lparr>sv_msgs := (sv_msgs s)(idx + 2 := zero_nt_msg),
       sv_heap := list_add_tail (idx + 2) 0 (sv_heap s)\<rparr>"
    note p = poolD [OF Suc.prems]
    have "dl_rep (sv_heap ?s) 0 ([2..<idx + 2] @ [idx + 2])"
      using dlq.rep_add_tail [OF p(1), of "idx + 2"] by simp
    moreover have "dl_rep (sv_heap ?s) 1 []"
      using dlq.frame_add_tail [OF p(1,2), of "idx + 2"] p(3) by simp
    ultimately have "pool ?s [2..<Suc idx + 2] []" by (simp add: pool_def)
    from Suc.IH [OF this] True show ?thesis
      by (auto simp: split_beta dest: le_neq_implies_less)
  qed
qed

lemma free_msg_resource_pool:
  assumes "pool s xs ys"
  shows "\<exists>s'. snsd_free_msg_resource s = Some (s', ys @ xs) \<and> pool s' [] [] \<and> sv_listeners s' = sv_listeners s"
proof -
  note p = poolD [OF assms]
  obtain h1 where h1: "list_del_each_safe 1 (nxt (sv_heap s) 1) (nxt (sv_heap s) (nxt (sv_heap s) 1)) (sv_heap s) =
      Some (h1, ys)" "dl_rep h1 1 []" "dl_rep h1 0 xs"
    using list_del_each_safe_rep [OF p(2)] p(1,3) by (auto simp: Int_commute)
  obtain h2 where h2: "list_del_each_safe 0 (nxt h1 0) (nxt h1 (nxt h1 0)) h1 = Some (h2, xs)"
      "dl_rep h2 0 []" "dl_rep h2 1 []"
    using list_del_each_safe_rep [OF h1(3)] h1(2) p(3) by auto
  have "snsd_free_msg_resource s = Some (s\<lparr>sv_heap := h2\<rparr>, ys @ xs)"
    using h1(1) h2(1) by (simp add: snsd_free_msg_resource_def snsd_free_msg_def)
  moreover have "pool (s\<lparr>sv_heap := h2\<rparr>) [] []" using h2 by (simp add: pool_def)
  ultimately show ?thesis by simp
qed

text \<open>
  Start-up either builds a pool of all 1000 messages or, when an allocation fails, frees every
  node it allocated, each once, and fails with \<open>ENOMEM\<close>.
\<close>

theorem snsd_init_sds_resource_spec:
  shows "\<exists>s res. snsd_init_sds_resource ok now = Some (s, res) \<and>
    (if \<forall>i < SNSD_MAX_MSG_NUM. ok i then res = Inr () \<and> pool s [2..<SNSD_MAX_MSG_NUM + 2] []
     else res = Inl ENOMEM \<and> pool s [] [])"
proof -
  let ?s0 = "(snsd_init_listeners now \<lparr>sv_listeners = replicate SNSD_MAX_LISTENER zero_listener, sv_last_semp_time = 0,
     sv_heap = INIT_LIST_HEAD msg_active_list (INIT_LIST_HEAD msg_recv_list \<lparr>nxt = (\<lambda>_. 0), prv = (\<lambda>_. 0)\<rparr>),
     sv_msgs = (\<lambda>_. zero_nt_msg), sv_drop_msg = 0, sv_ack = zero_ack\<rparr>)\<lparr>sv_drop_msg := 0\<rparr>"
  have p0: "pool ?s0 [2..<0 + 2] []"
    by (simp add: pool_def snsd_init_listeners_def dl_rep_def INIT_LIST_HEAD_def)
  have start: "snsd_init_sds_resource ok now = snsd_init_msg_resource ok ?s0"
    by (simp add: snsd_init_sds_resource_def Let_def snsd_init_listeners_def)
  obtain s k where l: "init_msg_loop ok 0 SNSD_MAX_MSG_NUM ?s0 = (s, k)" by fastforce
  with init_msg_loop_pool [OF p0, where ok = ok and n = SNSD_MAX_MSG_NUM]
  have k: "pool s [2..<k + 2] []" "k = 1000 \<longleftrightarrow> (\<forall>i < 1000. ok i)" by auto
  show ?thesis
  proof (cases "k = 1000")
    case True
    then show ?thesis using k l by (simp add: start snsd_init_msg_resource_def)
  next
    case False
    from free_msg_resource_pool [OF k(1)] show ?thesis
      using False k l by (auto simp: start snsd_init_msg_resource_def)
  qed
qed

theorem snsd_init_sds_resource_spec_witness:
  "\<exists>s. snsd_init_sds_resource (\<lambda>i. i < 3) 7 = Some (s, Inl ENOMEM) \<and> pool s [] []"
proof -
  have "\<not> (\<forall>i < SNSD_MAX_MSG_NUM. i < (3 :: nat))"
    by (auto intro!: exI [of _ 3])
  then show ?thesis using snsd_init_sds_resource_spec [of "\<lambda>i. i < 3" 7]
    by (simp only: if_False) blast
qed

end
