(* ===== verification/Snsd_Net.thy ===== *)
theory Snsd_Net
  imports Snsd_Server
begin

text \<open>
  The records of \<open>src/snsd.h\<close> and \<open>src/snsd_mgt.h\<close> that describe a network port, and
  the socket functions at the end of \<open>src/snsd_mgt.c\<close>.  The singly linked list of bonding
  slaves is a list, and the text \<open>bonding_slaves\<close> is \<open>None\<close> where the pointer is null.  What the kernel answers (\<open>socket\<close>, \<open>bind\<close>, the socket options,
  epoll) is the record \<open>sock_env\<close>.
\<close>

section \<open>Ports\<close>

definition STATE_VLAN_CHANGE :: u32 where [simp]: "STATE_VLAN_CHANGE = 1"
definition STATE_NEW_PORT :: u32 where [simp]: "STATE_NEW_PORT = 2"
definition STATE_BONDING_VALID :: u32 where [simp]: "STATE_BONDING_VALID = 1"
definition STATE_BONDING_CHANGE :: u32 where [simp]: "STATE_BONDING_CHANGE = 2"
definition STATE_SLAVE_FD_VALID :: u32 where [simp]: "STATE_SLAVE_FD_VALID = 1"
definition STATE_SLAVE_DELETED :: u32 where [simp]: "STATE_SLAVE_DELETED = 2"
definition MAX_PHY_PORT :: nat where [simp]: "MAX_PHY_PORT = 64"

text \<open>A flag test \<open>x & FLAG\<close> and the removal \<open>x &= ~FLAG\<close>.\<close>

definition flag_set :: "u32 \<Rightarrow> u32 \<Rightarrow> bool" where
  "flag_set x f \<longleftrightarrow> x AND f \<noteq> 0"

definition flag_clear :: "u32 \<Rightarrow> u32 \<Rightarrow> u32" where
  "flag_clear x f = x AND NOT f"

record slave_info =
  sl_ifindex :: int
  sl_fd_index :: nat
  sl_fd :: int
  sl_state :: u32
  sl_name :: "u8 list"

record port_info =
  pi_name :: "u8 list"
  pi_name_index :: u8
  pi_service_type :: u8
  pi_family :: nat
  pi_ip :: "u8 list"
  pi_tgtip :: "u8 list"
  pi_mac :: "u8 list"
  pi_protocol :: nat
  pi_protol_role :: u8
  pi_ulp_port :: u16
  pi_vlan :: int
  pi_flags :: u16
  pi_count :: u32
  pi_states :: u32
  pi_phy_ifindex :: int
  pi_phy_name :: "u8 list"
  pi_bonding_states :: u32
  pi_slaves_count :: int
  pi_bonding_slaves :: "string option"
  pi_slaves :: "slave_info list"

record lldp_run_info =
  lr_valid :: bool
  lr_fd :: int
  lr_expires :: int
  lr_interval_clock :: u32
  lr_index :: nat
  lr_flags :: u32

datatype direct_state = SNSD_CONNECT_INI | SNSD_CONNECTED | SNSD_DISCONNECTED

text \<open>
  \<open>struct snsd_net_info\<close>: the port and a union of the switch and the direct mode's state.
  The program keeps one list of ports per mode, so each list has the member its mode uses.
\<close>

record net_info =
  ni_port_info :: port_info

record sw_net_info = net_info +
  ni_lldp_info :: lldp_run_info

record dc_net_info = net_info +
  ni_direct_state :: direct_state

section \<open>Sockets\<close>

record sock_env =
  so_socket :: int
  so_bind :: int
  so_opts :: "unit result"
  so_epoll :: bool

text \<open>
  \<open>snsd_get_server_sock\<close>: the new socket, or a failure (of which its callers look at
  the sign only).
\<close>

definition snsd_get_server_sock ::
  "sock_env \<Rightarrow> port_related_info \<Rightarrow> server \<Rightarrow> server \<times> int option" where
  "snsd_get_server_sock env port s =
    (if so_socket env < 0 then (s, None)
     else if so_bind env \<noteq> 0 then (s, None)
     else case snsd_update_server (so_opts env) (so_epoll env) (so_socket env) port SNSD_SOCK_CREATE s of
       (s, Inl e) \<Rightarrow> (s, None)
     | (s, Inr _) \<Rightarrow> (s, Some (so_socket env)))"

definition snsd_sock_close :: "int \<Rightarrow> server \<Rightarrow> server" where
  "snsd_sock_close sock_fd s = fst (snsd_remove_server sock_fd s)"

datatype update_ip_event = SNSD_UPDATE_ADD_IP | SNSD_UPDATE_REMOVE_IP

definition snsd_update_sock_ip ::
  "int \<Rightarrow> port_related_info \<Rightarrow> update_ip_event \<Rightarrow> server \<Rightarrow> server \<times> unit result" where
  "snsd_update_sock_ip sock_fd port update_type s =
    (if update_type = SNSD_UPDATE_ADD_IP
     then snsd_update_server (Inr ()) True sock_fd port SNSD_SOCK_ADD_IP s
     else snsd_update_server (Inr ()) True sock_fd port SNSD_SOCK_REMOVE_IP s)"

end
