(* ===== verification/Snsd_Lldp.thy ===== *)
theory Snsd_Lldp
  imports Snsd_Net
begin

text \<open>
  \<open>src/snsd_reg.c\<close> and the packed LLDP structures of \<open>src/snsd_reg.h\<close>: the frame that
  announces a port to the switch, and sending it on a physical port or on every slave of a
  bonding.  Each builder returns the bytes it writes; the frame of \<open>lldp_send\<close> is their
  concatenation, because each one starts where the previous ended.  \<open>lldp_tlvs\<close> is a
  receiver of LLDP frames (IEEE 802.1AB), against which the frame is checked.
\<close>

section \<open>Constants\<close>

definition LLDP_EXTEND_SUB_TYPE :: u8 where [simp]: "LLDP_EXTEND_SUB_TYPE = 101"
definition LLDP_EXTEND_SMART_VERSION :: u8 where [simp]: "LLDP_EXTEND_SMART_VERSION = 1"
definition LLDP_TLV_TYPE_SHIFT_LEFT_BIT :: nat where [simp]: "LLDP_TLV_TYPE_SHIFT_LEFT_BIT = 9"
definition LLDP_MAX_LENGTH :: nat where [simp]: "LLDP_MAX_LENGTH = 1514"
definition LLDP_PROTOCOL_TYPE :: nat where [simp]: "LLDP_PROTOCOL_TYPE = 0x88cc"
definition LLDP_OLD_TIME :: nat where [simp]: "LLDP_OLD_TIME = 120"
definition LLDP_WAIT_OLD_TIME :: nat where [simp]: "LLDP_WAIT_OLD_TIME = 10"
definition LLDP_INTERVAL_CLOCK :: u32 where [simp]: "LLDP_INTERVAL_CLOCK = 30"
definition LLDP_ADDR_TYPE_IPV4 :: u8 where [simp]: "LLDP_ADDR_TYPE_IPV4 = 1"
definition LLDP_ADDR_TYPE_IPV6 :: u8 where [simp]: "LLDP_ADDR_TYPE_IPV6 = 2"
definition LLDP_TYPE_END :: nat where [simp]: "LLDP_TYPE_END = 0"
definition LLDP_TYPE_CHASSIS_ID :: nat where [simp]: "LLDP_TYPE_CHASSIS_ID = 1"
definition LLDP_TYPE_PORT_ID :: nat where [simp]: "LLDP_TYPE_PORT_ID = 2"
definition LLDP_TYPE_TIME_TO_LIVE :: nat where [simp]: "LLDP_TYPE_TIME_TO_LIVE = 3"
definition LLDP_TYPE_EXTEND :: nat where [simp]: "LLDP_TYPE_EXTEND = 127"
definition LLDP_CHASSIS_ID_SUB_TYPE_MAC :: u8 where [simp]: "LLDP_CHASSIS_ID_SUB_TYPE_MAC = 4"
definition LLDP_PORT_ID_SUB_TYPE_NAME :: u8 where [simp]: "LLDP_PORT_ID_SUB_TYPE_NAME = 5"
definition LLDP_FLAG_DISCONNECT :: u32 where [simp]: "LLDP_FLAG_DISCONNECT = 1"
definition NVMEOF_VERSION :: nat where [simp]: "NVMEOF_VERSION = 0x101"
definition MAC_LENGTH :: nat where [simp]: "MAC_LENGTH = 6"
definition IFNAMSIZ :: nat where [simp]: "IFNAMSIZ = 16"
definition sizeof_lldp_smart_tlv :: nat where [simp]: "sizeof_lldp_smart_tlv = 33"

text \<open>\<open>"snsd_"\<close>, as bytes.\<close>

definition LLDP_SMART_PREFIX :: "u8 list" where
  [simp]: "LLDP_SMART_PREFIX = [0x73, 0x6e, 0x73, 0x64, 0x5f]"

text \<open>The characters of a C string: what comes before the terminator.\<close>

definition c_str :: "u8 list \<Rightarrow> u8 list" where
  "c_str s = takeWhile (\<lambda>c. c \<noteq> 0) s"

section \<open>Building the frame\<close>

definition lldp_init_eth_header :: "u8 list \<Rightarrow> u8 list" where
  "lldp_init_eth_header mac =
    [0x01, 0x80, 0xc2, 0x00, 0x00, 0x0e] @ take MAC_LENGTH mac @ be16 LLDP_PROTOCOL_TYPE"

definition lldp_type_length :: "nat \<Rightarrow> nat \<Rightarrow> nat" where
  "lldp_type_length type len = push_bit LLDP_TLV_TYPE_SHIFT_LEFT_BIT type OR len"

definition lldp_init_chassis_id_tlv :: "u8 list \<Rightarrow> u8 list" where
  "lldp_init_chassis_id_tlv mac =
    be16 (lldp_type_length LLDP_TYPE_CHASSIS_ID (MAC_LENGTH + 1)) @
    [LLDP_CHASSIS_ID_SUB_TYPE_MAC] @ take MAC_LENGTH mac"

definition lldp_create_port_id :: "u8 list \<Rightarrow> u8 \<Rightarrow> u8 list" where
  "lldp_create_port_id name name_index =
    c_str name @ [0x5f, 0x30 + word_of_nat (unat name_index div 10 mod 10),
      0x30 + word_of_nat (unat name_index mod 10), 0]"

definition lldp_create_port_id_tlv :: "u8 list \<Rightarrow> u8 list" where
  "lldp_create_port_id_tlv name =
    (let prefix_length = length LLDP_SMART_PREFIX; name_length = length (c_str name);
         name_length = name_length + prefix_length; name_length = name_length + 1 in
     be16 (lldp_type_length LLDP_TYPE_PORT_ID name_length) @ [LLDP_PORT_ID_SUB_TYPE_NAME] @
     LLDP_SMART_PREFIX @ c_str name)"

definition lldp_init_time_to_live_tlv :: "nat \<Rightarrow> u8 list" where
  "lldp_init_time_to_live_tlv time = be16 (lldp_type_length LLDP_TYPE_TIME_TO_LIVE 2) @ be16 time"

definition lldp_create_smart_tlv :: "port_info \<Rightarrow> u8 list option \<Rightarrow> u8 list" where
  "lldp_create_smart_tlv port_info nqn_name =
    (let nqn = (case nqn_name of None \<Rightarrow> [] | Some s \<Rightarrow> c_str s);
         nqn_length = length nqn mod 2 ^ 16;
         len = nqn_length + sizeof_lldp_smart_tlv;
         service = pi_service_type port_info AND 0xf0;
         (addr_service_type, ip_addr) =
           (if pi_family port_info = AF_INET
            then (service OR LLDP_ADDR_TYPE_IPV4,
                  take IPV4_ADDR_LENGTH (pi_ip port_info) @ replicate 12 0)
            else (service OR LLDP_ADDR_TYPE_IPV6, take IPV6_ADDR_LENGTH (pi_ip port_info))) in
     be16 (lldp_type_length LLDP_TYPE_EXTEND (len - 2)) @
     [0, 0x18, 0x82, LLDP_EXTEND_SUB_TYPE, LLDP_EXTEND_SMART_VERSION, addr_service_type, 0, 0] @
     ip_addr @ [pi_protol_role port_info, word_of_nat (pi_protocol port_info)] @
     be16 NVMEOF_VERSION @ be16 (unat (pi_ulp_port port_info)) @ [word_of_nat nqn_length] @
     take nqn_length nqn)"

definition lldp_init_end_tlv :: "u8 list" where
  "lldp_init_end_tlv = be16 0"

definition lldp_frame :: "port_info \<Rightarrow> u8 list option \<Rightarrow> u8 list" where
  "lldp_frame port_info nqn_name =
    lldp_init_eth_header (pi_mac port_info) @
    lldp_init_chassis_id_tlv (pi_mac port_info) @
    lldp_create_port_id_tlv (lldp_create_port_id (pi_name port_info) (pi_name_index port_info)) @
    lldp_init_time_to_live_tlv LLDP_OLD_TIME @
    lldp_create_smart_tlv port_info nqn_name @
    lldp_init_end_tlv"

section \<open>Sending\<close>

text \<open>
  What the system answers: whether \<open>malloc\<close> succeeds, the socket that asks for a slave's
  flags, these flags (or a failure of the \<open>ioctl\<close>), and the number of bytes \<open>send\<close>
  took.  The senders return the frames they sent, in order, with their socket.
\<close>

record send_env =
  se_malloc :: bool
  se_socket :: "slave_info \<Rightarrow> int"
  se_flags :: "slave_info \<Rightarrow> u16 option"
  se_send :: "int \<Rightarrow> u8 list \<Rightarrow> int"

type_synonym sent = "(int \<times> u8 list) list"

definition lldp_send ::
  "send_env \<Rightarrow> int \<Rightarrow> port_info \<Rightarrow> u8 list option \<Rightarrow> sent \<times> unit result" where
  "lldp_send env fd port_info nqn_name =
    (if \<not> se_malloc env then ([], Inl ENOMEM)
     else let lldp = lldp_frame port_info nqn_name in
       if se_send env fd lldp \<noteq> int (length lldp) then ([], Inl EIO)
       else ([(fd, lldp)], Inr ()))"

definition lldp_send_slave ::
  "send_env \<Rightarrow> slave_info \<Rightarrow> port_info \<Rightarrow> u8 list option \<Rightarrow> sent \<times> unit result" where
  "lldp_send_slave env slave port_info nqn_name =
    (if se_socket env slave < 0 then ([], Inl EAGAIN)
     else case se_flags env slave of
       None \<Rightarrow> ([], Inl EAGAIN)
     | Some flags \<Rightarrow>
         if \<not> is_linkup flags then ([], Inr ())
         else lldp_send env (sl_fd slave) port_info nqn_name)"

fun send_slaves ::
  "send_env \<Rightarrow> slave_info list \<Rightarrow> port_info \<Rightarrow> u8 list option \<Rightarrow> sent \<times> unit result" where
  "send_slaves env [] port_info nqn_name = ([], Inr ())"
| "send_slaves env (slave # slaves) port_info nqn_name =
    (case lldp_send_slave env slave port_info nqn_name of
       (out, Inl e) \<Rightarrow> (out, Inl e)
     | (out, Inr _) \<Rightarrow>
         (let (out', ret) = send_slaves env slaves port_info nqn_name in (out @ out', ret)))"

definition lldp_send_bonding ::
  "send_env \<Rightarrow> port_info \<Rightarrow> u8 list option \<Rightarrow> sent \<times> unit result" where
  "lldp_send_bonding env port_info nqn_name =
    send_slaves env (pi_slaves port_info) port_info nqn_name"

section \<open>A receiver\<close>

text \<open>
  The TLVs of a frame's payload, up to the end TLV: a type of 7 bits, a length of 9 bits and
  that many bytes.  \<open>None\<close> is a malformed payload.
\<close>

function lldp_tlvs :: "u8 list \<Rightarrow> (nat \<times> u8 list) list option" where
  "lldp_tlvs (a # b # rest) =
    (let type = be16_val a b div 512; len = be16_val a b mod 512 in
     if type = LLDP_TYPE_END then (if len = 0 then Some [] else None)
     else if length rest < len then None
     else map_option ((#) (type, take len rest)) (lldp_tlvs (drop len rest)))"
| "lldp_tlvs [a] = None"
| "lldp_tlvs [] = None"
  by pat_completeness auto
termination by (relation "measure length") auto

text \<open>What a receiver knows of the port from the organizationally specific TLV.\<close>

record smart_view =
  sm_addr_type :: u8
  sm_service :: u8
  sm_addr :: "u8 list"
  sm_role :: u8
  sm_protocol :: u8
  sm_version :: nat
  sm_port :: nat
  sm_nqn :: "u8 list"

definition smart_tlv_view :: "u8 list \<Rightarrow> smart_view option" where
  "smart_tlv_view d =
    (if length d < 31 \<or> take 5 d \<noteq> [0, 0x18, 0x82, 101, 1] then None
     else Some \<lparr>sm_addr_type = d ! 5 AND 0xf, sm_service = d ! 5 AND 0xf0,
       sm_addr = take (if d ! 5 AND 0xf = 1 then 4 else 16) (drop 8 d), sm_role = d ! 24,
       sm_protocol = d ! 25, sm_version = be16_val (d ! 26) (d ! 27),
       sm_port = be16_val (d ! 28) (d ! 29), sm_nqn = take (unat (d ! 30)) (drop 31 d)\<rparr>)"

section \<open>Properties\<close>

lemma lldp_type_length_eq:
  assumes "n < 512"
  shows "lldp_type_length t n = 512 * t + n"
proof -
  have "push_bit 9 t OR n = push_bit 9 t + n"
  proof (rule disjunctive_add_eq_or [symmetric])
    show "push_bit 9 t AND n = 0"
    proof (rule bit_eqI)
      fix i
      have "\<not> bit n i" if "9 \<le> i"
      proof -
        have "(2::nat) ^ 9 \<le> 2 ^ i" using that by (intro power_increasing) auto
        then have "n < 2 ^ i" using assms by simp
        then show ?thesis by (simp add: bit_iff_odd)
      qed
      then show "bit (push_bit 9 t AND n) i = bit 0 i"
        by (auto simp: bit_and_iff bit_push_bit_iff)
    qed
  qed
  then show ?thesis by (simp add: lldp_type_length_def push_bit_eq_mult)
qed

lemma lldp_tlvs_step:
  assumes "0 < t" "t < 128" "length d < 512"
  shows "lldp_tlvs (be16 (lldp_type_length t (length d)) @ d @ rest) =
    map_option ((#) (t, d)) (lldp_tlvs rest)"
proof -
  have v: "be16_val (word_of_nat ((512 * t + length d) div 256)) (word_of_nat (512 * t + length d))
    = 512 * t + length d"
    using assms by (intro be16_val_be16) simp
  have "be16 (lldp_type_length t (length d)) =
    [word_of_nat ((512 * t + length d) div 256), word_of_nat (512 * t + length d)]"
    using assms by (simp add: lldp_type_length_eq be16_def)
  moreover have "(512 * t + length d) div 512 = t" "(512 * t + length d) mod 512 = length d"
    using assms by simp_all
  ultimately show ?thesis using assms v by (simp add: Let_def)
qed

lemma lldp_tlvs_end: "lldp_tlvs (be16 0 @ rest) = Some []"
  by (simp add: be16_def be16_val_def)

definition port_id_string :: "port_info \<Rightarrow> u8 list" where
  "port_id_string p = LLDP_SMART_PREFIX @ c_str (lldp_create_port_id (pi_name p) (pi_name_index p))"

lemma digit_nonzero: "n < 10 \<Longrightarrow> (0x30 + word_of_nat n :: u8) \<noteq> 0"
proof -
  assume n: "n < 10"
  have "(0x30 + word_of_nat n :: u8) = word_of_nat (48 + n)" by simp
  also have "\<dots> \<noteq> 0"
    using n by (simp only: word_of_nat_eq_0_iff) (auto dest: dvd_imp_le)
  finally show ?thesis .
qed

lemma c_str_append: "(\<forall>c \<in> set xs. c \<noteq> 0) \<Longrightarrow> c_str (xs @ 0 # ys) = xs"
  by (induction xs) (simp_all add: c_str_def)

lemma c_str_nonzero: "c \<in> set (c_str s) \<Longrightarrow> c \<noteq> 0"
  by (auto simp: c_str_def dest: set_takeWhileD)

lemma c_str_port_id:
  "c_str (lldp_create_port_id name i) = c_str name @ [0x5f,
    0x30 + word_of_nat (unat i div 10 mod 10), 0x30 + word_of_nat (unat i mod 10)]"
proof -
  have "c_str ((c_str name @ [0x5f, 0x30 + word_of_nat (unat i div 10 mod 10),
      0x30 + word_of_nat (unat i mod 10)]) @ 0 # []) =
    c_str name @ [0x5f, 0x30 + word_of_nat (unat i div 10 mod 10), 0x30 + word_of_nat (unat i mod 10)]"
    by (rule c_str_append) (auto dest: c_str_nonzero simp: digit_nonzero)
  then show ?thesis by (simp add: lldp_create_port_id_def)
qed

lemma and_or_and: "((x :: u8) AND a OR b) AND c = (x AND (a AND c)) OR (b AND c)"
  by (simp add: bit.conj_disj_distrib2 and.assoc)

lemma service_bits:
  "((x :: u8) AND 0xf0 OR 1) AND 0xf = 1" "(x AND 0xf0 OR 2) AND 0xf = 2"
  "(x AND 0xf0 OR 1) AND 0xf0 = x AND 0xf0" "(x AND 0xf0 OR 2) AND 0xf0 = x AND 0xf0"
  by (simp_all add: and_or_and)

text \<open>The value of the organizationally specific TLV, without its type and length.\<close>

definition smart_body :: "port_info \<Rightarrow> u8 list \<Rightarrow> u8 list" where
  "smart_body p nqn =
    [0, 0x18, 0x82, 101, 1,
      pi_service_type p AND 0xf0 OR (if pi_family p = AF_INET then 1 else 2), 0, 0] @
    (if pi_family p = AF_INET then take 4 (pi_ip p) @ replicate 12 0 else take 16 (pi_ip p)) @
    [pi_protol_role p, word_of_nat (pi_protocol p)] @
    be16 NVMEOF_VERSION @ be16 (unat (pi_ulp_port p)) @ [word_of_nat (length nqn)] @ nqn"

definition nqn_chars :: "u8 list option \<Rightarrow> u8 list" where
  "nqn_chars nqn_name = (case nqn_name of None \<Rightarrow> [] | Some s \<Rightarrow> c_str s)"

lemma length_smart_body:
  "length (pi_ip p) = 16 \<Longrightarrow> length (smart_body p nqn) = 31 + length nqn"
  by (simp add: smart_body_def)

lemma lldp_create_smart_tlv_eq:
  assumes "length (pi_ip p) = 16" "length (nqn_chars nqn_name) < 256"
  shows "lldp_create_smart_tlv p nqn_name =
    be16 (lldp_type_length LLDP_TYPE_EXTEND (length (smart_body p (nqn_chars nqn_name)))) @
    smart_body p (nqn_chars nqn_name)"
proof -
  define n where "n = nqn_chars nqn_name"
  have "length n mod 65536 = length n" using assms(2) by (simp add: n_def)
  then have "lldp_create_smart_tlv p nqn_name =
    be16 (lldp_type_length LLDP_TYPE_EXTEND (length n + 31)) @ smart_body p n"
    unfolding lldp_create_smart_tlv_def nqn_chars_def [symmetric] n_def [symmetric]
    by (simp add: Let_def smart_body_def add.commute)
  then show ?thesis using assms(1) by (simp add: n_def length_smart_body add.commute)
qed

lemma smart_tlv_view_body:
  assumes "length (pi_ip p) = 16" "length nqn < 256"
  shows "smart_tlv_view (smart_body p nqn) = Some \<lparr>
    sm_addr_type = (if pi_family p = AF_INET then LLDP_ADDR_TYPE_IPV4 else LLDP_ADDR_TYPE_IPV6),
    sm_service = pi_service_type p AND 0xf0,
    sm_addr = take (if pi_family p = AF_INET then 4 else 16) (pi_ip p),
    sm_role = pi_protol_role p, sm_protocol = word_of_nat (pi_protocol p),
    sm_version = NVMEOF_VERSION, sm_port = unat (pi_ulp_port p), sm_nqn = nqn\<rparr>"
proof -
  have port: "unat (pi_ulp_port p) < 65536"
    using unsigned_less [of "pi_ulp_port p", where ?'a = nat] by simp
  have n: "unat (word_of_nat (length nqn) :: u8) = length nqn"
    using assms(2) by (simp add: unat_of_nat)
  have ip4: "length (take 4 (pi_ip p) @ replicate 12 (0 :: u8)) = 16"
    "length (take 16 (pi_ip p)) = 16" using assms(1) by simp_all
  show ?thesis
    using assms be16_val_be16 [OF port] n
    by (simp add: smart_tlv_view_def length_smart_body)
      (simp add: smart_body_def be16_def be16_val_def nth_append service_bits)
qed

lemma c_str_port_id_string:
  "port_id_string p = LLDP_SMART_PREFIX @ c_str (pi_name p) @ [0x5f,
    0x30 + word_of_nat (unat (pi_name_index p) div 10 mod 10),
    0x30 + word_of_nat (unat (pi_name_index p) mod 10)]"
  by (simp add: port_id_string_def c_str_port_id)

lemma c_str_idem: "c_str (c_str s) = c_str s"
  by (simp add: c_str_def)

lemma lldp_create_port_id_tlv_eq:
  "lldp_create_port_id_tlv (lldp_create_port_id (pi_name p) (pi_name_index p)) =
    be16 (lldp_type_length LLDP_TYPE_PORT_ID (length (5 # port_id_string p))) @
    5 # port_id_string p"
  by (simp add: lldp_create_port_id_tlv_def port_id_string_def Let_def)

lemma length_lldp_create_port_id: "length (lldp_create_port_id name i) = length (c_str name) + 4"
  by (simp add: lldp_create_port_id_def)

lemma lldp_frame_tlvs:
  assumes "length (pi_mac p) = 6" "length (pi_ip p) = 16" "length (c_str (pi_name p)) < IFNAMSIZ"
    and "length (nqn_chars nqn_name) < 256"
  shows "lldp_tlvs (drop 14 (lldp_frame p nqn_name)) = Some [
    (LLDP_TYPE_CHASSIS_ID, LLDP_CHASSIS_ID_SUB_TYPE_MAC # pi_mac p),
    (LLDP_TYPE_PORT_ID, LLDP_PORT_ID_SUB_TYPE_NAME # port_id_string p),
    (LLDP_TYPE_TIME_TO_LIVE, be16 LLDP_OLD_TIME),
    (LLDP_TYPE_EXTEND, smart_body p (nqn_chars nqn_name))]"
proof -
  let ?b = "smart_body p (nqn_chars nqn_name)"
  have d14: "drop 14 (lldp_frame p nqn_name) =
    be16 (lldp_type_length LLDP_TYPE_CHASSIS_ID (length (4 # pi_mac p))) @ (4 # pi_mac p) @
    be16 (lldp_type_length LLDP_TYPE_PORT_ID (length (5 # port_id_string p))) @ (5 # port_id_string p) @
    be16 (lldp_type_length LLDP_TYPE_TIME_TO_LIVE (length (be16 LLDP_OLD_TIME))) @ be16 LLDP_OLD_TIME @
    be16 (lldp_type_length LLDP_TYPE_EXTEND (length ?b)) @ ?b @ be16 0"
    unfolding lldp_frame_def lldp_create_port_id_tlv_eq lldp_create_smart_tlv_eq [OF assms(2,4)]
    using assms(1) by (simp add: lldp_init_eth_header_def lldp_init_chassis_id_tlv_def
        lldp_init_time_to_live_tlv_def lldp_init_end_tlv_def)
  have "length (4 # pi_mac p) < 512" "length (be16 LLDP_OLD_TIME) < 512"
    "length (5 # port_id_string p) < 512" "length ?b < 512"
    using assms by (simp_all add: c_str_port_id_string length_smart_body)
  then have "lldp_tlvs (drop 14 (lldp_frame p nqn_name)) =
    map_option ((#) (LLDP_TYPE_CHASSIS_ID, 4 # pi_mac p))
      (map_option ((#) (LLDP_TYPE_PORT_ID, 5 # port_id_string p))
        (map_option ((#) (LLDP_TYPE_TIME_TO_LIVE, be16 LLDP_OLD_TIME))
          (map_option ((#) (LLDP_TYPE_EXTEND, ?b)) (lldp_tlvs (be16 0)))))"
    unfolding d14 by (intro lldp_tlvs_step [THEN trans] arg_cong [where f = "map_option _"]) simp_all
  then show ?thesis using lldp_tlvs_end [of "[]"] by simp
qed

text \<open>
  C31: the frame that announces a port is a well-formed LLDP frame: it is addressed to the bridge
  multicast address, comes from the port's MAC address, fits the transmit buffer, and a receiver
  reads from it exactly the mandatory TLVs (chassis, port, time to live) in their order and one
  organizationally specific TLV with the port's address, service, role, protocol and port
  number.  The port string fits the buffer it is built in.
\<close>

theorem lldp_frame_announces:
  assumes "length (pi_mac p) = 6" and "length (pi_ip p) = 16"
    and "length (c_str (pi_name p)) < IFNAMSIZ" and "length (nqn_chars nqn_name) < 256"
  shows "take 14 (lldp_frame p nqn_name) =
      [0x01, 0x80, 0xc2, 0x00, 0x00, 0x0e] @ pi_mac p @ [0x88, 0xcc] \<and>
    (\<exists>d. lldp_tlvs (drop 14 (lldp_frame p nqn_name)) = Some [
        (LLDP_TYPE_CHASSIS_ID, LLDP_CHASSIS_ID_SUB_TYPE_MAC # pi_mac p),
        (LLDP_TYPE_PORT_ID, LLDP_PORT_ID_SUB_TYPE_NAME # port_id_string p),
        (LLDP_TYPE_TIME_TO_LIVE, be16 LLDP_OLD_TIME),
        (LLDP_TYPE_EXTEND, d)] \<and>
      smart_tlv_view d = Some \<lparr>
        sm_addr_type = (if pi_family p = AF_INET then LLDP_ADDR_TYPE_IPV4 else LLDP_ADDR_TYPE_IPV6),
        sm_service = pi_service_type p AND 0xf0,
        sm_addr = take (if pi_family p = AF_INET then 4 else 16) (pi_ip p),
        sm_role = pi_protol_role p, sm_protocol = word_of_nat (pi_protocol p),
        sm_version = NVMEOF_VERSION, sm_port = unat (pi_ulp_port p), sm_nqn = nqn_chars nqn_name\<rparr>) \<and>
    length (lldp_frame p nqn_name) \<le> LLDP_MAX_LENGTH \<and>
    length (lldp_create_port_id (pi_name p) (pi_name_index p)) \<le> IFNAMSIZ + 3"
proof (intro conjI exI)
  show "take 14 (lldp_frame p nqn_name) =
      [0x01, 0x80, 0xc2, 0x00, 0x00, 0x0e] @ pi_mac p @ [0x88, 0xcc]"
    using assms(1) by (simp add: lldp_frame_def lldp_init_eth_header_def be16_def)
  show "length (lldp_frame p nqn_name) \<le> LLDP_MAX_LENGTH"
    unfolding lldp_frame_def lldp_create_port_id_tlv_eq lldp_create_smart_tlv_eq [OF assms(2,4)]
    using assms by (simp add: lldp_init_eth_header_def lldp_init_chassis_id_tlv_def
        lldp_init_time_to_live_tlv_def lldp_init_end_tlv_def length_smart_body c_str_port_id_string)
  show "length (lldp_create_port_id (pi_name p) (pi_name_index p)) \<le> IFNAMSIZ + 3"
    using assms(3) by (simp add: length_lldp_create_port_id)
qed (rule lldp_frame_tlvs smart_tlv_view_body; use assms in simp)+

definition sample_host_port :: "u8 list \<Rightarrow> u8 \<Rightarrow> port_info" where
  "sample_host_port name index = \<lparr>pi_name = name, pi_name_index = index, pi_service_type = 0x13,
    pi_family = AF_INET, pi_ip = [192, 168, 1, 2] @ replicate 12 0, pi_tgtip = replicate 16 0,
    pi_mac = [2, 0, 0, 0, 0, 9], pi_protocol = SNSD_PROTOCOL_ROCE, pi_protol_role = 2,
    pi_ulp_port = 4420, pi_vlan = 100, pi_flags = IFF_RUNNING, pi_count = 0, pi_states = 0, pi_phy_ifindex = 3,
    pi_phy_name = name, pi_bonding_states = 0, pi_slaves_count = 0,
    pi_bonding_slaves = None, pi_slaves = []\<rparr>"

text \<open>\<open>eth0\<close>, terminated.\<close>

definition sample_name :: "u8 list" where
  "sample_name = [101, 116, 104, 48] @ replicate 12 0"

theorem lldp_frame_announces_witness:
  "\<exists>d. lldp_tlvs (drop 14 (lldp_frame (sample_host_port sample_name 1) None)) = Some [
      (1, [4, 2, 0, 0, 0, 0, 9]), (2, 5 # port_id_string (sample_host_port sample_name 1)),
      (3, [0, 120]), (127, d)] \<and>
    smart_tlv_view d = Some \<lparr>sm_addr_type = 1, sm_service = 0x10, sm_addr = [192, 168, 1, 2],
      sm_role = 2, sm_protocol = 1, sm_version = 0x101, sm_port = 4420, sm_nqn = []\<rparr>"
proof -
  have "length (pi_mac (sample_host_port sample_name 1)) = 6" "length (pi_ip (sample_host_port sample_name 1)) = 16"
    "length (c_str (pi_name (sample_host_port sample_name 1))) < IFNAMSIZ" "length (nqn_chars None) < 256"
    by (simp_all add: sample_host_port_def sample_name_def c_str_def nqn_chars_def)
  from lldp_frame_announces [OF this] show ?thesis
    by (simp add: sample_host_port_def be16_def nqn_chars_def)
qed

lemma digit_inj: "a < 10 \<Longrightarrow> b < 10 \<Longrightarrow> (word_of_nat a :: u8) = word_of_nat b \<longleftrightarrow> a = b"
proof
  assume "a < 10" "b < 10" and eq: "(word_of_nat a :: u8) = word_of_nat b"
  then have "unat (word_of_nat a :: u8) = unat (word_of_nat b :: u8)" by simp
  with \<open>a < 10\<close> \<open>b < 10\<close> show "a = b" by (simp add: unat_of_nat)
qed simp

lemma digits_eq: "(m div 10 mod 10 = n div 10 mod 10 \<and> m mod 10 = n mod 10) \<longleftrightarrow>
  m mod 100 = n mod (100 :: nat)"
proof -
  have "k mod 100 = 10 * (k div 10 mod 10) + k mod 10" for k :: nat
    using mod_mult2_eq [of k 10 10] by simp
  moreover have "k mod 100 div 10 = k div 10 mod 10" "k mod 100 mod 10 = k mod 10" for k :: nat
    by (auto simp: calculation mod_mod_cancel)
  ultimately show ?thesis by metis
qed

text \<open>
  The port string identifies a port to the switch: two ports announce the same string exactly
  if they have the same interface name and the same address index (indices are below 100).
\<close>

theorem port_id_identifies:
  "port_id_string p = port_id_string q \<longleftrightarrow>
    c_str (pi_name p) = c_str (pi_name q) \<and>
    unat (pi_name_index p) mod 100 = unat (pi_name_index q) mod 100"
  by (auto simp: c_str_port_id_string digit_inj digits_eq [symmetric] simp del: word_of_nat_eq_iff)

lemma lldp_send_slave_Inr:
  "lldp_send_slave env s p nqn = (out, Inr r) \<Longrightarrow>
    (\<exists>flags. se_flags env s = Some flags \<and>
      out = (if is_linkup flags then [(sl_fd s, lldp_frame p nqn)] else []))"
  by (auto simp: lldp_send_slave_def lldp_send_def Let_def split: if_splits option.splits)

lemma lldp_send_slave_Inl: "lldp_send_slave env s p nqn = (out, Inl e) \<Longrightarrow> out = []"
  by (auto simp: lldp_send_slave_def lldp_send_def Let_def split: if_splits option.splits)

definition slave_up :: "send_env \<Rightarrow> slave_info \<Rightarrow> bool" where
  "slave_up env s = (case se_flags env s of None \<Rightarrow> False | Some flags \<Rightarrow> is_linkup flags)"

text \<open>
  A bonding is announced on its slaves in their order, on each one whose link is up, until the
  first slave that fails: the call reports that slave's error, and the slaves behind it are not
  announced on.  It succeeds exactly if no slave fails.
\<close>

theorem lldp_send_bonding_spec:
  "lldp_send_bonding env p nqn =
    (let slaves = pi_slaves p; k = first_idx (\<lambda>s. snd (lldp_send_slave env s p nqn) \<noteq> Inr ()) slaves in
     (map (\<lambda>s. (sl_fd s, lldp_frame p nqn))
        (filter (slave_up env) (case k of None \<Rightarrow> slaves | Some i \<Rightarrow> take i slaves)),
      (case k of None \<Rightarrow> Inr () | Some i \<Rightarrow> snd (lldp_send_slave env (slaves ! i) p nqn))))"
proof -
  have "send_slaves env ss p nqn =
    (let k = first_idx (\<lambda>s. snd (lldp_send_slave env s p nqn) \<noteq> Inr ()) ss in
     (map (\<lambda>s. (sl_fd s, lldp_frame p nqn))
        (filter (slave_up env) (case k of None \<Rightarrow> ss | Some i \<Rightarrow> take i ss)),
      (case k of None \<Rightarrow> Inr () | Some i \<Rightarrow> snd (lldp_send_slave env (ss ! i) p nqn))))" for ss
  proof (induction ss)
    case Nil
    then show ?case by simp
  next
    case (Cons s ss)
    obtain out ret where r: "lldp_send_slave env s p nqn = (out, ret)" by fastforce
    show ?case
    proof (cases ret)
      case (Inl e)
      then show ?thesis using r lldp_send_slave_Inl by (fastforce simp: Let_def)
    next
      case (Inr u)
      with r have "out = (if slave_up env s then [(sl_fd s, lldp_frame p nqn)] else [])"
        by (auto dest!: lldp_send_slave_Inr simp: slave_up_def)
      with Inr r Cons show ?thesis
        by (cases "first_idx (\<lambda>s. snd (lldp_send_slave env s p nqn) \<noteq> Inr ()) ss")
          (simp_all add: Let_def del: first_idx_None)
    qed
  qed
  then show ?thesis unfolding lldp_send_bonding_def Let_def .
qed

end
