(* ===== verification/Snsd_Query.thy ===== *)
theory Snsd_Query
  imports Snsd_Lldp Snsd_Tlv_Props
begin

text \<open>
  The zone query of \<open>src/snsd_server.c\<close> (\<open>snsd_build_query_tlv\<close>): the frame a port sends
  to ask the switch for the notifications of its zone.  The packed structure is a record whose
  address union is a byte list; \<open>query_bytes\<close> is its memory, which the callers send as it is.
\<close>

definition QUERY_ZONE_TLV :: u8 where [simp]: "QUERY_ZONE_TLV = 3"

record query_zone_tlv =
  qz_h_dest :: "u8 list"
  qz_h_source :: "u8 list"
  qz_h_proto :: nat
  qz_ver :: u8
  qz_reserved0 :: u8
  qz_tlv_len :: nat
  qz_reserved1 :: "u8 list"
  qz_type :: u8
  qz_len :: nat
  qz_ip_tlv :: "u8 list"

definition query_bytes :: "query_zone_tlv \<Rightarrow> u8 list" where
  "query_bytes q = qz_h_dest q @ qz_h_source q @ be16 (qz_h_proto q) @
    [qz_ver q, qz_reserved0 q] @ be16 (qz_tlv_len q) @ qz_reserved1 q @
    [qz_type q] @ be16 (qz_len q) @ qz_ip_tlv q"

definition zero_query :: query_zone_tlv where
  "zero_query = \<lparr>qz_h_dest = replicate 6 0, qz_h_source = replicate 6 0, qz_h_proto = 0, qz_ver = 0,
    qz_reserved0 = 0, qz_tlv_len = 0, qz_reserved1 = replicate 4 0, qz_type = 0, qz_len = 0,
    qz_ip_tlv = replicate sizeof_sub_tlv_type_ipv6 0\<rparr>"

definition snsd_build_query_msg_head :: "port_info \<Rightarrow> query_zone_tlv \<Rightarrow> query_zone_tlv" where
  "snsd_build_query_msg_head port q =
    q\<lparr>qz_h_dest := mrp_bridge, qz_h_source := take 6 (pi_mac port), qz_h_proto := ETH_NTS_TYPE,
      qz_ver := SNSD_NTF_VER, qz_tlv_len := 0, qz_reserved0 := 0, qz_reserved1 := replicate 4 0\<rparr>"

text \<open>The union member: its type, its length and the address, over the zeroed bytes.\<close>

definition query_ip_tlv :: "u8 \<Rightarrow> nat \<Rightarrow> u8 list \<Rightarrow> query_zone_tlv \<Rightarrow> query_zone_tlv" where
  "query_ip_tlv ty n ip q =
    q\<lparr>qz_ip_tlv := mem_put 0 (ty # be16 n @ take n ip) (qz_ip_tlv q)\<rparr>"

definition snsd_build_query_msg_tlv :: "port_info \<Rightarrow> query_zone_tlv \<Rightarrow> query_zone_tlv" where
  "snsd_build_query_msg_tlv port q =
    (let q = q\<lparr>qz_type := SNSD_TLV_FORMAT_STRUCT OR QUERY_ZONE_TLV\<rparr>;
         (q, sub_tlv_len) =
           (if pi_family port = AF_INET
            then (query_ip_tlv NOTIFY_SUB_TLV2_DST_IPV4 IPV4_ADDR_LENGTH (pi_ip port) q,
                  sizeof_sub_tlv_type_ipv4)
            else (query_ip_tlv NOTIFY_SUB_TLV4_DST_IPV6 IPV6_ADDR_LENGTH (pi_ip port) q,
                  sizeof_sub_tlv_type_ipv6));
         q = q\<lparr>qz_len := sub_tlv_len\<rparr>
     in q\<lparr>qz_tlv_len := 3 + sub_tlv_len\<rparr>)"

definition snsd_build_query_tlv :: "port_info \<Rightarrow> query_zone_tlv" where
  "snsd_build_query_tlv port = snsd_build_query_msg_tlv port (snsd_build_query_msg_head port zero_query)"

section \<open>Property\<close>

lemma list6E:
  assumes "length xs = 6"
  obtains a b c d e f where "xs = [a, b, c, d, e, f]"
  using assms by (auto simp: numeral_nat length_Suc_conv)

text \<open>The bytes of the query, in the order of the fields.\<close>

lemma query_bytes_eq:
  assumes "length (pi_mac port) = 6" "length (pi_ip port) = 16"
  shows "query_bytes (snsd_build_query_tlv port) =
    (let v4 = (pi_family port = AF_INET); ip_len = (if v4 then 4 else 16) in
     mrp_bridge @ pi_mac port @ be16 ETH_NTS_TYPE @ [SNSD_NTF_VER, 0] @ be16 (6 + ip_len) @
     [0, 0, 0, 0] @ [0x23] @ be16 (3 + ip_len) @
     [if v4 then NOTIFY_SUB_TLV2_DST_IPV4 else NOTIFY_SUB_TLV4_DST_IPV6] @ be16 ip_len @
     take ip_len (pi_ip port) @ replicate (16 - ip_len) 0)"
  using assms
  by (simp add: snsd_build_query_tlv_def snsd_build_query_msg_head_def snsd_build_query_msg_tlv_def
      query_ip_tlv_def query_bytes_def zero_query_def mem_put_def Let_def)
    (simp add: numeral_nat)

text \<open>
  The zone query is a frame the program's own receive path accepts: 44 bytes to the bridge
  group address, whose header check passes with the length of its TLV area, and whose area is one
  structured TLV of type 3 that holds exactly the port's address, as the destination sub TLV of its
  family.
\<close>

theorem query_frame_accepted:
  assumes "length (pi_mac port) = 6" and "length (pi_ip port) = 16"
  shows "let frame = query_bytes (snsd_build_query_tlv port);
        v4 = (pi_family port = AF_INET); n = (if v4 then 4 else 16) in
      length frame = 44 \<and>
      snsd_get_msg_header frame (length frame) = Inr (6 + n, SNSD_NTF_VER) \<and>
      (\<exists>v. tlvs (mem_get 22 (6 + n) frame) = [(SNSD_TLV_FORMAT_STRUCT OR QUERY_ZONE_TLV, v)] \<and>
        tlvs v = [(if v4 then 2 else 4, take n (pi_ip port))])"
proof -
  obtain a b c d e f where mac: "pi_mac port = [a, b, c, d, e, f]"
    using assms(1) by (rule list6E)
  note frame = query_bytes_eq [OF assms] mac mrp_bridge_def be16_def be16_val_def
  show ?thesis
  proof (cases "pi_family port = AF_INET")
    case True
    then show ?thesis using assms(2)
      by (simp add: frame snsd_get_msg_header_def mem_get_def Let_def take_Cons' drop_Cons')
  next
    case False
    then show ?thesis using assms(2)
      by (simp add: frame snsd_get_msg_header_def mem_get_def Let_def take_Cons' drop_Cons')
  qed
qed

theorem query_frame_accepted_witness:
  "let frame = query_bytes (snsd_build_query_tlv (sample_host_port sample_name 1)) in
    snsd_get_msg_header frame 44 = Inr (10, 1) \<and>
    (\<exists>v. tlvs (mem_get 22 10 frame) = [(0x23, v)] \<and> tlvs v = [(2, [192, 168, 1, 2])])"
proof -
  have "length (pi_mac (sample_host_port sample_name 1)) = 6" "length (pi_ip (sample_host_port sample_name 1)) = 16"
    by (simp_all add: sample_host_port_def)
  from query_frame_accepted [OF this] show ?thesis
    by (simp add: sample_host_port_def Let_def) metis
qed

end
