(* ===== verification/Snsd_Switch.thy ===== *)
theory Snsd_Switch
  imports Snsd_Query
begin

text \<open>
  \<open>src/snsd_switch.c\<close>: the ports in switch mode.  A table of 64 slots holds one raw socket per
  physical port with a reference count and a map of the address indices in use; a slot that lost
  its last reference is in quarantine until the switch has aged its announcement out.  Ports
  announce themselves by LLDP every 30 seconds, query their zone when they come up, and have their
  connections torn down when they go.

  The state is \<open>switch_sys\<close>: the slots, the server with its listeners, the peons that take the
  disconnect requests, the frames sent (in order) and the static counter of
  \<open>switch_port_handle\<close>.  What the system answers during one call is \<open>switch_env\<close>: one
  clock reading, the outcomes of creating a socket per interface, of sending, and of queueing a
  disconnect.  \<open>snsd_cfg_net_info\<close>, which brings the port list up to date before each round,
  belongs to \<open>src/snsd_mgt.c\<close>; a round takes its outcome.
\<close>

section \<open>State\<close>

record port_fd =
  pf_ifindex :: int
  pf_refs :: int
  pf_fd :: int
  pf_index_map :: u64
  pf_old_time :: int

record ('w, 'c) switch_sys =
  ss_fds :: "port_fd list"
  ss_server :: server
  ss_peons :: "('w, 'c) peon_sys"
  ss_sent :: sent
  ss_count :: u32

record ('w, 'c) switch_env =
  sw_now :: int
  sw_sock :: "int \<Rightarrow> sock_env"
  sw_send :: send_env
  sw_templates :: "('w, 'c) templates"
  sw_peon_envs :: "nat \<Rightarrow> 'w peon_env"

definition switch_fd_init :: port_fd where
  "switch_fd_init = \<lparr>pf_ifindex = - 1, pf_refs = 0, pf_fd = - 1, pf_index_map = 0, pf_old_time = 0\<rparr>"

definition switch_port_init :: "port_fd list" where
  "switch_port_init = replicate MAX_PHY_PORT switch_fd_init"

section \<open>Slots\<close>

text \<open>\<open>switch_get_index\<close>: the new map and the index, 0 if the map is full.\<close>

definition switch_get_index :: "u64 \<Rightarrow> u64 \<times> u8" where
  "switch_get_index index_map =
    (case first_idx (\<lambda>i. index_map AND push_bit i 1 = 0) [0..<64] of
       Some i \<Rightarrow> (index_map OR push_bit i 1, word_of_nat (i + 1))
     | None \<Rightarrow> (index_map, 0))"

definition switch_put_index :: "u64 \<Rightarrow> u8 \<Rightarrow> u64" where
  "switch_put_index index_map index =
    (if index = 0 then index_map else index_map AND NOT (push_bit (unat (index - 1)) 1))"

text \<open>
  \<open>switch_get_fd_info\<close>: the slot and the address index; \<open>want_index\<close> is whether the caller
  passes a place for the index (without one the index is 0).  A slot of the interface ends the
  scan, wherever it is; the first free slot only counts when there is none.
\<close>

definition slot_free :: "int \<Rightarrow> port_fd \<Rightarrow> bool" where
  "slot_free now f \<longleftrightarrow> pf_ifindex f < 0 \<or> (pf_refs f \<le> 0 \<and> pf_old_time f < now)"

definition switch_get_fd_info ::
  "int \<Rightarrow> int \<Rightarrow> bool \<Rightarrow> port_fd list \<Rightarrow> port_fd list \<times> (nat \<times> u8) option" where
  "switch_get_fd_info now ifindex want_index fds =
    (case first_idx (\<lambda>f. pf_ifindex f = ifindex) fds of
       Some i \<Rightarrow>
         (let f = fds ! i in
          if want_index then
            (let (m, index) = switch_get_index (pf_index_map f) in
             if index = 0 then (fds, None)
             else (fds[i := f\<lparr>pf_index_map := m, pf_refs := pf_refs f + 1\<rparr>], Some (i, index)))
          else (fds[i := f\<lparr>pf_refs := pf_refs f + 1\<rparr>], Some (i, 0)))
     | None \<Rightarrow>
         (case first_idx (slot_free now) fds of
            None \<Rightarrow> (fds, None)
          | Some i \<Rightarrow>
              (let f = (fds ! i)\<lparr>pf_refs := 1, pf_ifindex := ifindex\<rparr> in
               if want_index then (fds[i := f\<lparr>pf_index_map := 1\<rparr>], Some (i, 1))
               else (fds[i := f], Some (i, 0)))))"

text \<open>
  \<open>switch_put_fd_info\<close>: the last reference closes the socket (\<open>close_fd\<close> is the socket
  to close, if any); every release starts the quarantine anew.
\<close>

definition put_slot :: "int \<Rightarrow> u8 \<Rightarrow> port_fd \<Rightarrow> port_fd" where
  "put_slot now index f =
    (let f = f\<lparr>pf_refs := pf_refs f - 1, pf_index_map := switch_put_index (pf_index_map f) index\<rparr>;
         f = (if pf_refs f \<le> 0 then f\<lparr>pf_fd := - 1\<rparr> else f)
     in f\<lparr>pf_old_time := now + int LLDP_OLD_TIME + int LLDP_WAIT_OLD_TIME\<rparr>)"

definition switch_put_fd_info ::
  "int \<Rightarrow> nat \<Rightarrow> u8 \<Rightarrow> ('w, 'c) switch_sys \<Rightarrow> ('w, 'c) switch_sys" where
  "switch_put_fd_info now i index s =
    (let f = ss_fds s ! i;
         s = (if pf_refs f - 1 \<le> 0 \<and> pf_fd f \<ge> 0
              then s\<lparr>ss_server := snsd_sock_close (pf_fd f) (ss_server s)\<rparr> else s)
     in s\<lparr>ss_fds := (ss_fds s)[i := put_slot now index f]\<rparr>)"

definition switch_init_port_related_info :: "port_info \<Rightarrow> int \<Rightarrow> port_related_info" where
  "switch_init_port_related_info port_info ifindex =
    \<lparr>pri_name = pi_name port_info, pri_family = pi_family port_info,
     pri_ip = take IPV6_ADDR_LENGTH (pi_ip port_info), pri_mac = pi_mac port_info,
     pri_ifindex = ifindex\<rparr>"

text \<open>\<open>switch_get_fd_data\<close>: the slot (and the index); \<open>None\<close> is \<open>-EAGAIN\<close>.\<close>

definition switch_get_fd_data ::
  "('w, 'c) switch_env \<Rightarrow> int \<Rightarrow> port_info \<Rightarrow> bool \<Rightarrow> ('w, 'c) switch_sys \<Rightarrow>
    ('w, 'c) switch_sys \<times> (nat \<times> u8) option" where
  "switch_get_fd_data env ifindex port_info want_index s =
    (case switch_get_fd_info (sw_now env) ifindex want_index (ss_fds s) of
       (fds, None) \<Rightarrow> (s\<lparr>ss_fds := fds\<rparr>, None)
     | (fds, Some (i, temp_index)) \<Rightarrow>
         (let s = s\<lparr>ss_fds := fds\<rparr>;
              info = switch_init_port_related_info port_info ifindex;
              (s, created) =
                (if pf_fd (ss_fds s ! i) < 0 then
                   (case snsd_get_server_sock (sw_sock env ifindex) info (ss_server s) of
                      (sv, None) \<Rightarrow>
                        (switch_put_fd_info (sw_now env) i temp_index (s\<lparr>ss_server := sv\<rparr>), False)
                    | (sv, Some fd) \<Rightarrow>
                        (s\<lparr>ss_server := sv, ss_fds := (ss_fds s)[i := (ss_fds s ! i)\<lparr>pf_fd := fd\<rparr>]\<rparr>, True))
                 else (s, True))
          in if \<not> created then (s, None)
             else case snsd_update_sock_ip (pf_fd (ss_fds s ! i)) info SNSD_UPDATE_ADD_IP (ss_server s) of
               (sv, Inl e) \<Rightarrow> (switch_put_fd_info (sw_now env) i temp_index (s\<lparr>ss_server := sv\<rparr>), None)
             | (sv, Inr _) \<Rightarrow> (s\<lparr>ss_server := sv\<rparr>, Some (i, temp_index))))"

section \<open>Ports and their slots\<close>

definition switch_get_phy_fd ::
  "('w, 'c) switch_env \<Rightarrow> port_info \<Rightarrow> lldp_run_info \<Rightarrow> ('w, 'c) switch_sys \<Rightarrow>
    ('w, 'c) switch_sys \<times> port_info \<times> lldp_run_info \<times> unit result" where
  "switch_get_phy_fd env port_info lldp_info s =
    (case switch_get_fd_data env (pi_phy_ifindex port_info) port_info True s of
       (s, Some (i, index)) \<Rightarrow>
         (s, port_info\<lparr>pi_name_index := index\<rparr>,
          lldp_info\<lparr>lr_index := i, lr_fd := pf_fd (ss_fds s ! i)\<rparr>, Inr ())
     | (s, None) \<Rightarrow> (s, port_info, lldp_info, Inl EAGAIN))"

definition switch_free_slave_fd ::
  "int \<Rightarrow> port_info \<Rightarrow> slave_info \<Rightarrow> ('w, 'c) switch_sys \<Rightarrow> ('w, 'c) switch_sys \<times> slave_info" where
  "switch_free_slave_fd now port_info slave s =
    (let info = switch_init_port_related_info port_info (sl_ifindex slave);
         f = ss_fds s ! sl_fd_index slave;
         s = s\<lparr>ss_server := fst (snsd_update_sock_ip (pf_fd f) info SNSD_UPDATE_REMOVE_IP (ss_server s))\<rparr>
     in (switch_put_fd_info now (sl_fd_index slave) 0 s,
         slave\<lparr>sl_state := flag_clear (sl_state slave) STATE_SLAVE_FD_VALID\<rparr>))"

definition switch_get_bonding_phy_fd ::
  "int \<Rightarrow> port_info \<Rightarrow> lldp_run_info \<Rightarrow> ('w, 'c) switch_sys \<Rightarrow>
    ('w, 'c) switch_sys \<times> port_info \<times> lldp_run_info \<times> unit result" where
  "switch_get_bonding_phy_fd now port_info lldp_info s =
    (case switch_get_fd_info now (pi_phy_ifindex port_info) True (ss_fds s) of
       (fds, None) \<Rightarrow> (s\<lparr>ss_fds := fds\<rparr>, port_info, lldp_info, Inl EAGAIN)
     | (fds, Some (i, index)) \<Rightarrow>
         (s\<lparr>ss_fds := fds\<rparr>, port_info\<lparr>pi_name_index := index\<rparr>, lldp_info\<lparr>lr_index := i\<rparr>, Inr ()))"

text \<open>
  The loop of \<open>switch_get_bonding_fd\<close>: the slaves that stay, how many were deleted, and
  whether the loop came to the end.  A slave that gets no slot stops it.
\<close>

fun bonding_loop ::
  "('w, 'c) switch_env \<Rightarrow> port_info \<Rightarrow> slave_info list \<Rightarrow> ('w, 'c) switch_sys \<Rightarrow>
    ('w, 'c) switch_sys \<times> slave_info list \<times> int \<times> bool" where
  "bonding_loop env port_info [] s = (s, [], 0, True)"
| "bonding_loop env port_info (slave # slaves) s =
    (if flag_set (sl_state slave) STATE_SLAVE_DELETED then
       (let s = (if flag_set (sl_state slave) STATE_SLAVE_FD_VALID
                 then fst (switch_free_slave_fd (sw_now env) port_info slave s) else s);
            (s, rest, n, ok) = bonding_loop env port_info slaves s
        in (s, rest, n + 1, ok))
     else if \<not> flag_set (sl_state slave) STATE_SLAVE_FD_VALID then
       (case switch_get_fd_data env (sl_ifindex slave) port_info False s of
          (s, None) \<Rightarrow> (s, slave # slaves, 0, False)
        | (s, Some (i, _)) \<Rightarrow>
            (let slave = slave\<lparr>sl_fd_index := i, sl_fd := pf_fd (ss_fds s ! i),
                   sl_state := sl_state slave OR STATE_SLAVE_FD_VALID\<rparr>;
                 (s, rest, n, ok) = bonding_loop env port_info slaves s
             in (s, slave # rest, n, ok)))
     else
       (let (s, rest, n, ok) = bonding_loop env port_info slaves s in (s, slave # rest, n, ok)))"

definition switch_get_bonding_fd ::
  "('w, 'c) switch_env \<Rightarrow> port_info \<Rightarrow> ('w, 'c) switch_sys \<Rightarrow>
    ('w, 'c) switch_sys \<times> port_info \<times> unit result" where
  "switch_get_bonding_fd env port_info s =
    (let (s, slaves, n, ok) = bonding_loop env port_info (pi_slaves port_info) s;
         port_info = port_info\<lparr>pi_slaves := slaves, pi_slaves_count := pi_slaves_count port_info - n\<rparr>
     in if \<not> ok then (s, port_info, Inl EAGAIN)
        else (s, port_info\<lparr>pi_bonding_states :=
               flag_clear (pi_bonding_states port_info) STATE_BONDING_CHANGE\<rparr>, Inr ()))"

definition switch_get_fd ::
  "('w, 'c) switch_env \<Rightarrow> port_info \<Rightarrow> lldp_run_info \<Rightarrow> ('w, 'c) switch_sys \<Rightarrow>
    ('w, 'c) switch_sys \<times> port_info \<times> lldp_run_info" where
  "switch_get_fd env port_info lldp_info s =
    (let (s, port_info, lldp_info, ret) =
       (if \<not> flag_set (pi_bonding_states port_info) STATE_BONDING_VALID
        then switch_get_phy_fd env port_info lldp_info s
        else case switch_get_bonding_phy_fd (sw_now env) port_info lldp_info s of
          (s, port_info, lldp_info, Inl e) \<Rightarrow> (s, port_info, lldp_info, Inl e)
        | (s, port_info, lldp_info, Inr _) \<Rightarrow>
            (case switch_get_bonding_fd env port_info s of
               (s, port_info, Inr _) \<Rightarrow> (s, port_info, lldp_info, Inr ())
             | (s, port_info, Inl e) \<Rightarrow>
                 (switch_put_fd_info (sw_now env) (lr_index lldp_info) (pi_name_index port_info) s,
                  port_info, lldp_info, Inl e)))
     in (s, port_info, if ret = Inr () then lldp_info\<lparr>lr_valid := True\<rparr> else lldp_info))"

section \<open>Announcing and querying\<close>

definition snsd_zone_query_send :: "send_env \<Rightarrow> int \<Rightarrow> query_zone_tlv \<Rightarrow> sent" where
  "snsd_zone_query_send env query_fd query_tlv =
    (let frame = query_bytes query_tlv in
     if se_send env query_fd frame \<noteq> int (length frame) then [] else [(query_fd, frame)])"

fun query_slaves :: "send_env \<Rightarrow> slave_info list \<Rightarrow> query_zone_tlv \<Rightarrow> sent" where
  "query_slaves env [] query_tlv = []"
| "query_slaves env (slave # slaves) query_tlv =
    (let frame = query_bytes query_tlv in
     if se_send env (sl_fd slave) frame \<noteq> int (length frame) then []
     else (sl_fd slave, frame) # query_slaves env slaves query_tlv)"

definition snsd_zone_query_send_bonding :: "send_env \<Rightarrow> port_info \<Rightarrow> query_zone_tlv \<Rightarrow> sent" where
  "snsd_zone_query_send_bonding env port query_tlv = query_slaves env (pi_slaves port) query_tlv"

definition snsd_query_zone_for_port :: "send_env \<Rightarrow> int \<Rightarrow> port_info \<Rightarrow> sent" where
  "snsd_query_zone_for_port env query_fd port =
    (if \<not> is_linkup (pi_flags port) then []
     else let query_tlv = snsd_build_query_tlv port in
       if flag_set (pi_bonding_states port) STATE_BONDING_VALID
       then snsd_zone_query_send_bonding env port query_tlv
       else snsd_zone_query_send env query_fd query_tlv)"

definition switch_check_lldp_send ::
  "send_env \<Rightarrow> int \<Rightarrow> lldp_run_info \<Rightarrow> port_info \<Rightarrow> sent \<times> lldp_run_info" where
  "switch_check_lldp_send env now lldp_info port_info =
    (if \<not> is_linkup (pi_flags port_info) then ([], lldp_info)
     else if lr_expires lldp_info \<le> now then
       (let (out, ret) =
          (if flag_set (pi_bonding_states port_info) STATE_BONDING_VALID
           then lldp_send_bonding env port_info None
           else lldp_send env (lr_fd lldp_info) port_info None)
        in (out, lldp_info\<lparr>lr_expires :=
             (if ret = Inr () then now + uint (lr_interval_clock lldp_info) else now)\<rparr>))
     else ([], lldp_info))"

definition calc_expires_for_new :: "port_fd list \<Rightarrow> nat \<Rightarrow> int \<Rightarrow> int" where
  "calc_expires_for_new fds index now =
    (if pf_old_time (fds ! index) < now then now else pf_old_time (fds ! index))"

definition emit :: "sent \<Rightarrow> ('w, 'c) switch_sys \<Rightarrow> ('w, 'c) switch_sys" where
  "emit out s = s\<lparr>ss_sent := ss_sent s @ out\<rparr>"

definition switch_port_exist_handle ::
  "('w, 'c) switch_env \<Rightarrow> sw_net_info \<Rightarrow> ('w, 'c) switch_sys \<Rightarrow> ('w, 'c) switch_sys \<times> sw_net_info" where
  "switch_port_exist_handle env net_info s =
    (let lldp_info = ni_lldp_info net_info; port_info = ni_port_info net_info; now = sw_now env in
     if lr_valid lldp_info then
       (let (s, port_info, ret) =
          (if flag_set (pi_bonding_states port_info) STATE_BONDING_CHANGE
           then switch_get_bonding_fd env port_info s else (s, port_info, Inr ()));
            net_info = net_info\<lparr>ni_port_info := port_info\<rparr>
        in if ret \<noteq> Inr () then (s, net_info)
           else if flag_set (pi_states port_info) STATE_VLAN_CHANGE
           then (s, net_info\<lparr>ni_lldp_info := lldp_info\<lparr>lr_expires :=
                  now + int LLDP_OLD_TIME + int LLDP_WAIT_OLD_TIME\<rparr>\<rparr>)
           else (let (out, lldp_info) = switch_check_lldp_send (sw_send env) now lldp_info port_info
                 in (emit out s, net_info\<lparr>ni_lldp_info := lldp_info\<rparr>)))
     else
       (let (s, port_info, lldp_info) = switch_get_fd env port_info lldp_info s
        in if lr_valid lldp_info then
             (let lldp_info = lldp_info\<lparr>lr_interval_clock := LLDP_INTERVAL_CLOCK,
                    lr_expires := calc_expires_for_new (ss_fds s) (lr_index lldp_info) now\<rparr>;
                  (out, lldp_info) = switch_check_lldp_send (sw_send env) now lldp_info port_info;
                  out' = snsd_query_zone_for_port (sw_send env) (lr_fd lldp_info) port_info
              in (emit (out @ out') s,
                  net_info\<lparr>ni_port_info := port_info, ni_lldp_info := lldp_info\<rparr>))
           else (s, net_info\<lparr>ni_port_info := port_info, ni_lldp_info := lldp_info\<rparr>)))"

section \<open>Ports that go\<close>

text \<open>Queueing the disconnects of a host address, as in \<open>Snsd_Connect\<close>.\<close>

definition disconnect_host ::
  "('w, 'c) switch_env \<Rightarrow> port_info \<Rightarrow> ('w, 'c) switch_sys \<Rightarrow> (('w, 'c) switch_sys \<times> unit result) call" where
  "disconnect_host env port_info s =
    (case snsd_disconnect_by_host_traddr (sw_templates env) (sw_peon_envs env)
        (pi_family port_info) (pi_ip port_info) (ss_peons s) of
       Done (peons, ret) \<Rightarrow> Done (s\<lparr>ss_peons := peons\<rparr>, ret)
     | Stuck \<Rightarrow> Stuck)"

definition switch_port_handle_disconnect ::
  "('w, 'c) switch_env \<Rightarrow> sw_net_info \<Rightarrow> ('w, 'c) switch_sys \<Rightarrow>
    (('w, 'c) switch_sys \<times> sw_net_info) call" where
  "switch_port_handle_disconnect env net_info s =
    (let lldp_info = ni_lldp_info net_info in
     if \<not> is_linkup (pi_flags (ni_port_info net_info)) then
       (if lr_flags lldp_info AND LLDP_FLAG_DISCONNECT = 0 then
          (case disconnect_host env (ni_port_info net_info) s of
             Stuck \<Rightarrow> Stuck
           | Done (s, ret) \<Rightarrow>
               Done (s, if ret = Inr ()
                 then net_info\<lparr>ni_lldp_info := lldp_info\<lparr>lr_flags := lr_flags lldp_info OR LLDP_FLAG_DISCONNECT\<rparr>\<rparr>
                 else net_info))
        else Done (s, net_info))
     else Done (s, net_info\<lparr>ni_lldp_info :=
       lldp_info\<lparr>lr_flags := flag_clear (lr_flags lldp_info) LLDP_FLAG_DISCONNECT\<rparr>\<rparr>))"

fun free_slaves ::
  "int \<Rightarrow> port_info \<Rightarrow> slave_info list \<Rightarrow> ('w, 'c) switch_sys \<Rightarrow> ('w, 'c) switch_sys" where
  "free_slaves now port_info [] s = s"
| "free_slaves now port_info (slave # slaves) s =
    free_slaves now port_info slaves (fst (switch_free_slave_fd now port_info slave s))"

definition switch_free_bonding_fd ::
  "int \<Rightarrow> sw_net_info \<Rightarrow> ('w, 'c) switch_sys \<Rightarrow> ('w, 'c) switch_sys" where
  "switch_free_bonding_fd now net_info s =
    free_slaves now (ni_port_info net_info) (pi_slaves (ni_port_info net_info)) s"

text \<open>\<open>switch_port_delete\<close>, up to taking the port off its list and freeing it.\<close>

definition switch_port_delete ::
  "int \<Rightarrow> sw_net_info \<Rightarrow> ('w, 'c) switch_sys \<Rightarrow> ('w, 'c) switch_sys" where
  "switch_port_delete now net_info s =
    (let port_info = ni_port_info net_info; i = lr_index (ni_lldp_info net_info) in
     if lr_valid (ni_lldp_info net_info) then
       (if flag_set (pi_bonding_states port_info) STATE_BONDING_VALID
        then switch_free_bonding_fd now net_info
               (switch_put_fd_info now i (pi_name_index port_info) s)
        else
          (let info = switch_init_port_related_info port_info (pi_phy_ifindex port_info);
               s = s\<lparr>ss_server := fst (snsd_update_sock_ip (pf_fd (ss_fds s ! i)) info
                        SNSD_UPDATE_REMOVE_IP (ss_server s))\<rparr>
           in switch_put_fd_info now i (pi_name_index port_info) s))
     else s)"

section \<open>The poll round\<close>

definition SWITCH_POLL_INTEVAL :: u32 where [simp]: "SWITCH_POLL_INTEVAL = 100"

definition switch_need_check_lldp :: "u32 \<Rightarrow> u32 \<Rightarrow> bool" where
  "switch_need_check_lldp pre_count now =
    (let interval = (if now \<ge> pre_count then now - pre_count
                     else 0xffffffff - now + pre_count + 1) in
     if interval \<ge> SWITCH_POLL_INTEVAL then True else False)"

text \<open>
  The loop of \<open>switch_port_handle\<close> over the ports (a port whose count is not the round's was
  not seen by the update of the list), and the round.  \<open>cfg\<close> is the outcome of
  \<open>snsd_cfg_net_info\<close>: \<open>None\<close> if it failed, else the updated list.
\<close>

fun switch_ports_loop ::
  "('w, 'c) switch_env \<Rightarrow> u32 \<Rightarrow> bool \<Rightarrow> sw_net_info list \<Rightarrow> ('w, 'c) switch_sys \<Rightarrow>
    (('w, 'c) switch_sys \<times> sw_net_info list) call" where
  "switch_ports_loop env poll_count check [] s = Done (s, [])"
| "switch_ports_loop env poll_count check (net_info # nets) s =
    (if pi_count (ni_port_info net_info) = poll_count then
       (let (s, net_info) =
          (if check then switch_port_exist_handle env net_info s else (s, net_info)) in
        case switch_port_handle_disconnect env net_info s of
          Stuck \<Rightarrow> Stuck
        | Done (s, net_info) \<Rightarrow>
            (case switch_ports_loop env poll_count check nets s of
               Stuck \<Rightarrow> Stuck
             | Done (s, nets) \<Rightarrow> Done (s, net_info # nets)))
     else
       (case disconnect_host env (ni_port_info net_info) s of
          Stuck \<Rightarrow> Stuck
        | Done (s, ret) \<Rightarrow>
            (if ret = Inr ()
             then switch_ports_loop env poll_count check nets (switch_port_delete (sw_now env) net_info s)
             else (case switch_ports_loop env poll_count check nets s of
                     Stuck \<Rightarrow> Stuck
                   | Done (s, nets) \<Rightarrow> Done (s, net_info # nets)))))"

definition switch_port_handle ::
  "('w, 'c) switch_env \<Rightarrow> u32 \<Rightarrow> sw_net_info list option \<Rightarrow> ('w, 'c) switch_sys \<Rightarrow>
    (('w, 'c) switch_sys \<times> sw_net_info list option) call" where
  "switch_port_handle env poll_count cfg s =
    (case cfg of
       None \<Rightarrow> Done (s, None)
     | Some nets \<Rightarrow>
         (let check = switch_need_check_lldp (ss_count s) poll_count in
          case switch_ports_loop env poll_count check nets s of
            Stuck \<Rightarrow> Stuck
          | Done (s, nets) \<Rightarrow>
              Done (if check then s\<lparr>ss_count := poll_count\<rparr> else s, Some nets)))"

end
