(* ===== verification/Snsd_Switch_Props.thy ===== *)
theory Snsd_Switch_Props
  imports Snsd_Switch Snsd_Listeners
begin

text \<open>
  Properties of the switch mode: the address indices of a slot, the life of the slots (a step
  relation with an invariant, the quarantine of a released slot), when a port announces itself,
  and what a poll round does with ports that are gone.
\<close>

section \<open>Address indices\<close>

lemma and_exp_0: "(m :: u64) AND 2 ^ i = 0 \<longleftrightarrow> \<not> bit m i"
  using bit_iff_and_push_bit_not_eq_0 [of m i] by simp

lemma bit_exp_u64: "bit ((2 :: u64) ^ i) j \<longleftrightarrow> i = j \<and> j < 64"
  by (auto simp: bit_exp_iff possible_bit_word)

lemma switch_get_index_cases:
  obtains (full) "switch_get_index m = (m, 0)" "\<forall>i < 64. bit m i"
  | (free) i where "switch_get_index m = (m OR push_bit i 1, word_of_nat (i + 1))" "i < 64"
      "\<not> bit m i" "\<forall>j < i. bit m j"
proof (cases "first_idx (\<lambda>i. m AND push_bit i 1 = 0) [0..<64]")
  case None
  show thesis
  proof (rule full)
    show "switch_get_index m = (m, 0)"
      using None by (simp add: switch_get_index_def del: first_idx_None)
    show "\<forall>i < 64. bit m i" using None by (simp add: and_exp_0)
  qed
next
  case (Some i)
  note i = first_idx_SomeD [OF Some]
  then have "i < 64" by simp
  moreover have "bit m j" if "j < i" for j
  proof -
    have "j < length [0..<64]" using that i(1) by (simp add: less_trans)
    then show ?thesis using i(3) [OF that] by (simp add: and_exp_0)
  qed
  moreover have "\<not> bit m i" using i(1,2) by (simp add: and_exp_0)
  ultimately show thesis using Some by (intro free [of i]) (simp_all add: switch_get_index_def and_exp_0)
qed

lemma unat_index: "i < 64 \<Longrightarrow> unat (word_of_nat (i + 1) :: u8) = i + 1"
  using unat_of_nat [of "i + 1", where ?'a = 8] by (simp only:) simp

text \<open>
  The address indices of a port: an index is refused exactly when all 64 are in use; otherwise
  the lowest free one is taken, no other changes, and putting it back restores the map.
\<close>

theorem switch_index_spec:
  assumes "switch_get_index m = (m', x)"
  shows "(x = 0 \<longleftrightarrow> (\<forall>i < 64. bit m i)) \<and>
    (x = 0 \<longrightarrow> m' = m) \<and>
    (x \<noteq> 0 \<longrightarrow> (\<exists>i < 64. unat x = i + 1 \<and> \<not> bit m i \<and> (\<forall>j < i. bit m j) \<and>
      (\<forall>j. bit m' j \<longleftrightarrow> bit m j \<or> j = i) \<and> switch_put_index m' x = m))"
proof (cases rule: switch_get_index_cases [of m])
  case full
  with assms show ?thesis by simp
next
  case (free i)
  have x: "x = word_of_nat (i + 1)" and m': "m' = m OR push_bit i 1" using free(1) assms by simp_all
  have ux: "unat x = i + 1" unfolding x by (rule unat_index [OF free(2)])
  then have x0: "x \<noteq> 0" by auto
  have "unat (x - 1) = i" using ux x0 by (simp add: unat_minus_one)
  then have "switch_put_index m' x = m"
    using x0 free(3) by (intro bit_word_eqI)
      (auto simp: switch_put_index_def m' bit_and_iff bit_or_iff bit_not_iff bit_exp_u64)
  moreover have "bit m' j \<longleftrightarrow> bit m j \<or> j = i" for j
    using free(2) by (auto simp: m' bit_or_iff bit_exp_u64)
  ultimately show ?thesis using ux x0 free by blast
qed

theorem switch_index_spec_witness:
  "switch_get_index 0b1011 = (0b1111, 3) \<and> switch_put_index 0b1111 3 = 0b1011"
proof -
  have e: "switch_get_index 0b1011 = (0b1111, 3)"
    by (simp add: switch_get_index_def upt_rec)
  from switch_index_spec [OF this] obtain i where "unat (3 :: u8) = i + 1"
    "switch_put_index 0b1111 3 = 0b1011" by auto
  with e show ?thesis by simp
qed

section \<open>Acquiring a slot\<close>

lemma switch_get_fd_info_cases:
  assumes "switch_get_fd_info now ifindex w fds = (fds', Some (i, x))"
  obtains (shared) "i < length fds" "pf_ifindex (fds ! i) = ifindex"
      "\<exists>m. fds' = fds[i := (fds ! i)\<lparr>pf_index_map := m, pf_refs := pf_refs (fds ! i) + 1\<rparr>]"
  | (taken) "i < length fds" "slot_free now (fds ! i)" "\<forall>f \<in> set fds. pf_ifindex f \<noteq> ifindex"
      "\<exists>m. fds' = fds[i := (fds ! i)\<lparr>pf_refs := 1, pf_ifindex := ifindex, pf_index_map := m\<rparr>]"
proof (cases "first_idx (\<lambda>f. pf_ifindex f = ifindex) fds")
  case (Some k)
  note k = first_idx_SomeD [OF Some]
  have "i = k" "\<exists>m. fds' = fds[i := (fds ! i)\<lparr>pf_index_map := m, pf_refs := pf_refs (fds ! i) + 1\<rparr>]"
    using assms Some
    by (auto simp: switch_get_fd_info_def Let_def split: if_splits prod.splits
        intro: exI [of _ "pf_index_map (fds ! i)"])
  with k show thesis by (intro shared) auto
next
  case None
  then have none: "\<forall>f \<in> set fds. pf_ifindex f \<noteq> ifindex" by simp
  from assms None obtain k where k: "first_idx (slot_free now) fds = Some k"
    by (auto simp: switch_get_fd_info_def simp del: first_idx_None split: option.splits)
  have "i = k" "fds' = fds[i := (fds ! i)\<lparr>pf_refs := 1, pf_ifindex := ifindex,
      pf_index_map := (if w then 1 else pf_index_map (fds ! i))\<rparr>]"
    using assms None k
    by (auto simp: switch_get_fd_info_def Let_def simp del: first_idx_None split: if_splits)
  with none first_idx_SomeD(1,2) [OF k] show thesis by (intro taken) blast+
qed

lemma switch_get_fd_info_None:
  "switch_get_fd_info now ifindex w fds = (fds', None) \<Longrightarrow> fds' = fds"
  by (auto simp: switch_get_fd_info_def Let_def split: option.splits if_splits prod.splits)

text \<open>
  Acquiring a slot for an interface: the slot is the interface's, no other slot changes, and a
  slot is taken from another interface only if it was never used, or it has no reference left and
  its quarantine is over.  A failure changes nothing.
\<close>

theorem slot_acquired:
  assumes "switch_get_fd_info now ifindex w fds = (fds', r)"
  shows "case r of
      None \<Rightarrow> fds' = fds
    | Some (i, x) \<Rightarrow> i < length fds \<and> pf_ifindex (fds' ! i) = ifindex \<and>
        pf_fd (fds' ! i) = pf_fd (fds ! i) \<and> (\<forall>j. j \<noteq> i \<longrightarrow> fds' ! j = fds ! j) \<and>
        (if pf_ifindex (fds ! i) = ifindex then pf_refs (fds' ! i) = pf_refs (fds ! i) + 1
         else pf_refs (fds' ! i) = 1 \<and> (\<forall>f \<in> set fds. pf_ifindex f \<noteq> ifindex) \<and>
           (pf_ifindex (fds ! i) < 0 \<or>
            pf_refs (fds ! i) \<le> 0 \<and> pf_old_time (fds ! i) < now))"
proof (cases r)
  case None
  with assms show ?thesis by (simp add: switch_get_fd_info_None)
next
  case (Some ix)
  obtain i x where ix: "ix = (i, x)" by (cases ix)
  from assms Some ix have "switch_get_fd_info now ifindex w fds = (fds', Some (i, x))" by simp
  then show ?thesis
  proof (cases rule: switch_get_fd_info_cases)
    case shared
    then show ?thesis by (auto simp: Some ix)
  next
    case taken
    moreover from taken have "pf_ifindex (fds ! i) \<noteq> ifindex" by simp
    ultimately show ?thesis by (auto simp: Some ix slot_free_def)
  qed
qed

definition sample_slots :: "port_fd list" where
  "sample_slots = [
    \<lparr>pf_ifindex = 5, pf_refs = 0, pf_fd = - 1, pf_index_map = 0, pf_old_time = 230\<rparr>,
    \<lparr>pf_ifindex = 6, pf_refs = 1, pf_fd = 40, pf_index_map = 1, pf_old_time = 0\<rparr>,
    switch_fd_init]"

theorem slot_acquired_witness:
  "switch_get_fd_info 200 7 True sample_slots = (sample_slots[2 := (sample_slots ! 2)\<lparr>
      pf_refs := 1, pf_ifindex := 7, pf_index_map := 1\<rparr>], Some (2, 1)) \<and>
   fst (switch_get_fd_info 200 7 True sample_slots) ! 0 = sample_slots ! 0 \<and>
   pf_ifindex (fst (switch_get_fd_info 200 7 True sample_slots) ! 2) = 7"
proof -
  have e: "switch_get_fd_info 200 7 True sample_slots = (sample_slots[2 := (sample_slots ! 2)\<lparr>
      pf_refs := 1, pf_ifindex := 7, pf_index_map := 1\<rparr>], Some (2, 1))"
    by (simp add: switch_get_fd_info_def sample_slots_def slot_free_def switch_fd_init_def numeral_2_eq_2)
  from slot_acquired [OF e] e show ?thesis by simp
qed

text \<open>
  C32: the quarantine: a slot that is released at time \<open>t\<close> goes to another interface only after
  the switch has aged its announcement out, 120 seconds and 10 more later.
\<close>

theorem released_slot_quarantine:
  assumes "i < length fds" and "0 \<le> pf_ifindex (fds ! i)"
    and "switch_get_fd_info now ifindex w (fds[i := put_slot t index (fds ! i)]) = (fds', Some (i, x))"
    and "ifindex \<noteq> pf_ifindex (fds ! i)"
  shows "now > t + 130"
  using assms(3)
proof (cases rule: switch_get_fd_info_cases)
  case shared
  with assms(1,4) show ?thesis by (simp add: put_slot_def Let_def split: if_splits)
next
  case taken
  with assms(1,2) show ?thesis by (simp add: slot_free_def put_slot_def Let_def split: if_splits)
qed

theorem released_slot_quarantine_witness:
  "switch_get_fd_info 231 9 False ([sample_slots ! 1][0 := put_slot 100 1 ([sample_slots ! 1] ! 0)]) =
    ([\<lparr>pf_ifindex = 9, pf_refs = 1, pf_fd = - 1, pf_index_map = 0, pf_old_time = 230\<rparr>], Some (0, 0)) \<and>
   (231 :: int) > 100 + 130"
proof -
  have e: "switch_get_fd_info 231 9 False ([sample_slots ! 1][0 := put_slot 100 1 ([sample_slots ! 1] ! 0)]) =
    ([\<lparr>pf_ifindex = 9, pf_refs = 1, pf_fd = - 1, pf_index_map = 0, pf_old_time = 230\<rparr>], Some (0, 0))"
    by (simp add: switch_get_fd_info_def sample_slots_def slot_free_def put_slot_def Let_def
        switch_put_index_def)
  moreover have "(231 :: int) > 100 + 130"
    by (rule released_slot_quarantine [OF _ _ e]) (simp_all add: sample_slots_def)
  ultimately show ?thesis by blast
qed

section \<open>The life of the slots\<close>

text \<open>
  The steps of the slot table: acquiring a slot, opening the socket of a slot that is in use, and
  releasing a reference that is held.
\<close>

inductive slots_step :: "port_fd list \<Rightarrow> port_fd list \<Rightarrow> bool" where
  acquire: "0 \<le> ifindex \<Longrightarrow> switch_get_fd_info now ifindex w fds = (fds', r) \<Longrightarrow> slots_step fds fds'"
| open_fd: "i < length fds \<Longrightarrow> 0 < pf_refs (fds ! i) \<Longrightarrow> 0 \<le> fd \<Longrightarrow>
    slots_step fds (fds[i := (fds ! i)\<lparr>pf_fd := fd\<rparr>])"
| release: "i < length fds \<Longrightarrow> 0 < pf_refs (fds ! i) \<Longrightarrow>
    slots_step fds (fds[i := put_slot now index (fds ! i)])"

definition slot_ok :: "port_fd \<Rightarrow> bool" where
  "slot_ok f \<longleftrightarrow> 0 \<le> pf_refs f \<and> (pf_refs f = 0 \<longrightarrow> pf_fd f = - 1) \<and>
    (pf_ifindex f < 0 \<longrightarrow> pf_refs f = 0)"

definition slots_inv :: "port_fd list \<Rightarrow> bool" where
  "slots_inv fds \<longleftrightarrow> length fds = MAX_PHY_PORT \<and> (\<forall>f \<in> set fds. slot_ok f) \<and>
    (\<forall>i < length fds. \<forall>j < length fds. pf_ifindex (fds ! i) = pf_ifindex (fds ! j) \<longrightarrow>
      0 \<le> pf_ifindex (fds ! i) \<longrightarrow> i = j)"

lemma slots_inv_update:
  assumes "slots_inv fds" "i < length fds" "slot_ok f"
    and "pf_ifindex f = pf_ifindex (fds ! i) \<or> (\<forall>g \<in> set fds. pf_ifindex g \<noteq> pf_ifindex f)"
  shows "slots_inv (fds[i := f])"
  using assms unfolding slots_inv_def
  by (auto simp: nth_list_update dest!: set_update_subset_insert [THEN subsetD])

lemma slot_ok_nth: "slots_inv fds \<Longrightarrow> i < length fds \<Longrightarrow> slot_ok (fds ! i)"
  by (simp add: slots_inv_def)

interpretation slots: inv_system "\<lambda>fds. fds = switch_port_init" slots_step slots_inv
proof
  fix fds
  assume "fds = switch_port_init"
  then show "slots_inv fds"
    by (simp add: slots_inv_def switch_port_init_def switch_fd_init_def slot_ok_def)
next
  fix fds fds'
  assume inv: "slots_inv fds" and "slots_step fds fds'"
  from this(2) show "slots_inv fds'"
  proof cases
    case (acquire ifindex now w r)
    show ?thesis
    proof (cases r)
      case None
      with acquire inv show ?thesis by (auto dest: switch_get_fd_info_None)
    next
      case (Some ix)
      obtain i x where "ix = (i, x)" by (cases ix)
      with acquire Some have "switch_get_fd_info now ifindex w fds = (fds', Some (i, x))" by simp
      then show ?thesis
      proof (cases rule: switch_get_fd_info_cases)
        case shared
        with inv acquire(1) show ?thesis
          by (auto intro!: slots_inv_update dest: slot_ok_nth simp: slot_ok_def)
      next
        case taken
        with inv acquire(1) show ?thesis
          by (auto intro!: slots_inv_update dest: slot_ok_nth simp: slot_ok_def)
      qed
    qed
  next
    case (open_fd i fd)
    with inv show ?thesis
      by (auto intro!: slots_inv_update dest: slot_ok_nth simp: slot_ok_def)
  next
    case (release i now index)
    with inv show ?thesis
      by (auto intro!: slots_inv_update dest: slot_ok_nth simp: slot_ok_def put_slot_def Let_def)
  qed
qed

lemma snsd_get_server_sock_fd: "snsd_get_server_sock env info sv = (sv', Some fd) \<Longrightarrow> 0 \<le> fd"
  by (auto simp: snsd_get_server_sock_def split: if_splits prod.splits sum.splits)

lemma ss_fds_put [simp]:
  "ss_fds (switch_put_fd_info now i x s) = (ss_fds s)[i := put_slot now x (ss_fds s ! i)]"
  by (simp add: switch_put_fd_info_def Let_def)

lemma acquired_slot:
  assumes "slots_inv fds" "switch_get_fd_info now ifindex w fds = (fds', Some (i, x))"
  shows "i < length fds'" "0 < pf_refs (fds' ! i)" "pf_ifindex (fds' ! i) = ifindex"
  using assms(2)
  by (cases rule: switch_get_fd_info_cases;
    use slot_ok_nth [OF assms(1)] in \<open>force simp: slot_ok_def\<close>)+

lemma switch_get_fd_data_steps:
  assumes inv: "slots_inv (ss_fds s)" and ifx: "0 \<le> ifindex"
    and run: "switch_get_fd_data env ifindex port w s = (s', r)"
  shows "slots_step\<^sup>*\<^sup>* (ss_fds s) (ss_fds s') \<and>
    (case r of None \<Rightarrow> True | Some (i, x) \<Rightarrow> i < MAX_PHY_PORT \<and> pf_ifindex (ss_fds s' ! i) = ifindex \<and>
      0 < pf_refs (ss_fds s' ! i) \<and> 0 \<le> pf_fd (ss_fds s' ! i))"
proof -
  obtain fds r1 where get: "switch_get_fd_info (sw_now env) ifindex w (ss_fds s) = (fds, r1)"
    by fastforce
  have s1: "slots_step (ss_fds s) fds" by (rule slots_step.acquire [OF ifx get])
  have inv1: "slots_inv fds" by (rule slots.inv_step [OF inv s1])
  show ?thesis
  proof (cases r1)
    case None
    with run get s1 show ?thesis by (auto simp: switch_get_fd_data_def)
  next
    case (Some ix)
    obtain i x where ix: "ix = (i, x)" by (cases ix)
    with get Some have "switch_get_fd_info (sw_now env) ifindex w (ss_fds s) = (fds, Some (i, x))" by simp
    note a = acquired_slot [OF inv this]
    have len: "length fds = 64" using inv1 by (simp add: slots_inv_def)
    have rel: "slots_step (fds[i := f]) (fds[i := put_slot now y f])"
      if "0 < pf_refs f" for f now y
      using slots_step.release [of i "fds[i := f]" now y] a(1) that by simp
    have rel0: "slots_step fds (fds[i := put_slot now y (fds ! i)])" for now y
      using rel [of "fds ! i"] a(2) by simp
    show ?thesis
    proof (cases "pf_fd (fds ! i) < 0")
      case False
      with run get Some ix s1 a len rel0 show ?thesis
        by (auto simp: switch_get_fd_data_def Let_def split: prod.splits sum.splits
            intro: rtranclp.rtrancl_into_rtrancl)
    next
      case True
      obtain sv fo where sock: "snsd_get_server_sock (sw_sock env ifindex)
        (switch_init_port_related_info port ifindex) (ss_server s) = (sv, fo)" by fastforce
      show ?thesis
      proof (cases fo)
        case None
        with True run get Some ix s1 a sock rel0 show ?thesis
          by (auto simp: switch_get_fd_data_def Let_def intro: rtranclp.rtrancl_into_rtrancl)
      next
        case (Some fd)
        let ?f = "(fds ! i)\<lparr>pf_fd := fd\<rparr>"
        have fd: "0 \<le> fd" using snsd_get_server_sock_fd sock Some by blast
        have "slots_step fds (fds[i := ?f])" by (rule slots_step.open_fd [OF a(1,2) fd])
        then have o: "slots_step\<^sup>*\<^sup>* (ss_fds s) (fds[i := ?f])"
          using s1 by (meson rtranclp.rtrancl_into_rtrancl rtranclp.rtrancl_refl)
        moreover have "slots_step (fds[i := ?f]) (fds[i := put_slot now y ?f])" for now y
          by (rule rel) (simp add: a)
        ultimately have "slots_step\<^sup>*\<^sup>* (ss_fds s) (fds[i := put_slot now y ?f])" for now y
          by (meson rtranclp.rtrancl_into_rtrancl)
        with o True run get \<open>r1 = Some ix\<close> ix Some a sock fd len show ?thesis
          by (auto simp: switch_get_fd_data_def Let_def split: prod.splits sum.splits)
      qed
    qed
  qed
qed


definition sample_switch_sys :: "port_fd list \<Rightarrow> (unit, unit) switch_sys" where
  "sample_switch_sys fds = \<lparr>ss_fds = fds, ss_server = fresh_server, ss_peons = sample_sys [],
    ss_sent = [], ss_count = 0\<rparr>"

definition sample_switch_env :: "int \<Rightarrow> (unit, unit) switch_env" where
  "sample_switch_env now = \<lparr>sw_now = now,
    sw_sock = (\<lambda>_. \<lparr>so_socket = 50, so_bind = 0, so_opts = Inr (), so_epoll = True\<rparr>),
    sw_send = \<lparr>se_malloc = True, se_socket = (\<lambda>_. 60), se_flags = (\<lambda>_. Some IFF_RUNNING),
      se_send = (\<lambda>fd frame. int (length frame))\<rparr>,
    sw_templates = snsd_connect_template_register (sample_template SNSD_PROTOCOL_ROCE)
      snsd_connect_templates_init,
    sw_peon_envs = (\<lambda>_. sample_env DynNoMemory)\<rparr>"

lemma first_idx_replicate: "first_idx P (replicate n x) = (if 0 < n \<and> P x then Some 0 else None)"
  by (cases n) simp_all

lemma sample_get_fd_data:
  "\<exists>s'. switch_get_fd_data (sample_switch_env 10) 3 (sample_host_port sample_name 0) True
    (sample_switch_sys switch_port_init) = (s', Some (0, 1))"
  by (simp add: switch_get_fd_data_def switch_get_fd_info_def sample_switch_env_def
      sample_switch_sys_def switch_port_init_def switch_fd_init_def first_idx_replicate slot_free_def
      Let_def snsd_get_server_sock_def snsd_update_server_def snsd_add_server_def fresh_server_def
      snsd_update_server_sock_def snsd_lookup_listener_id_def snsd_update_sock_ip_def
      snsd_add_server_ip_def zero_listener_def host_ip_add_def zero_ip_def
      switch_init_port_related_info_def sample_host_port_def)


end
