(* ===== verification/Snsd_Switch_Round.thy ===== *)
theory Snsd_Switch_Round
  imports Snsd_Switch_Props
begin

text \<open>
  Properties of the poll round of \<open>src/snsd_switch.c\<close>: when it checks the ports, when a
  port announces itself, what deleting a port releases, and which ports a round keeps.
\<close>

section \<open>When the ports are checked\<close>

lemma uint_minus_word: "uint ((a :: u32) - b) = (uint a - uint b) mod 2 ^ 32"
  by (simp add: uint_word_ariths)

lemma u32_range: "0 \<le> uint (a :: u32)" "uint (a :: u32) < 4294967296"
  using uint_range_size [of a] by (simp_all add: word_size)

text \<open>
  The ports are checked when the round counter is at least 100 away from that of the last
  check, in either direction: the branch for a wrapped counter computes the distance backwards
  instead of the number of rounds since.
\<close>

theorem switch_need_check_lldp_spec:
  "switch_need_check_lldp pre now \<longleftrightarrow> 100 \<le> \<bar>uint now - uint pre\<bar>"
proof -
  have wrap: "(0xffffffff :: u32) - now + pre + 1 = pre - now"
    by (simp add: word_eq_iff_unsigned)
  have d: "uint (a - b) = uint a - uint b" if "b \<le> a" for a b :: u32
  proof -
    have "0 \<le> uint a - uint b" "uint a - uint b < 4294967296"
      using that u32_range(2) [of a] u32_range(1) [of b] unfolding word_le_def by linarith+
    then show ?thesis by (simp add: uint_minus_word)
  qed
  show ?thesis
    using d [of pre now] d [of now pre]
    by (auto simp: switch_need_check_lldp_def Let_def wrap word_le_def)
qed

section \<open>Announcements\<close>

lemma sw_net_eta: "n\<lparr>ni_port_info := ni_port_info n\<rparr> = n" by simp

text \<open>What a round does with a port that is announced already and whose bonding is unchanged.\<close>

lemma exist_handle_valid:
  assumes "lr_valid (ni_lldp_info n)"
    and "\<not> flag_set (pi_bonding_states (ni_port_info n)) STATE_BONDING_CHANGE"
  shows "switch_port_exist_handle env n s =
    (if flag_set (pi_states (ni_port_info n)) STATE_VLAN_CHANGE
     then (s, n\<lparr>ni_lldp_info := (ni_lldp_info n)\<lparr>lr_expires := sw_now env + 130\<rparr>\<rparr>)
     else let (out, l) = switch_check_lldp_send (sw_send env) (sw_now env) (ni_lldp_info n) (ni_port_info n)
          in (emit out s, n\<lparr>ni_lldp_info := l\<rparr>))"
  using assms by (simp add: switch_port_exist_handle_def Let_def split: prod.split)

lemma check_send_not_due:
  "now < lr_expires l \<Longrightarrow> switch_check_lldp_send env now l p = ([], l)"
  by (simp add: switch_check_lldp_send_def)

lemma lldp_send_cases:
  obtains (fail) e where "lldp_send env fd p nqn = ([], Inl e)"
  | (ok) "lldp_send env fd p nqn = ([(fd, lldp_frame p nqn)], Inr ())"
  by (cases "lldp_send env fd p nqn")
    (auto simp: lldp_send_def Let_def split: if_splits)

lemma check_send_plain:
  assumes "\<not> flag_set (pi_bonding_states p) STATE_BONDING_VALID"
    and "switch_check_lldp_send env now l p = (out, l')"
  shows "(out = [] \<and> (l' = l \<or> l' = l\<lparr>lr_expires := now\<rparr>)) \<or>
    (out = [(lr_fd l, lldp_frame p None)] \<and>
     l' = l\<lparr>lr_expires := now + uint (lr_interval_clock l)\<rparr> \<and> is_linkup (pi_flags p))"
  using assms
  by (cases rule: lldp_send_cases [of env "lr_fd l" p None])
    (auto simp: switch_check_lldp_send_def split: if_splits)

lemma ss_sent_emit [simp]: "ss_sent (emit out s) = ss_sent s @ out"
  by (simp add: emit_def)


definition sample_net :: "port_info \<Rightarrow> bool \<Rightarrow> int \<Rightarrow> sw_net_info" where
  "sample_net p valid expires = \<lparr>ni_port_info = p, ni_lldp_info = \<lparr>lr_valid = valid, lr_fd = 50,
    lr_expires = expires, lr_interval_clock = LLDP_INTERVAL_CLOCK, lr_index = 0, lr_flags = 0\<rparr>\<rparr>"


text \<open>
  A port that gets a slot is not announced while the slot is in quarantine: until the old
  announcement of the slot has aged out it only sends its zone query, and its first announcement
  is due at that time.
\<close>

theorem new_port_respects_quarantine:
  assumes "\<not> lr_valid (ni_lldp_info n)"
    and "switch_port_exist_handle env n s = (s', n')" and "lr_valid (ni_lldp_info n')"
    and "sw_now env < pf_old_time (ss_fds s' ! lr_index (ni_lldp_info n'))"
  shows "lr_expires (ni_lldp_info n') = pf_old_time (ss_fds s' ! lr_index (ni_lldp_info n')) \<and>
    ss_sent s' = ss_sent (fst (switch_get_fd env (ni_port_info n) (ni_lldp_info n) s)) @
      snsd_query_zone_for_port (sw_send env) (lr_fd (ni_lldp_info n')) (ni_port_info n')"
proof -
  obtain s1 p l where g: "switch_get_fd env (ni_port_info n) (ni_lldp_info n) s = (s1, p, l)"
    by (cases "switch_get_fd env (ni_port_info n) (ni_lldp_info n) s")
  let ?e = "calc_expires_for_new (ss_fds s1) (lr_index l) (sw_now env)"
  let ?l = "l\<lparr>lr_interval_clock := LLDP_INTERVAL_CLOCK, lr_expires := ?e\<rparr>"
  have v: "lr_valid l" using assms(1-3) g
    by (auto simp: switch_port_exist_handle_def Let_def split: if_splits)
  obtain out l' where c: "switch_check_lldp_send (sw_send env) (sw_now env) ?l p = (out, l')"
    by fastforce
  have r: "s' = emit (out @ snsd_query_zone_for_port (sw_send env) (lr_fd l') p) s1"
    "ni_port_info n' = p" "ni_lldp_info n' = l'"
    using assms(1,2) g v c by (auto simp: switch_port_exist_handle_def Let_def)
  have idx: "lr_index l' = lr_index l"
    using c by (auto simp: switch_check_lldp_send_def split: if_splits prod.splits)
  have "ss_fds s' = ss_fds s1" by (simp add: r emit_def)
  with assms(4) r(3) idx have q: "sw_now env < pf_old_time (ss_fds s1 ! lr_index l)" by simp
  then have "sw_now env < lr_expires ?l" by (simp add: calc_expires_for_new_def)
  from check_send_not_due [OF this] c have "out = []" "l' = ?l" by simp_all
  with r g q show ?thesis by (simp add: calc_expires_for_new_def emit_def)
qed

definition quarantined_slot :: "port_fd list" where
  "quarantined_slot =
    [\<lparr>pf_ifindex = 3, pf_refs = 0, pf_fd = - 1, pf_index_map = 0, pf_old_time = 100\<rparr>]"

lemmas switch_run_defs = switch_get_fd_data_def switch_get_fd_info_def sample_switch_env_def
  sample_switch_sys_def first_idx_replicate slot_free_def Let_def snsd_get_server_sock_def
  snsd_update_server_def snsd_add_server_def fresh_server_def snsd_update_server_sock_def
  snsd_lookup_listener_id_def snsd_update_sock_ip_def snsd_add_server_ip_def zero_listener_def
  host_ip_add_def zero_ip_def switch_init_port_related_info_def sample_host_port_def

lemma sample_get_quarantined:
  "\<exists>s l. switch_get_fd (sample_switch_env 10) (sample_host_port sample_name 0)
      (ni_lldp_info (sample_net (sample_host_port sample_name 0) False 0))
      (sample_switch_sys quarantined_slot) =
    (s, sample_host_port sample_name 1, l) \<and> lr_valid l \<and> lr_index l = 0 \<and>
    pf_old_time (ss_fds s ! 0) = 100 \<and> ss_sent s = []"
  by (simp add: switch_get_fd_def switch_get_phy_fd_def quarantined_slot_def flag_set_def
      switch_get_index_def upt_rec sample_net_def switch_run_defs)

theorem new_port_respects_quarantine_witness:
  "\<exists>s' n'. switch_port_exist_handle (sample_switch_env 10)
      (sample_net (sample_host_port sample_name 0) False 0) (sample_switch_sys quarantined_slot) =
      (s', n') \<and>
    lr_expires (ni_lldp_info n') = 100 \<and>
    ss_sent s' = snsd_query_zone_for_port (sw_send (sample_switch_env 10)) (lr_fd (ni_lldp_info n'))
      (ni_port_info n')"
proof -
  let ?env = "sample_switch_env 10" and ?n = "sample_net (sample_host_port sample_name 0) False 0"
  let ?s = "sample_switch_sys quarantined_slot"
  obtain s' n' where r: "switch_port_exist_handle ?env ?n ?s = (s', n')" by fastforce
  obtain s l where g: "switch_get_fd ?env (ni_port_info ?n) (ni_lldp_info ?n) ?s =
      (s, sample_host_port sample_name 1, l)"
    and gl: "lr_valid l" "lr_index l = 0" "pf_old_time (ss_fds s ! 0) = 100" "ss_sent s = []"
    using sample_get_quarantined by (auto simp: sample_net_def)
  have nv: "\<not> lr_valid (ni_lldp_info ?n)" by (simp add: sample_net_def)
  have "lr_valid (ni_lldp_info n')" "lr_index (ni_lldp_info n') = 0" "ss_fds s' = ss_fds s"
    using r nv g gl by (auto simp: switch_port_exist_handle_def Let_def emit_def
        switch_check_lldp_send_def calc_expires_for_new_def split: prod.splits if_splits)
  moreover have "sw_now ?env = 10" by (simp add: sample_switch_env_def)
  ultimately have "lr_expires (ni_lldp_info n') = 100 \<and>
      ss_sent s' = ss_sent (fst (switch_get_fd ?env (ni_port_info ?n) (ni_lldp_info ?n) ?s)) @
        snsd_query_zone_for_port (sw_send ?env) (lr_fd (ni_lldp_info n')) (ni_port_info n')"
    using new_port_respects_quarantine [OF nv r] gl(3) by simp
  with r g gl(4) show ?thesis by auto
qed

section \<open>Bondings\<close>

lemma flag_set_or: "flag_set (x OR 1) 1"
proof -
  have "(x OR 1) AND 1 = (1 :: u32)" by (simp add: bit.conj_disj_distrib2)
  then show ?thesis by (simp add: flag_set_def)
qed

definition slave_ready :: "slave_info \<Rightarrow> bool" where
  "slave_ready sl \<longleftrightarrow> flag_set (sl_state sl) STATE_SLAVE_FD_VALID"

definition slave_kept :: "slave_info \<Rightarrow> bool" where
  "slave_kept sl \<longleftrightarrow> \<not> flag_set (sl_state sl) STATE_SLAVE_DELETED"

lemma bonding_loop_spec:
  assumes "bonding_loop env p sls s = (s', sls', n, ok)"
  shows "(ok \<longrightarrow> list_all slave_ready sls' \<and>
      map sl_ifindex sls' = map sl_ifindex (filter slave_kept sls)) \<and>
    n + int (length sls') = int (length sls)"
  using assms
proof (induction env p sls s arbitrary: s' sls' n ok rule: bonding_loop.induct)
  case (1 env p s)
  then show ?case by simp
next
  case (2 env p sl sls s)
  consider (deleted) "flag_set (sl_state sl) STATE_SLAVE_DELETED"
    | (valid) "\<not> flag_set (sl_state sl) STATE_SLAVE_DELETED" "flag_set (sl_state sl) STATE_SLAVE_FD_VALID"
    | (get) r s1 where "\<not> flag_set (sl_state sl) STATE_SLAVE_DELETED"
        "\<not> flag_set (sl_state sl) STATE_SLAVE_FD_VALID"
        "switch_get_fd_data env (sl_ifindex sl) p False s = (s1, r)"
    by (metis surj_pair)
  then show ?case
  proof cases
    case deleted
    let ?s = "if flag_set (sl_state sl) STATE_SLAVE_FD_VALID
      then fst (switch_free_slave_fd (sw_now env) p sl s) else s"
    obtain s1 rest m ok1 where r: "bonding_loop env p sls ?s = (s1, rest, m, ok1)"
      by (metis prod_cases4)
    from "2.IH"(1) [OF deleted refl r] "2.prems" deleted r show ?thesis
      by (auto simp: Let_def slave_kept_def)
  next
    case valid
    obtain s1 rest m ok1 where r: "bonding_loop env p sls s = (s1, rest, m, ok1)"
      by (metis prod_cases4)
    from "2.IH"(3) [of s1 rest m ok1] r "2.prems" valid show ?thesis
      by (auto simp: Let_def slave_kept_def slave_ready_def)
  next
    case get
    show ?thesis
    proof (cases r)
      case None
      with get "2.prems" show ?thesis by auto
    next
      case (Some ix)
      obtain i x where ix: "ix = (i, x)" by (cases ix)
      obtain s2 rest m ok1 where r: "bonding_loop env p sls s1 = (s2, rest, m, ok1)"
        by (metis prod_cases4)
      from "2.IH"(2) [OF get(1,2)] get Some ix r "2.prems" show ?thesis
        by (auto simp: Let_def slave_kept_def slave_ready_def flag_set_or)
    qed
  qed
qed

lemma flag_clear_spec: "\<not> flag_set (flag_clear x f) f"
  by (simp add: flag_set_def flag_clear_def and.assoc)

text \<open>
  Bringing the slaves of a bonding up to date: if it succeeds, the slaves that were not
  deleted remain in their order, each with a socket, and the change mark is gone; if it fails the
  mark stays, so that the next check tries again.  In both cases the slave count falls by the
  number of slaves removed.
\<close>

theorem switch_get_bonding_fd_spec:
  assumes "switch_get_bonding_fd env p s = (s', p', r)"
  shows "(if r = Inr () then
      list_all slave_ready (pi_slaves p') \<and>
      map sl_ifindex (pi_slaves p') = map sl_ifindex (filter slave_kept (pi_slaves p)) \<and>
      \<not> flag_set (pi_bonding_states p') STATE_BONDING_CHANGE
    else r = Inl EAGAIN \<and> pi_bonding_states p' = pi_bonding_states p) \<and>
    pi_slaves_count p - pi_slaves_count p' = int (length (pi_slaves p)) - int (length (pi_slaves p'))"
proof -
  obtain s1 sls n ok where l: "bonding_loop env p (pi_slaves p) s = (s1, sls, n, ok)"
    by (metis prod_cases4)
  from assms l bonding_loop_spec [OF l] show ?thesis
    by (auto simp: switch_get_bonding_fd_def Let_def flag_clear_spec simp del: STATE_BONDING_CHANGE_def
        split: if_splits)
qed

definition sample_slave :: "int \<Rightarrow> u32 \<Rightarrow> slave_info" where
  "sample_slave ifindex state =
    \<lparr>sl_ifindex = ifindex, sl_fd_index = 0, sl_fd = 0, sl_state = state, sl_name = sample_name\<rparr>"

definition sample_bond :: "slave_info list \<Rightarrow> port_info" where
  "sample_bond slaves = (sample_host_port sample_name 1)\<lparr>pi_phy_ifindex := 7,
    pi_bonding_states := STATE_BONDING_VALID OR STATE_BONDING_CHANGE, pi_slaves := slaves,
    pi_slaves_count := int (length slaves)\<rparr>"

theorem switch_get_bonding_fd_spec_witness:
  "\<exists>s' p'. switch_get_bonding_fd (sample_switch_env 10)
      (sample_bond [sample_slave 4 STATE_SLAVE_DELETED, sample_slave 5 STATE_SLAVE_FD_VALID])
      (sample_switch_sys sample_slots) = (s', p', Inr ()) \<and>
    map sl_ifindex (pi_slaves p') = [5] \<and> pi_slaves_count p' = 1"
proof -
  let ?p = "sample_bond [sample_slave 4 STATE_SLAVE_DELETED, sample_slave 5 STATE_SLAVE_FD_VALID]"
  obtain s' p' where r: "switch_get_bonding_fd (sample_switch_env 10) ?p (sample_switch_sys sample_slots) =
      (s', p', Inr ())"
    by (simp add: switch_get_bonding_fd_def sample_bond_def sample_slave_def flag_set_def Let_def)
  from switch_get_bonding_fd_spec [OF r] r show ?thesis
    by (intro exI [of _ s'] exI [of _ p']) (auto simp: sample_bond_def sample_slave_def slave_kept_def
        flag_set_def switch_get_bonding_fd_def Let_def split: prod.splits)
qed

definition other_port_slots :: "port_fd list" where
  "other_port_slots = [
    \<lparr>pf_ifindex = 3, pf_refs = 1, pf_fd = 5, pf_index_map = 1, pf_old_time = 0\<rparr>,
    \<lparr>pf_ifindex = 7, pf_refs = 1, pf_fd = - 1, pf_index_map = 1, pf_old_time = 0\<rparr>]"

definition bond_with_new_slave :: sw_net_info where
  "bond_with_new_slave = sample_net (sample_bond [sample_slave 8 0]) True 0\<lparr>ni_lldp_info :=
    (ni_lldp_info (sample_net (sample_bond []) True 0))\<lparr>lr_index := 1\<rparr>\<rparr>"


section \<open>The round\<close>

text \<open>The slot operations touch neither the peons nor the frames sent.\<close>

lemma put_frame [snsd_frame]:
  "ss_peons (switch_put_fd_info now i x s) = ss_peons s"
  by (simp add: switch_put_fd_info_def Let_def)

lemma get_fd_data_frame [snsd_frame]:
  "ss_peons (fst (switch_get_fd_data env ifx p w s)) = ss_peons s"
  by (simp add: switch_get_fd_data_def Let_def snsd_frame split: prod.split option.split sum.split)

lemma get_fd_data_peons: "switch_get_fd_data env ifx p w s = (s', r) \<Longrightarrow> ss_peons s' = ss_peons s"
  using get_fd_data_frame [of env ifx p w s] by simp

lemma free_slave_frame [snsd_frame]:
  "ss_peons (fst (switch_free_slave_fd now p sl s)) = ss_peons s"
  by (simp add: switch_free_slave_fd_def Let_def snsd_frame)

lemma bonding_loop_frame [snsd_frame]:
  "ss_peons (fst (bonding_loop env p sls s)) = ss_peons s"
proof (induction sls arbitrary: s)
  case (Cons sl sls)
  have IH: "bonding_loop env p sls s = (s', r) \<Longrightarrow> ss_peons s' = ss_peons s" for s s' r
    using Cons.IH [of s] by simp
  show ?case
    by (auto simp: Let_def snsd_frame split: prod.splits option.splits
        dest!: get_fd_data_peons IH)
qed simp

lemma bonding_loop_peons: "bonding_loop env p sls s = (s', r) \<Longrightarrow> ss_peons s' = ss_peons s"
  using bonding_loop_frame [of env p sls s] by simp

lemma get_fd_frame [snsd_frame]:
  "ss_peons (fst (switch_get_fd env p l s)) = ss_peons s"
  "pi_name (fst (snd (switch_get_fd env p l s))) = pi_name p"
  "pi_ip (fst (snd (switch_get_fd env p l s))) = pi_ip p"
  "pi_count (fst (snd (switch_get_fd env p l s))) = pi_count p"
  by (auto simp: switch_get_fd_def switch_get_phy_fd_def switch_get_bonding_phy_fd_def
      switch_get_bonding_fd_def Let_def snsd_frame split: prod.splits option.splits sum.splits
      dest!: get_fd_data_peons bonding_loop_peons)

lemma get_bonding_fd_frame [snsd_frame]:
  "ss_peons (fst (switch_get_bonding_fd env p s)) = ss_peons s"
  "pi_name (fst (snd (switch_get_bonding_fd env p s))) = pi_name p"
  "pi_ip (fst (snd (switch_get_bonding_fd env p s))) = pi_ip p"
  "pi_count (fst (snd (switch_get_bonding_fd env p s))) = pi_count p"
  by (auto simp: switch_get_bonding_fd_def Let_def split: prod.splits dest!: bonding_loop_peons)

lemma exist_handle_frame [snsd_frame]:
  "pi_name (ni_port_info (snd (switch_port_exist_handle env n s))) = pi_name (ni_port_info n)"
  "pi_ip (ni_port_info (snd (switch_port_exist_handle env n s))) = pi_ip (ni_port_info n)"
  "pi_count (ni_port_info (snd (switch_port_exist_handle env n s))) = pi_count (ni_port_info n)"
  "ss_peons (fst (switch_port_exist_handle env n s)) = ss_peons s"
  using get_bonding_fd_frame [of env "ni_port_info n" s]
    get_fd_frame [of env "ni_port_info n" "ni_lldp_info n" s]
  by (auto simp: switch_port_exist_handle_def Let_def emit_def split: prod.splits)

definition batch_peon_up :: "('w, 'c) switch_env \<Rightarrow> ('w, 'c) switch_sys \<Rightarrow> bool" where
  "batch_peon_up env s \<longleftrightarrow> dcbatch_ready (sw_templates env) (sw_peon_envs env) \<and>
    (\<exists>pe. ps_peons (ss_peons s) (Static PEON_TYPE_DCBATCH) = Some pe \<and> pe_type pe = PEON_TYPE_DCBATCH)"

lemma batch_peon_up_cong: "ss_peons s' = ss_peons s \<Longrightarrow> batch_peon_up env s' = batch_peon_up env s"
  by (simp add: batch_peon_up_def)

lemma disconnect_host_up:
  assumes "batch_peon_up env s"
  obtains s' where "disconnect_host env p s = Done (s', Inr ())" "batch_peon_up env s'"
proof -
  obtain pe where "ps_peons (ss_peons s) (Static PEON_TYPE_DCBATCH) = Some pe"
    "pe_type pe = PEON_TYPE_DCBATCH" "dcbatch_ready (sw_templates env) (sw_peon_envs env)"
    using assms by (auto simp: batch_peon_up_def)
  from dcbatch_loop_peon [OF this, of "[0..<SNSD_PROTOCOL_BUTT]"]
  obtain ps pe' where "snsd_disconnect_by_host_traddr (sw_templates env) (sw_peon_envs env)
      (pi_family p) (pi_ip p) (ss_peons s) = Done (ps, Inr ())"
    "ps_peons ps (Static PEON_TYPE_DCBATCH) = Some pe'" "pe_type pe' = PEON_TYPE_DCBATCH"
    by (fastforce simp: snsd_disconnect_by_host_traddr_def simp del: upt_Suc)
  with assms show thesis
    by (intro that [of "s\<lparr>ss_peons := ps\<rparr>"]) (auto simp: disconnect_host_def batch_peon_up_def)
qed

lemma handle_disconnect_up:
  assumes "batch_peon_up env s"
  obtains s' n' where "switch_port_handle_disconnect env n s = Done (s', n')" "batch_peon_up env s'"
    "ni_port_info n' = ni_port_info n"
proof -
  obtain s1 where "disconnect_host env (ni_port_info n) s = Done (s1, Inr ())" "batch_peon_up env s1"
    using assms by (rule disconnect_host_up)
  with assms have "\<exists>s' n'. switch_port_handle_disconnect env n s = Done (s', n') \<and>
      batch_peon_up env s' \<and> ni_port_info n' = ni_port_info n"
    by (simp add: switch_port_handle_disconnect_def Let_def)
  then show thesis using that by blast
qed

lemma free_slaves_frame [snsd_frame]: "ss_peons (free_slaves now p sls s) = ss_peons s"
  by (induction now p sls s rule: free_slaves.induct) (simp_all add: snsd_frame)

lemma port_delete_frame [snsd_frame]: "ss_peons (switch_port_delete now n s) = ss_peons s"
  by (simp add: switch_port_delete_def Let_def switch_free_bonding_fd_def snsd_frame)

text \<open>The name and the address of a port.\<close>

definition port_ident :: "'p net_info_scheme \<Rightarrow> u8 list \<times> u8 list" where
  "port_ident n = (pi_name (ni_port_info n), pi_ip (ni_port_info n))"

definition seen_in :: "u32 \<Rightarrow> sw_net_info \<Rightarrow> bool" where
  "seen_in poll_count n \<longleftrightarrow> pi_count (ni_port_info n) = poll_count"

lemma switch_ports_loop_up:
  assumes "batch_peon_up env s"
  shows "\<exists>s' nets'. switch_ports_loop env poll_count check nets s = Done (s', nets') \<and>
    batch_peon_up env s' \<and> list_all (seen_in poll_count) nets' \<and>
    map port_ident nets' = map port_ident (filter (seen_in poll_count) nets)"
  using assms
proof (induction nets arbitrary: s)
  case (Cons n nets)
  show ?case
  proof (cases "seen_in poll_count n")
    case True
    obtain s1 n1 where h: "(if check then switch_port_exist_handle env n s else (s, n)) = (s1, n1)"
      by fastforce
    have "ss_peons s1 = ss_peons s \<and> pi_count (ni_port_info n1) = pi_count (ni_port_info n) \<and>
      port_ident n1 = port_ident n"
    proof (cases check)
      case True
      then have e: "switch_port_exist_handle env n s = (s1, n1)" using h by simp
      show ?thesis using exist_handle_frame [of env n s] unfolding e fst_conv snd_conv port_ident_def by simp
    next
      case False
      then show ?thesis using h by simp
    qed
    then have f: "ss_peons s1 = ss_peons s" "seen_in poll_count n1"
      "port_ident n1 = port_ident n"
      using True unfolding seen_in_def by simp_all
    from Cons.prems have "batch_peon_up env s1" by (simp only: batch_peon_up_cong [OF f(1)])
    then obtain s2 n2 where d: "switch_port_handle_disconnect env n1 s1 = Done (s2, n2)"
      "batch_peon_up env s2" "ni_port_info n2 = ni_port_info n1" by (rule handle_disconnect_up)
    obtain s' nets' where r: "switch_ports_loop env poll_count check nets s2 = Done (s', nets')"
      "batch_peon_up env s'" "list_all (seen_in poll_count) nets'"
      "map port_ident nets' = map port_ident (filter (seen_in poll_count) nets)"
      using Cons.IH [OF d(2)] by blast
    have "switch_ports_loop env poll_count check (n # nets) s = Done (s', n2 # nets')"
      using True h d(1) r(1) by (simp add: seen_in_def)
    moreover have "seen_in poll_count n2" using f(2) d(3) by (simp add: seen_in_def)
    moreover have id: "port_ident n2 = port_ident n" using f(3) d(3) by (simp add: port_ident_def)
    ultimately show ?thesis
      by (intro exI [of _ s'] exI [of _ "n2 # nets'"])
        (use r True id in \<open>simp del: switch_ports_loop.simps\<close>)
  next
    case False
    from Cons.prems obtain s1 where d: "disconnect_host env (ni_port_info n) s = Done (s1, Inr ())"
      "batch_peon_up env s1" by (rule disconnect_host_up)
    have "batch_peon_up env (switch_port_delete (sw_now env) n s1)"
      using d(2) by (simp add: batch_peon_up_cong [OF port_delete_frame])
    moreover have "switch_ports_loop env poll_count check (n # nets) s =
        switch_ports_loop env poll_count check nets (switch_port_delete (sw_now env) n s1)"
      using False d(1) by (simp add: seen_in_def)
    ultimately show ?thesis using Cons.IH False by (simp del: switch_ports_loop.simps)
  qed
qed simp

text \<open>
  If the requests to the scheduler go through, a poll round ends, and the ports it leaves are
  those the list update saw, in their order; every other port is deleted.  The counter of the last
  check advances exactly if this round checked the ports.
\<close>

theorem switch_port_handle_spec:
  assumes "batch_peon_up env s"
  shows "\<exists>s' nets'. switch_port_handle env poll_count (Some nets) s = Done (s', Some nets') \<and>
    list_all (seen_in poll_count) nets' \<and>
    map port_ident nets' = map port_ident (filter (seen_in poll_count) nets) \<and>
    (switch_need_check_lldp (ss_count s) poll_count \<longrightarrow> ss_count s' = poll_count)"
proof -
  obtain s1 nets' where "switch_ports_loop env poll_count
      (switch_need_check_lldp (ss_count s) poll_count) nets s = Done (s1, nets')"
    "list_all (seen_in poll_count) nets'"
    "map port_ident nets' = map port_ident (filter (seen_in poll_count) nets)"
    using switch_ports_loop_up [OF assms] by metis
  then show ?thesis by (auto simp: switch_port_handle_def Let_def)
qed

lemma sample_batch_peon_up: "batch_peon_up (sample_switch_env now) (sample_switch_sys fds)"
proof -
  have "snsd_connect_template_register (sample_template SNSD_PROTOCOL_ROCE)
      snsd_connect_templates_init = [None, Some (sample_template 1), None, None]"
    by (simp add: snsd_connect_template_register_def snsd_connect_templates_init_def
        sample_template_def numeral_nat)
  then have "dcbatch_ready (sw_templates (sample_switch_env now)) (sw_peon_envs (sample_switch_env now))"
    by (auto simp: dcbatch_ready_def find_template_def nth_Cons sample_env_def sample_template_def
        sample_toolbox_def sample_switch_env_def split: nat.splits if_splits)
  then show ?thesis by (simp add: batch_peon_up_def sample_switch_sys_def sample_sys_def sample_peon_def)
qed

theorem switch_port_handle_spec_witness:
  "\<exists>s' net. switch_port_handle (sample_switch_env 10) 7
      (Some [sample_net (sample_host_port sample_name 1) True 99,
             sample_net ((sample_host_port sample_name 2)\<lparr>pi_count := 7\<rparr>) True 99])
      (sample_switch_sys other_port_slots) = Done (s', Some [net]) \<and>
    pi_name (ni_port_info net) = sample_name"
proof -
  obtain s' nets' where r: "switch_port_handle (sample_switch_env 10) 7
      (Some [sample_net (sample_host_port sample_name 1) True 99,
             sample_net ((sample_host_port sample_name 2)\<lparr>pi_count := 7\<rparr>) True 99])
      (sample_switch_sys other_port_slots) = Done (s', Some nets')"
    "map port_ident nets' = [port_ident (sample_net ((sample_host_port sample_name 2)\<lparr>pi_count := 7\<rparr>) True 99)]"
    using switch_port_handle_spec [where poll_count = 7 and
        nets = "[sample_net (sample_host_port sample_name 1) True 99,
          sample_net ((sample_host_port sample_name 2)\<lparr>pi_count := 7\<rparr>) True 99]",
        OF sample_batch_peon_up [of 10 other_port_slots]]
    by (auto simp: seen_in_def sample_net_def sample_host_port_def)
  from r(2) obtain net where "nets' = [net]" "pi_name (ni_port_info net) = sample_name"
    by (auto simp: port_ident_def sample_net_def sample_host_port_def)
  with r(1) show ?thesis by blast
qed

end
