(* ===== verification/Snsd_Direct.thy ===== *)
theory Snsd_Direct
  imports Snsd_Net Snsd_Switch_Round
begin

text \<open>
  \<open>src/snsd_direct.c\<close>: the ports in direct mode, which are connected to a configured target
  while their link is up.  The state is the scheduler; \<open>env_of\<close> is what the outside answers
  while a port is handled, and the round takes the outcome of \<open>snsd_cfg_net_info\<close>.
\<close>

definition link_running :: "port_info \<Rightarrow> bool" where
  "link_running p \<longleftrightarrow> pi_flags p AND IFF_RUNNING \<noteq> 0"

definition direct_connect_handle ::
  "('w, 'c) templates \<Rightarrow> 'w peon_env \<Rightarrow> dc_net_info \<Rightarrow> connect_param \<Rightarrow> ('w, 'c) peon_sys \<Rightarrow>
    (('w, 'c) peon_sys \<times> dc_net_info) call" where
  "direct_connect_handle ts env cur_net connect s =
    (if (ni_direct_state cur_net = SNSD_DISCONNECTED \<or> ni_direct_state cur_net = SNSD_CONNECT_INI) \<and>
        link_running (ni_port_info cur_net) then
       (case snsd_connect ts env connect s of
          Stuck \<Rightarrow> Stuck
        | Done (s, ret) \<Rightarrow>
            if ret \<noteq> Inr () then Done (s, cur_net)
            else Done (s, cur_net\<lparr>ni_direct_state := SNSD_CONNECTED\<rparr>))
     else if ni_direct_state cur_net = SNSD_CONNECTED \<and> \<not> link_running (ni_port_info cur_net) then
       (case snsd_disconnect ts env connect s of
          Stuck \<Rightarrow> Stuck
        | Done (s, ret) \<Rightarrow>
            if ret \<noteq> Inr () then Done (s, cur_net)
            else Done (s, cur_net\<lparr>ni_direct_state := SNSD_DISCONNECTED\<rparr>))
     else Done (s, cur_net))"

definition direct_param :: "port_info \<Rightarrow> connect_param" where
  "direct_param p = zero_connect_param\<lparr>cp_protocol := pi_protocol p, cp_family := pi_family p,
    cp_mode := SNSD_MODE_DC, cp_traddr := take IPV6_ADDR_LENGTH (pi_tgtip p),
    cp_host_traddr := take IPV6_ADDR_LENGTH (pi_ip p)\<rparr>"

fun direct_ports_loop ::
  "('w, 'c) templates \<Rightarrow> (port_info \<Rightarrow> 'w peon_env) \<Rightarrow> u32 \<Rightarrow> dc_net_info list \<Rightarrow> ('w, 'c) peon_sys \<Rightarrow>
    (('w, 'c) peon_sys \<times> dc_net_info list) call" where
  "direct_ports_loop ts env_of count [] s = Done (s, [])"
| "direct_ports_loop ts env_of count (cur_net # nets) s =
    (let port = ni_port_info cur_net; connect = direct_param port; env = env_of port in
     if pi_count port = count then
       (case direct_connect_handle ts env cur_net connect s of
          Stuck \<Rightarrow> Stuck
        | Done (s, cur_net) \<Rightarrow>
            (case direct_ports_loop ts env_of count nets s of
               Stuck \<Rightarrow> Stuck
             | Done (s, nets) \<Rightarrow> Done (s, cur_net # nets)))
     else if ni_direct_state cur_net = SNSD_CONNECTED then
       (case snsd_disconnect ts env connect s of
          Stuck \<Rightarrow> Stuck
        | Done (s, ret) \<Rightarrow> direct_ports_loop ts env_of count nets s)
     else direct_ports_loop ts env_of count nets s)"

definition direct_port_handle ::
  "('w, 'c) templates \<Rightarrow> (port_info \<Rightarrow> 'w peon_env) \<Rightarrow> u32 \<Rightarrow> dc_net_info list option \<Rightarrow> ('w, 'c) peon_sys \<Rightarrow>
    (('w, 'c) peon_sys \<times> dc_net_info list option) call" where
  "direct_port_handle ts env_of count cfg s =
    (case cfg of
       None \<Rightarrow> Done (s, None)
     | Some nets \<Rightarrow>
         (case direct_ports_loop ts env_of count nets s of
            Stuck \<Rightarrow> Stuck
          | Done (s, nets) \<Rightarrow> Done (s, Some nets)))"

section \<open>Properties\<close>

definition set_direct :: "direct_state \<Rightarrow> dc_net_info \<Rightarrow> dc_net_info" where
  "set_direct st n = n\<lparr>ni_direct_state := st\<rparr>"

text \<open>
  The handling of a direct port is level triggered: a request is made exactly if the recorded
  connection differs from the state of the link; it is a connect if the link is up and a disconnect
  otherwise, and the record follows the link exactly if the request was queued.
\<close>

theorem direct_connect_handle_spec:
  "direct_connect_handle ts env n param s =
    (let up = link_running (ni_port_info n) in
     if (ni_direct_state n = SNSD_CONNECTED) = up then Done (s, n)
     else case (if up then snsd_connect else snsd_disconnect) ts env param s of
       Stuck \<Rightarrow> Stuck
     | Done (s', ret) \<Rightarrow> Done (s', if ret = Inr ()
         then set_direct (if up then SNSD_CONNECTED else SNSD_DISCONNECTED) n else n))"
  by (cases "ni_direct_state n")
    (auto simp: direct_connect_handle_def Let_def set_direct_def split: call.split prod.split)

definition seen_now :: "u32 \<Rightarrow> dc_net_info \<Rightarrow> bool" where
  "seen_now count n \<longleftrightarrow> pi_count (ni_port_info n) = count"

lemma direct_handle_port:
  "direct_connect_handle ts env n param s = Done (s', n') \<Longrightarrow> ni_port_info n' = ni_port_info n"
  by (auto simp: direct_connect_handle_def split: if_splits call.splits prod.splits)

lemma direct_ports_loop_ports:
  "direct_ports_loop ts env_of count nets s = Done (s', nets') \<Longrightarrow>
    map ni_port_info nets' = map ni_port_info (filter (seen_now count) nets)"
proof (induction nets arbitrary: s s' nets')
  case (Cons n nets)
  show ?case
  proof (cases "seen_now count n")
    case True
    then have c: "pi_count (ni_port_info n) = count" by (simp add: seen_now_def)
    from Cons.prems c obtain s1 n1 nets1 where
      h: "direct_connect_handle ts (env_of (ni_port_info n)) n (direct_param (ni_port_info n)) s = Done (s1, n1)"
      and r: "direct_ports_loop ts env_of count nets s1 = Done (s', nets1)" "nets' = n1 # nets1"
      by (auto simp: Let_def split: call.splits prod.splits)
    from Cons.IH [OF r(1)] r(2) direct_handle_port [OF h] True show ?thesis by simp
  next
    case False
    then have c: "pi_count (ni_port_info n) \<noteq> count" by (simp add: seen_now_def)
    from Cons.prems c obtain s1 where "direct_ports_loop ts env_of count nets s1 = Done (s', nets')"
      by (auto simp: Let_def split: call.splits prod.splits if_splits)
    from Cons.IH [OF this] False show ?thesis by simp
  qed
qed simp

text \<open>
  A round of the direct mode keeps exactly the ports the list update saw, unchanged and in
  their order.
\<close>

theorem direct_port_handle_keeps_seen:
  assumes "direct_port_handle ts env_of count (Some nets) s = Done (s', Some nets')"
  shows "map ni_port_info nets' = map ni_port_info (filter (seen_now count) nets)"
  using assms
  by (auto simp: direct_port_handle_def intro: direct_ports_loop_ports split: call.splits prod.splits)

text \<open>
  A connected port that is gone is forgotten even if its disconnect could not be queued:
  without memory for the request the round drops the port, leaves every queue as it was, and no
  later round asks again.
\<close>

theorem vanished_direct_port_forgotten:
  assumes "ni_direct_state n = SNSD_CONNECTED" and "\<not> seen_now count n"
    and "\<not> en_calloc_ok (env_of (ni_port_info n))"
  shows "\<exists>s'. direct_port_handle ts env_of count (Some [n]) s = Done (s', Some []) \<and>
    ps_peons s' = ps_peons s"
  using assms
  by (auto simp: direct_port_handle_def seen_now_def Let_def snsd_disconnect_def peon_new_task_def
      peon_add_disconn_task_def peon_add_task_inner_def peon_task_add_def peon_sn_generate_def
      split: option.split)

definition sample_direct :: "direct_state \<Rightarrow> dc_net_info" where
  "sample_direct st = \<lparr>ni_port_info = sample_host_port sample_name 1, ni_direct_state = st\<rparr>"

definition no_memory_env :: "unit peon_env" where
  "no_memory_env = (sample_env DynNoMemory)\<lparr>en_calloc_ok := False\<rparr>"

theorem vanished_direct_port_forgotten_witness:
  "\<exists>s'. direct_port_handle (sw_templates (sample_switch_env 0)) (\<lambda>_. no_memory_env) 7
      (Some [sample_direct SNSD_CONNECTED]) (sample_sys []) = Done (s', Some []) \<and>
    ps_peons s' = ps_peons (sample_sys [])"
  by (rule vanished_direct_port_forgotten)
    (simp_all add: sample_direct_def seen_now_def sample_host_port_def no_memory_env_def)

theorem direct_port_handle_keeps_seen_witness:
  "\<exists>s' nets'. direct_port_handle (sw_templates (sample_switch_env 0)) (\<lambda>_. no_memory_env) 0
      (Some [sample_direct SNSD_CONNECTED]) (sample_sys []) = Done (s', Some nets') \<and>
    map ni_port_info nets' = [sample_host_port sample_name 1]"
proof -
  obtain s' nets' where r: "direct_port_handle (sw_templates (sample_switch_env 0))
      (\<lambda>_. no_memory_env) 0 (Some [sample_direct SNSD_CONNECTED]) (sample_sys []) = Done (s', Some nets')"
    by (simp add: direct_port_handle_def sample_direct_def sample_host_port_def
        direct_connect_handle_def link_running_def Let_def)
  from direct_port_handle_keeps_seen [OF r] r show ?thesis
    by (simp add: sample_direct_def seen_now_def sample_host_port_def)
qed

end
