(* ===== verification/Snsd_Nvme.thy ===== *)
theory Snsd_Nvme
  imports Snsd_Prelude
begin

text \<open>
  \<open>src/snsd_nvme.c\<close>: the two administration commands the program sends to an NVMe controller,
  keep alive and get log page, and the discovery that reads the log page until it is stable.

  The controller is a parameter: \<open>ioctl\<close> takes a command and the state of the outside and
  returns the new state, its return value and, for a log page, the header and the entries it put
  into the buffer.  Opening the device gives a descriptor or an errno value.  Return values are the
  integers of the code.
\<close>

section \<open>Commands\<close>

record nvme_command =
  nc_opcode :: u8
  nc_nsid :: u32
  nc_data_len :: u32
  nc_dword10 :: u32
  nc_dword11 :: u32
  nc_dword12 :: u32
  nc_dword13 :: u32
  nc_timeout :: u32

definition nvme_command_zero :: nvme_command where
  "nvme_command_zero = \<lparr>nc_opcode = 0, nc_nsid = 0, nc_data_len = 0, nc_dword10 = 0, nc_dword11 = 0,
    nc_dword12 = 0, nc_dword13 = 0, nc_timeout = 0\<rparr>"

definition nvme_admin_get_log_page :: u8 where [simp]: "nvme_admin_get_log_page = 0x02"
definition nvme_admin_keep_alive :: u8 where [simp]: "nvme_admin_keep_alive = 0x18"
definition NVME_LOG_DISC :: u8 where [simp]: "NVME_LOG_DISC = 0x70"
definition NVME_NO_LOG_LSP :: u8 where [simp]: "NVME_NO_LOG_LSP = 0"
definition DISCOVERY_MAX_RETRY :: nat where [simp]: "DISCOVERY_MAX_RETRY = 10"

text \<open>\<open>sizeof(struct nvmf_disc_rsp_page_hdr)\<close> and \<open>sizeof(struct nvmf_disc_rsp_page_entry)\<close>.\<close>

definition sizeof_disc_hdr :: nat where [simp]: "sizeof_disc_hdr = 1024"
definition sizeof_disc_entry :: nat where [simp]: "sizeof_disc_entry = 1024"

definition minus_ENOMEM :: int where [simp]: "minus_ENOMEM = - 12"
definition minus_EFAULT :: int where [simp]: "minus_EFAULT = - 14"

text \<open>The entries are whatever type the reader of the log uses.\<close>

record 'e disc_log =
  dl_genctr :: u64
  dl_numrec :: u64
  dl_entries :: "'e list"

record ('d, 'e) nvme_env =
  ne_open :: "int + int"
  ne_calloc :: "u32 \<Rightarrow> bool"
  ne_ioctl :: "nvme_command \<Rightarrow> 'd \<Rightarrow> 'd \<times> int \<times> 'e disc_log"

definition nvme_send_keep_alive :: "('d, 'e) nvme_env \<Rightarrow> u32 \<Rightarrow> 'd \<Rightarrow> 'd \<times> int" where
  "nvme_send_keep_alive env timeout d =
    (case ne_ioctl env (nvme_command_zero\<lparr>nc_opcode := nvme_admin_keep_alive, nc_timeout := timeout\<rparr>) d of
       (d, ret, _) \<Rightarrow> (d, ret))"

definition nvme_keep_alive :: "('d, 'e) nvme_env \<Rightarrow> u32 \<Rightarrow> 'd \<Rightarrow> 'd \<times> int" where
  "nvme_keep_alive env timeout d =
    (case ne_open env of
       Inl err \<Rightarrow> (d, - err)
     | Inr fd \<Rightarrow> nvme_send_keep_alive env timeout d)"

text \<open>
  \<open>nvme_get_log_page\<close>: the command.  In C the four parts of dword 10 are promoted to
  \<open>int\<close>; or-ed and converted to 32 bits they are the words below.
\<close>

definition log_page_command ::
  "u32 \<Rightarrow> u8 \<Rightarrow> u8 \<Rightarrow> bool \<Rightarrow> u16 \<Rightarrow> u64 \<Rightarrow> u32 \<Rightarrow> nvme_command" where
  "log_page_command nsid logid lsp rae lsi lpo data_len =
    (let numd = drop_bit 2 data_len - 1;
         numdu = ucast (drop_bit 16 numd) :: u16;
         numdl = ucast (numd AND 0xffff) :: u16
     in nvme_command_zero\<lparr>nc_opcode := nvme_admin_get_log_page, nc_nsid := nsid,
          nc_data_len := data_len,
          nc_dword10 := ucast logid OR push_bit 8 (ucast (lsp AND 0xf)) OR
            (if rae then push_bit 15 1 else 0) OR push_bit 16 (ucast numdl),
          nc_dword11 := ucast numdu OR push_bit 16 (ucast lsi),
          nc_dword12 := ucast lpo, nc_dword13 := ucast (drop_bit 32 lpo)\<rparr>)"

definition nvme_get_disclog :: "('d, 'e) nvme_env \<Rightarrow> u32 \<Rightarrow> 'd \<Rightarrow> 'd \<times> int \<times> 'e disc_log" where
  "nvme_get_disclog env len d =
    ne_ioctl env (log_page_command 0 NVME_LOG_DISC NVME_NO_LOG_LSP False 0 0 len) d"

section \<open>Discovery\<close>

text \<open>
  The size of the buffer for a log of \<open>numrec\<close> records: the record count is cut to 32 bits,
  the sum is taken in \<open>size_t\<close> and stored in a \<open>uint32_t\<close>.
\<close>

definition disc_log_size :: "u64 \<Rightarrow> u32" where
  "disc_log_size numrec =
    ucast (of_nat sizeof_disc_hdr + ucast (ucast numrec :: u32) * of_nat sizeof_disc_entry :: u64)"

definition nvme_get_disclog_assign_numrec ::
  "('d, 'e) nvme_env \<Rightarrow> u64 \<Rightarrow> 'd \<Rightarrow> 'd \<times> (int + 'e disc_log)" where
  "nvme_get_disclog_assign_numrec env numrec d =
    (let log_size = disc_log_size numrec in
     if \<not> ne_calloc env log_size then (d, Inl minus_ENOMEM)
     else case nvme_get_disclog env log_size d of
       (d, ret, log) \<Rightarrow> if ret \<noteq> 0 then (d, Inl ret) else (d, Inr log))"

fun discovery_loop ::
  "('d, 'e) nvme_env \<Rightarrow> nat \<Rightarrow> u64 \<Rightarrow> u64 \<Rightarrow> 'd \<Rightarrow> 'd \<times> (int + 'e disc_log)" where
  "discovery_loop env 0 numrec genctr d = (d, Inl minus_EFAULT)"
| "discovery_loop env (Suc tries) numrec genctr d =
    (case nvme_get_disclog_assign_numrec env numrec d of
       (d, Inl ret) \<Rightarrow> (d, Inl ret)
     | (d, Inr log) \<Rightarrow>
         if dl_numrec log \<noteq> 0 \<and> dl_genctr log = genctr then (d, Inr log)
         else discovery_loop env tries (dl_numrec log) (dl_genctr log) d)"

definition nvme_discovery_log :: "('d, 'e) nvme_env \<Rightarrow> 'd \<Rightarrow> 'd \<times> (int + 'e disc_log)" where
  "nvme_discovery_log env d =
    (case ne_open env of
       Inl err \<Rightarrow> (d, Inl (- err))
     | Inr fd \<Rightarrow>
         (case nvme_get_disclog_assign_numrec env 0 d of
            (d, Inl ret) \<Rightarrow> (d, Inl ret)
          | (d, Inr log) \<Rightarrow>
              discovery_loop env DISCOVERY_MAX_RETRY (dl_numrec log) (dl_genctr log) d))"

section \<open>Properties\<close>

text \<open>The lengths and offsets the controller reads from a command.\<close>

definition command_dwords :: "nvme_command \<Rightarrow> nat" where
  "command_dwords c = unat (drop_bit 16 (nc_dword10 c)) +
    2 ^ 16 * unat (nc_dword11 c AND 0xffff) + 1"

definition command_offset :: "nvme_command \<Rightarrow> nat" where
  "command_offset c = unat (nc_dword12 c) + 2 ^ 32 * unat (nc_dword13 c)"

lemma bit_high: "bit (w :: 'a :: len word) n \<Longrightarrow> n < LENGTH('a)"
  using bit_imp_le_length by blast

lemma bit_32768: "bit (32768 :: u32) n \<longleftrightarrow> n = 15"
proof -
  have "(32768 :: u32) = 2 ^ 15" by simp
  then show ?thesis by (simp only: bit_exp_iff) auto
qed

lemma bit_32768_int: "bit (32768 :: int) n \<longleftrightarrow> n = 15"
proof -
  have "(32768 :: int) = 2 ^ 15" by simp
  then show ?thesis by (simp only: bit_exp_iff) auto
qed

lemma dword10_high:
  "drop_bit 16 (ucast (a :: u8) OR push_bit 8 (ucast ((b :: u8) AND 0xf)) OR
     (if r then push_bit 15 1 else 0) OR push_bit 16 (ucast (c :: u16)) :: u32) = ucast c"
  by (rule bit_word_eqI) (cases r; auto simp: bit_simps bit_32768 bit_32768_int dest: bit_high)

lemma dword10_low:
  "(ucast (a :: u8) OR push_bit 8 (ucast ((b :: u8) AND 0xf)) OR
     (if r then push_bit 15 1 else 0) OR push_bit 16 (ucast (c :: u16)) :: u32) AND 0xff = ucast a"
proof -
  have "(0xff :: u32) = mask 8" by (simp add: mask_eq_exp_minus_1)
  show ?thesis unfolding \<open>(0xff :: u32) = mask 8\<close>
    by (rule bit_word_eqI) (cases r; auto simp: bit_simps bit_32768 bit_32768_int dest: bit_high)
qed

lemma dword11_low: "(ucast (c :: u16) OR push_bit 16 (ucast (l :: u16)) :: u32) AND 0xffff = ucast c"
proof -
  have m: "(0xffff :: u32) = mask 16" by (simp add: mask_eq_exp_minus_1)
  show ?thesis unfolding m
    by (rule bit_word_eqI) (auto simp: bit_simps dest: bit_high)
qed

lemma unat_lt: "unat (w :: 'a :: len word) < 2 ^ LENGTH('a)"
  by (rule unsigned_less)

lemma unat_ucast_16_32: "unat (ucast (w :: u16) :: u32) = unat w"
  using unat_lt [of w] by (simp add: unsigned_ucast_eq take_bit_nat_eq_self)

lemma unat_ucast_32_64: "unat (ucast (w :: u32) :: u64) = unat w"
  using unat_lt [of w] by (simp add: unsigned_ucast_eq take_bit_nat_eq_self)

lemma unat_ucast_32_16: "unat (ucast (w :: u32) :: u16) = unat w mod 2 ^ 16"
  by (simp add: unsigned_ucast_eq take_bit_eq_mod)

lemma unat_ucast_64_32: "unat (ucast (w :: u64) :: u32) = unat w mod 2 ^ 32"
  by (simp add: unsigned_ucast_eq take_bit_eq_mod)

lemma log_page_fields:
  "nc_dword10 (log_page_command nsid logid lsp rae lsi lpo data_len) =
    (ucast logid OR push_bit 8 (ucast (lsp AND 0xf)) OR (if rae then push_bit 15 1 else 0) OR
     push_bit 16 (ucast (ucast ((drop_bit 2 data_len - 1) AND 0xffff) :: u16)))"
  "nc_dword11 (log_page_command nsid logid lsp rae lsi lpo data_len) =
    (ucast (ucast (drop_bit 16 (drop_bit 2 data_len - 1)) :: u16) OR push_bit 16 (ucast lsi))"
  by (simp_all add: log_page_command_def Let_def)

text \<open>
  The command to read a log page says what it was asked for: its log page identifier and
  name space, a length field of exactly the bytes of the buffer (in dwords), and the offset.
\<close>

theorem log_page_command_roundtrip:
  assumes "4 \<le> unat data_len"
  shows "let c = log_page_command nsid logid lsp rae lsi lpo data_len in
    nc_dword10 c AND 0xff = ucast logid \<and> nc_nsid c = nsid \<and>
    command_dwords c = unat data_len div 4 \<and> command_offset c = unat lpo"
proof -
  let ?n = "drop_bit 2 data_len - 1"
  have d: "unat (drop_bit 2 data_len) = unat data_len div 4"
    by (simp only: unat_drop_bit_eq drop_bit_eq_div [where 'a = nat]) simp
  with assms have "drop_bit 2 data_len \<noteq> 0"
    by (metis div_greater_zero_iff gr_implies_not0 unsigned_0 zero_less_numeral)
  then have n: "unat ?n = unat data_len div 4 - 1"
    by (simp add: unat_minus_one d)
  have lo: "unat (ucast (?n AND 0xffff) :: u16) = unat ?n mod 2 ^ 16"
  proof -
    have "?n AND 0xffff = take_bit 16 ?n" by (simp add: take_bit_eq_mask mask_eq_exp_minus_1)
    then show ?thesis
      by (simp only: unat_ucast_32_16 unsigned_take_bit_eq take_bit_eq_mod [where 'a = nat]) simp
  qed
  have hi: "unat (ucast (drop_bit 16 ?n) :: u16) = unat ?n div 2 ^ 16"
    using unat_lt [of ?n] by (simp add: unat_ucast_32_16 unat_drop_bit_eq drop_bit_eq_div [where 'a = nat])
  have dw: "unat ?n mod 2 ^ 16 + 2 ^ 16 * (unat ?n div 2 ^ 16) + 1 = unat data_len div 4"
    using n assms by (simp add: add.commute)
  have off: "unat (ucast lpo :: u32) + 2 ^ 32 * unat (ucast (drop_bit 32 lpo) :: u32) = unat lpo"
    using unat_lt [of lpo]
    by (simp add: unat_ucast_64_32 unat_drop_bit_eq drop_bit_eq_div [where 'a = nat])
  let ?c = "log_page_command nsid logid lsp rae lsi lpo data_len"
  have "drop_bit 16 (nc_dword10 ?c) = ucast (ucast (?n AND 0xffff) :: u16)"
    by (simp only: log_page_fields dword10_high)
  moreover have "nc_dword11 ?c AND 0xffff = ucast (ucast (drop_bit 16 ?n) :: u16)"
    by (simp only: log_page_fields dword11_low)
  ultimately have "command_dwords ?c = unat data_len div 4"
    unfolding command_dwords_def using dw by (simp only: unat_ucast_16_32 lo hi)
  moreover have "nc_dword10 ?c AND 0xff = ucast logid"
    by (simp only: log_page_fields dword10_low)
  moreover have "nc_nsid ?c = nsid" "command_offset ?c = unat lpo"
    using off by (simp_all add: log_page_command_def Let_def command_offset_def)
  ultimately show ?thesis by (simp only: Let_def simp_thms)
qed

theorem log_page_command_roundtrip_witness:
  "command_dwords (log_page_command 0 NVME_LOG_DISC 0 False 0 0 4096) = 1024"
proof -
  have "4 \<le> unat (4096 :: u32)" by simp
  from log_page_command_roundtrip [OF this] show ?thesis by (simp add: Let_def)
qed

text \<open>
  The buffer of a discovery log holds the header and the records exactly if the record count
  is below 2^22 - 1: the 32-bit size wraps above it, and a controller that reports 4194303 records
  makes the code allocate no bytes at all for the header it then reads.
\<close>

theorem disc_log_size_spec:
  "unat (disc_log_size numrec) = 1024 * (unat numrec mod 2 ^ 32 + 1) mod 2 ^ 32 \<and>
   (unat (disc_log_size numrec) = 1024 * (unat numrec + 1) \<longleftrightarrow> unat numrec < 2 ^ 22 - 1) \<and>
   disc_log_size 4194303 = 0"
proof -
  have c: "unat (ucast (ucast numrec :: u32) :: u64) = unat numrec mod 2 ^ 32"
    by (simp only: unat_ucast_32_64 unat_ucast_64_32)
  have p: "unat ((of_nat sizeof_disc_hdr + w * of_nat sizeof_disc_entry) :: u64) =
      1024 + unat w * 1024" if "unat w < 2 ^ 32" for w :: u64
    using that by (simp add: unat_word_ariths unsigned_of_nat)
  have s: "unat (disc_log_size numrec) = 1024 * (unat numrec mod 2 ^ 32 + 1) mod 2 ^ 32"
    unfolding disc_log_size_def unat_ucast_64_32
    by (subst p) (simp_all add: c algebra_simps)
  moreover have "(1024 * (m mod 2 ^ 32 + 1) mod 2 ^ 32 = 1024 * (m + 1)) \<longleftrightarrow> m < 2 ^ 22 - 1"
    for m :: nat
  proof
    assume "1024 * (m mod 2 ^ 32 + 1) mod 2 ^ 32 = 1024 * (m + 1)"
    moreover have "1024 * (m mod 2 ^ 32 + 1) mod 2 ^ 32 < (2 :: nat) ^ 32" by simp
    ultimately show "m < 2 ^ 22 - 1" by simp
  next
    assume "m < 2 ^ 22 - 1"
    then show "1024 * (m mod 2 ^ 32 + 1) mod 2 ^ 32 = 1024 * (m + 1)" by simp
  qed
  moreover have "disc_log_size 4194303 = 0" by (simp add: disc_log_size_def)
  ultimately show ?thesis by simp
qed

section \<open>Discovery\<close>

text \<open>
  The commands of a run: a controller that records every command it is sent, on top of any other.
\<close>

definition recording :: "('d, 'e) nvme_env \<Rightarrow> (nvme_command list \<times> 'd, 'e) nvme_env" where
  "recording env = \<lparr>ne_open = ne_open env, ne_calloc = ne_calloc env,
    ne_ioctl = (\<lambda>c (cs, d). case ne_ioctl env c d of (d, ret, log) \<Rightarrow> ((cs @ [c], d), ret, log))\<rparr>"

lemma recording_assign:
  "nvme_get_disclog_assign_numrec (recording env) numrec (cs, d) =
    (case nvme_get_disclog_assign_numrec env numrec d of (d', r) \<Rightarrow>
      ((cs @ (if ne_calloc env (disc_log_size numrec)
        then [log_page_command 0 NVME_LOG_DISC NVME_NO_LOG_LSP False 0 0 (disc_log_size numrec)] else []), d'), r))"
  by (simp add: nvme_get_disclog_assign_numrec_def nvme_get_disclog_def recording_def Let_def
      split: prod.split)

text \<open>A controller that never fails, on a machine that never runs out of memory.\<close>

definition reliable :: "('d, 'e) nvme_env \<Rightarrow> bool" where
  "reliable env \<longleftrightarrow> (\<forall>c d. fst (snd (ne_ioctl env c d)) = 0) \<and> (\<forall>n. ne_calloc env n)"

lemma assign_fails:
  assumes "nvme_get_disclog_assign_numrec env numrec d = (d', Inl ret)"
  shows "\<not> reliable env"
proof
  assume "reliable env"
  then have "ne_calloc env (disc_log_size numrec)"
    "fst (snd (nvme_get_disclog env (disc_log_size numrec) d)) = 0"
    by (simp_all add: nvme_get_disclog_def reliable_def)
  with assms show False
    by (auto simp: nvme_get_disclog_assign_numrec_def Let_def split: prod.splits if_splits)
qed

lemma discovery_loop_spec:
  assumes "discovery_loop (recording env) tries numrec genctr (cs, d) = ((cs', d'), r)"
  shows "length cs' \<le> length cs + tries \<and>
    (case r of Inl ret \<Rightarrow> True | Inr log \<Rightarrow> dl_numrec log \<noteq> 0) \<and>
    (reliable env \<longrightarrow>
      r = Inl minus_EFAULT \<or> (\<exists>log. r = Inr log))"
  using assms
proof (induction tries arbitrary: numrec genctr cs d)
  case 0
  then show ?case by auto
next
  case (Suc tries)
  obtain d1 r1 where a: "nvme_get_disclog_assign_numrec env numrec d = (d1, r1)" by fastforce
  obtain cs1 where ra: "nvme_get_disclog_assign_numrec (recording env) numrec (cs, d) = ((cs1, d1), r1)"
    and len: "length cs1 \<le> Suc (length cs)"
    using recording_assign [of env numrec cs d] a by simp
  show ?case
  proof (cases r1)
    case (Inl ret)
    have "\<not> reliable env"
      by (rule assign_fails [OF a [unfolded Inl]])
    with Inl ra len Suc.prems show ?thesis by auto
  next
    case (Inr log)
    show ?thesis
    proof (cases "dl_numrec log \<noteq> 0 \<and> dl_genctr log = genctr")
      case True
      with Inr ra len Suc.prems show ?thesis by auto
    next
      case False
      with Inr ra Suc.prems have
        "discovery_loop (recording env) tries (dl_numrec log) (dl_genctr log) (cs1, d1) = ((cs', d'), r)"
        by simp
      from Suc.IH [OF this] len show ?thesis by auto
    qed
  qed
qed

text \<open>A controller that answers with the logs of a list, one after the other.\<close>

definition replay :: "('e disc_log list, 'e) nvme_env" where
  "replay = \<lparr>ne_open = Inr 3, ne_calloc = (\<lambda>_. True),
    ne_ioctl = (\<lambda>c ls. case ls of
      [] \<Rightarrow> ([], - 1, \<lparr>dl_genctr = 0, dl_numrec = 0, dl_entries = []\<rparr>)
    | l # ls \<Rightarrow> (ls, 0, l))\<rparr>"

lemma assign_replay: "nvme_get_disclog_assign_numrec replay n (l # ls) = (ls, Inr l)"
  by (simp add: nvme_get_disclog_assign_numrec_def nvme_get_disclog_def replay_def Let_def)

lemma open_replay: "ne_open replay = Inr 3"
  by (simp add: replay_def)

definition stable_at :: "'e disc_log list \<Rightarrow> nat \<Rightarrow> bool" where
  "stable_at ls i \<longleftrightarrow> dl_numrec (ls ! Suc i) \<noteq> 0 \<and> dl_genctr (ls ! Suc i) = dl_genctr (ls ! i)"

lemma first_idx_map: "first_idx P (map f xs) = first_idx (\<lambda>x. P (f x)) xs"
  by (induction xs) auto

lemma discovery_loop_replay:
  assumes "tries \<le> length ls"
  shows "snd (discovery_loop replay tries numrec (dl_genctr l) ls) =
    (case first_idx (stable_at (l # ls)) [0..<tries] of
       None \<Rightarrow> Inl minus_EFAULT | Some i \<Rightarrow> Inr (ls ! i))"
  using assms
proof (induction tries arbitrary: numrec l ls)
  case (Suc tries)
  from Suc.prems obtain l1 ls1 where ls: "ls = l1 # ls1" by (cases ls) auto
  have s: "stable_at (l # l1 # ls1) (Suc i) = stable_at (l1 # ls1) i" for i
    by (simp add: stable_at_def)
  have s0: "stable_at (l # l1 # ls1) 0 \<longleftrightarrow> dl_numrec l1 \<noteq> 0 \<and> dl_genctr l1 = dl_genctr l"
    by (simp add: stable_at_def)
  have idx: "first_idx (stable_at (l # ls)) [0..<Suc tries] =
    (if stable_at (l # ls) 0 then Some 0
     else map_option Suc (first_idx (stable_at (l1 # ls1)) [0..<tries]))"
    by (simp add: upt_conv_Cons map_Suc_upt [symmetric] first_idx_map s ls del: upt_Suc)
  show ?case
    using Suc.IH [of ls1 "dl_numrec l1" l1] Suc.prems unfolding idx
    by (auto simp: ls assign_replay s0 simp del: first_idx_None split: option.splits)
qed simp


definition sample_log :: "u64 \<Rightarrow> u64 \<Rightarrow> nat disc_log" where
  "sample_log genctr numrec = \<lparr>dl_genctr = genctr, dl_numrec = numrec, dl_entries = []\<rparr>"

definition sample_logs :: "nat disc_log list" where
  "sample_logs = [sample_log 2 0, sample_log 3 5, sample_log 3 6, sample_log 3 6, sample_log 3 6,
    sample_log 3 6, sample_log 3 6, sample_log 3 6, sample_log 3 6, sample_log 3 6]"


text \<open>
  C36: whatever the controller does, a discovery sends it at most eleven commands and returns, a log
  it returns has records, and if every command succeeds and there is memory, the only failure is
  \<open>EFAULT\<close>.
\<close>

theorem nvme_discovery_log_bounded:
  assumes "nvme_discovery_log (recording env) ([], d) = ((cs, d'), r)"
  shows "length cs \<le> 11 \<and> (case r of Inl ret \<Rightarrow> True | Inr log \<Rightarrow> dl_numrec log \<noteq> 0) \<and>
    (reliable env \<and> (\<exists>fd. ne_open env = Inr fd) \<longrightarrow>
      r = Inl minus_EFAULT \<or> (\<exists>log. r = Inr log))"
proof (cases "ne_open env")
  case (Inl e)
  with assms show ?thesis by (auto simp: nvme_discovery_log_def recording_def)
next
  case (Inr fd)
  then have fd: "ne_open (recording env) = Inr fd" by (simp add: recording_def)
  obtain d1 r1 where a: "nvme_get_disclog_assign_numrec env 0 d = (d1, r1)" by fastforce
  obtain cs1 where ra: "nvme_get_disclog_assign_numrec (recording env) 0 ([], d) = ((cs1, d1), r1)"
    and len: "length cs1 \<le> 1"
    using recording_assign [of env 0 "[]" d] a by simp
  show ?thesis
  proof (cases r1)
    case (Inl ret)
    with assms fd ra have r: "r = Inl ret" "cs = cs1" by (simp_all add: nvme_discovery_log_def)
    have "\<not> reliable env"
      by (rule assign_fails [OF a [unfolded Inl]])
    with r len show ?thesis by auto
  next
    case (Inr log)
    with assms fd ra have "discovery_loop (recording env) DISCOVERY_MAX_RETRY (dl_numrec log)
        (dl_genctr log) (cs1, d1) = ((cs, d'), r)"
      by (simp add: nvme_discovery_log_def)
    from discovery_loop_spec [OF this] len show ?thesis by auto
  qed
qed

lemma open_recording: "ne_open (recording env) = ne_open env"
  by (simp add: recording_def)

theorem nvme_discovery_log_bounded_witness:
  "\<exists>cs d'. nvme_discovery_log (recording replay) ([], [sample_log 7 1, sample_log 7 1]) =
      ((cs, d'), Inr (sample_log 7 1)) \<and> length cs \<le> 11"
proof -
  obtain cs d' where r: "nvme_discovery_log (recording replay) ([], [sample_log 7 1, sample_log 7 1]) =
      ((cs, d'), Inr (sample_log 7 1))"
    by (simp add: nvme_discovery_log_def open_recording open_replay recording_assign assign_replay
        sample_log_def discovery_loop.simps(2) [of _ 9, simplified])
  from nvme_discovery_log_bounded [OF r] r show ?thesis by blast
qed

end
