(* ===== verification/Snsd_Text.thy ===== *)
theory Snsd_Text
  imports Snsd_Prelude
begin

text \<open>
  The part of the C library's text functions that the configuration and the connection handlers
  use.  A C string is the list of its characters without the terminator.  Whatever the code reads
  through a moving pointer or offset is the rest of the text from there on.
\<close>

abbreviation NUL :: char where "NUL \<equiv> CHR 0x00"
abbreviation TAB :: char where "TAB \<equiv> CHR 0x09"
abbreviation LF :: char where "LF \<equiv> CHR 0x0A"
abbreviation CR :: char where "CR \<equiv> CHR 0x0D"

definition isspace :: "char \<Rightarrow> bool" where
  "isspace c \<longleftrightarrow> c = CHR '' '' \<or> c = TAB \<or> c = LF \<or> c = CHR 0x0B \<or> c = CHR 0x0C \<or> c = CR"

text \<open>The text in a buffer ends at its first NUL.\<close>

definition cstring :: "string \<Rightarrow> string" where
  "cstring buf = takeWhile (\<lambda>c. c \<noteq> NUL) buf"

lemma cstring_plain: "NUL \<notin> set s \<Longrightarrow> cstring s = s"
  unfolding cstring_def by (auto simp: takeWhile_eq_all_conv)

lemma cstring_terminated: "NUL \<notin> set x \<Longrightarrow> cstring (x @ NUL # t) = x"
  by (induction x) (auto simp: cstring_def)

definition is_prefix :: "string \<Rightarrow> string \<Rightarrow> bool" where
  "is_prefix p s \<longleftrightarrow> take (length p) s = p"

fun strstr :: "string \<Rightarrow> string \<Rightarrow> string option" where
  "strstr [] p = (if p = [] then Some [] else None)"
| "strstr (c # s) p = (if is_prefix p (c # s) then Some (c # s) else strstr s p)"

text \<open>\<open>while ((p = strsep(&s, seps)) != NULL)\<close> visits these pieces, empty ones included.\<close>

fun pieces :: "(char \<Rightarrow> bool) \<Rightarrow> string \<Rightarrow> string list" where
  "pieces sep [] = [[]]"
| "pieces sep (c # s) =
    (if sep c then [] # pieces sep s
     else case pieces sep s of [] \<Rightarrow> [[c]] | t # ts \<Rightarrow> (c # t) # ts)"

text \<open>\<open>snprintf\<close> into a buffer of \<open>max_len\<close> bytes leaves this text.\<close>

definition snprintf_text :: "nat \<Rightarrow> string \<Rightarrow> string" where
  "snprintf_text max_len s = take (max_len - 1) s"

section \<open>Numbers\<close>

definition digit_char :: "nat \<Rightarrow> char" where
  "digit_char d = char_of (48 + d)"

fun dec_nat :: "nat \<Rightarrow> string" where
  "dec_nat n = (if n < 10 then [digit_char n] else dec_nat (n div 10) @ [digit_char (n mod 10)])"

declare dec_nat.simps [simp del]

definition dec_int :: "int \<Rightarrow> string" where
  "dec_int i = (if i < 0 then CHR ''-'' # dec_nat (nat (- i)) else dec_nat (nat i))"

text \<open>The value of a digit, up to base 16.\<close>

definition digit_val :: "char \<Rightarrow> nat option" where
  "digit_val c =
    (let n = of_char c :: nat in
     if 48 \<le> n \<and> n \<le> 57 then Some (n - 48)
     else if 97 \<le> n \<and> n \<le> 102 then Some (n - 87)
     else if 65 \<le> n \<and> n \<le> 70 then Some (n - 55)
     else None)"

definition is_digit :: "nat \<Rightarrow> char \<Rightarrow> bool" where
  "is_digit base c \<longleftrightarrow> (case digit_val c of None \<Rightarrow> False | Some d \<Rightarrow> d < base)"

definition digits_val :: "nat \<Rightarrow> string \<Rightarrow> nat" where
  "digits_val base s = foldl (\<lambda>n c. base * n + the (digit_val c)) 0 s"

definition sign_of :: "string \<Rightarrow> int \<times> string" where
  "sign_of s = (case s of
      c # r \<Rightarrow> if c = CHR ''-'' then (- 1, r) else if c = CHR ''+'' then (1, r) else (1, s)
    | [] \<Rightarrow> (1, s))"

definition long_clamp :: "int \<Rightarrow> int" where
  "long_clamp i = max (- (2 ^ 63)) (min (2 ^ 63 - 1) i)"

text \<open>
  \<open>strtol(s, &endp, 0)\<close>: the number and the rest of the text, or \<open>None\<close> if there is no
  number (\<open>endp == s\<close>).  The base is read from the text.
\<close>

definition strtol_auto :: "string \<Rightarrow> (int \<times> string) option" where
  "strtol_auto s =
    (let (sg, r) = sign_of (dropWhile isspace s);
         hex = is_prefix ''0x'' (take 2 r) \<or> is_prefix ''0X'' (take 2 r);
         (base, r) =
           (if hex \<and> length r > 2 \<and> is_digit 16 (r ! 2) then (16, drop 2 r)
            else if is_prefix ''0'' r then (8, r) else (10, r));
         ds = takeWhile (is_digit base) r
     in if ds = [] then None
        else Some (long_clamp (sg * int (digits_val base ds)), drop (length ds) r))"

text \<open>
  \<open>(int)atoi(s)\<close>.  The standard leaves the result of a number outside the range of an
  \<open>int\<close> open; the definition follows the usual library, which converts with \<open>strtol\<close>
  and cuts to 32 bits.
\<close>

definition to_int32 :: "int \<Rightarrow> int" where
  "to_int32 i = signed_take_bit 31 i"

definition atoi :: "string \<Rightarrow> int" where
  "atoi s =
    (let (sg, r) = sign_of (dropWhile isspace s)
     in to_int32 (long_clamp (sg * int (digits_val 10 (takeWhile (is_digit 10) r)))))"

section \<open>Lemmas\<close>

lemma is_prefix_Nil [simp]: "is_prefix [] s"
  by (simp add: is_prefix_def)

lemma is_prefix_append [simp]: "is_prefix p (p @ s)"
  by (simp add: is_prefix_def)

lemma is_prefix_Cons [simp]: "is_prefix (a # p) (b # s) \<longleftrightarrow> a = b \<and> is_prefix p s"
  by (auto simp: is_prefix_def)

lemma is_prefix_Cons_Nil [simp]: "\<not> is_prefix (a # p) []"
  by (simp add: is_prefix_def)

lemma isspace_simps [simp]:
  "isspace (CHR '' '')" "isspace TAB" "isspace LF" "isspace CR"
  "\<not> isspace NUL" "\<not> isspace (CHR ''='')" "\<not> isspace (CHR '';'')" "\<not> isspace (CHR ''|'')"
  "\<not> isspace (CHR ''['')"
  by (simp_all add: isspace_def)

lemma pieces_not_Nil [simp]: "pieces sep s \<noteq> []"
  by (induction s) (auto split: list.split)

lemma pieces_no_sep: "\<forall>c \<in> set s. \<not> sep c \<Longrightarrow> pieces sep s = [s]"
  by (induction s) auto

lemma pieces_append:
  "\<forall>c \<in> set s. \<not> sep c \<Longrightarrow> sep d \<Longrightarrow> pieces sep (s @ d # t) = s # pieces sep t"
  by (induction s) auto

lemma digit_val_digit_char [simp]: "d < 10 \<Longrightarrow> digit_val (digit_char d) = Some d"
  by (simp add: digit_val_def digit_char_def)

lemma is_digit_digit_char [simp]: "d < 10 \<Longrightarrow> is_digit 10 (digit_char d)"
  by (simp add: is_digit_def)

lemma digits_val_snoc: "digits_val b (s @ [c]) = b * digits_val b s + the (digit_val c)"
  by (simp add: digits_val_def)

lemma dec_nat_digits: "list_all (is_digit 10) (dec_nat n) \<and> digits_val 10 (dec_nat n) = n \<and> dec_nat n \<noteq> []"
proof (induction n rule: dec_nat.induct)
  case (1 n)
  show ?case
  proof (cases "n < 10")
    case True
    then show ?thesis by (simp add: dec_nat.simps [of n] digits_val_def)
  next
    case False
    with 1 show ?thesis
      by (simp add: dec_nat.simps [of n] digits_val_snoc)
  qed
qed

lemma digits_val_dec [simp]: "digits_val 10 (dec_nat n) = n"
  using dec_nat_digits by blast

lemma dec_nat_not_Nil [simp]: "dec_nat n \<noteq> []"
  using dec_nat_digits by blast

lemma is_digit_dec: "c \<in> set (dec_nat n) \<Longrightarrow> is_digit 10 c"
  using dec_nat_digits [of n] by (simp add: list_all_iff)

lemma is_digit_not_special:
  "is_digit 10 c \<Longrightarrow> c \<noteq> NUL \<and> \<not> isspace c \<and> c \<noteq> CHR ''-'' \<and> c \<noteq> CHR ''+'' \<and> c \<noteq> CHR '';'' \<and>
    c \<noteq> CHR ''='' \<and> c \<noteq> CHR ''|'' \<and> c \<noteq> CHR '',''"
  by (auto simp: is_digit_def digit_val_def isspace_def)

lemma takeWhile_dec [simp]: "takeWhile (is_digit 10) (dec_nat n) = dec_nat n"
  by (simp add: takeWhile_eq_all_conv is_digit_dec)

lemma dec_nat_hd: "dec_nat n = c # r \<Longrightarrow> is_digit 10 c"
  using is_digit_dec [of c n] by simp

lemma dropWhile_dec [simp]: "dropWhile isspace (dec_nat n) = dec_nat n"
proof (cases "dec_nat n")
  case (Cons c r)
  with dec_nat_hd have "\<not> isspace c" using is_digit_not_special by blast
  with Cons show ?thesis by simp
qed simp

lemma sign_of_dec [simp]: "sign_of (dec_nat n) = (1, dec_nat n)"
proof (cases "dec_nat n")
  case (Cons c r)
  with dec_nat_hd have "c \<noteq> CHR ''-''" "c \<noteq> CHR ''+''" using is_digit_not_special by blast+
  with Cons show ?thesis by (simp add: sign_of_def)
qed simp

lemma dec_nat_length: "n < 10 ^ k \<Longrightarrow> 0 < k \<Longrightarrow> length (dec_nat n) \<le> k"
proof (induction k arbitrary: n)
  case 0
  then show ?case by simp
next
  case (Suc k)
  show ?case
  proof (cases "n < 10")
    case True
    then show ?thesis by (simp add: dec_nat.simps [of n])
  next
    case False
    then have "0 < k" using Suc.prems by (cases k) auto
    moreover have "n div 10 < 10 ^ k" using Suc.prems by (simp add: less_mult_imp_div_less)
    ultimately show ?thesis using Suc.IH [of "n div 10"] False by (simp add: dec_nat.simps [of n])
  qed
qed

text \<open>What \<open>%d\<close> prints, \<open>atoi\<close> reads.\<close>

lemma atoi_dec:
  assumes "- (2 ^ 31) \<le> i" and "i < 2 ^ 31"
  shows "atoi (dec_int i) = i"
proof -
  have r: "to_int32 (long_clamp i) = i"
    using assms by (simp add: to_int32_def long_clamp_def signed_take_bit_int_eq_self)
  show ?thesis
  proof (cases "i < 0")
    case True
    then have "sign_of (dropWhile isspace (dec_int i)) = (- 1, dec_nat (nat (- i)))"
      by (simp add: dec_int_def sign_of_def isspace_def)
    with True r show ?thesis by (simp add: atoi_def)
  next
    case False
    with r show ?thesis by (simp add: atoi_def dec_int_def)
  qed
qed

text \<open>A 32-bit number is at most eleven characters long.\<close>

lemma dec_int_length:
  assumes "- (2 ^ 31) \<le> i" and "i < 2 ^ 31"
  shows "length (dec_int i) \<le> 11"
proof -
  have "length (dec_nat (nat (- i))) \<le> 10" "length (dec_nat (nat i)) \<le> 10"
    using assms by (auto intro!: dec_nat_length)
  then show ?thesis by (simp add: dec_int_def)
qed

end
