(* ===== verification/Snsd_Fabrics.thy ===== *)
theory Snsd_Fabrics
  imports Snsd_Text Snsd_Types
begin

text \<open>
  The part of \<open>src/snsd_conn_nvme.c\<close> that writes to \<open>/dev/nvme-fabrics\<close>: creating a
  controller, and the tests of the configuration's parameters, which create a controller to see
  whether the kernel knows a parameter.

  The kernel is a parameter with a state of type \<open>'k\<close>: opening the device, writing a line
  (the number of bytes taken and \<open>errno\<close>), and reading the answer.  Return values are the
  integers of the code, errors negated.
\<close>

definition SNSD_BUF_SIZE :: nat where [simp]: "SNSD_BUF_SIZE = 1024"
definition EINVAL_code :: int where [simp]: "EINVAL_code = 22"
definition ERANGE_code :: int where [simp]: "ERANGE_code = 34"
definition SNSD_NOT_SUPPORT_PARA :: int where [simp]: "SNSD_NOT_SUPPORT_PARA = - 22"
definition SNSD_NVME_KEY_CTRL_INSTANCE :: string where
  "SNSD_NVME_KEY_CTRL_INSTANCE = ''instance=''"
definition SNSD_NVME_FORMAT_CTRL_ADDDR_TEST :: string where
  "SNSD_NVME_FORMAT_CTRL_ADDDR_TEST = ''traddr=0.0.0.0,nqn=nqn.2020-02.123456,transport=rdma''"

record 'k fabrics =
  fb_open :: "'k \<Rightarrow> int option"
  fb_write :: "string \<Rightarrow> 'k \<Rightarrow> 'k \<times> int \<times> int"
  fb_read :: "nat \<Rightarrow> 'k \<Rightarrow> 'k \<times> (int + string)"

text \<open>The separators of \<open>strsep(&s, ",\n")\<close>.\<close>

definition comma_or_lf :: "char \<Rightarrow> bool" where
  "comma_or_lf c \<longleftrightarrow> c = CHR '','' \<or> c = LF"

fun instance_loop :: "string list \<Rightarrow> int" where
  "instance_loop [] = - EINVAL_code"
| "instance_loop (p # ps) =
    (if p = [] then instance_loop ps
     else if strstr p SNSD_NVME_KEY_CTRL_INSTANCE \<noteq> None then
       (case strtol_auto (drop (length SNSD_NVME_KEY_CTRL_INSTANCE) p) of
          None \<Rightarrow> - EINVAL_code
        | Some (inst, _) \<Rightarrow>
            if inst < - (2 ^ 31) \<or> inst > 2 ^ 31 - 1 then - ERANGE_code else inst)
     else instance_loop ps)"

definition snsd_nvme_ctrl_parse_instance :: "string \<Rightarrow> int" where
  "snsd_nvme_ctrl_parse_instance buf = instance_loop (pieces comma_or_lf buf)"

definition snsd_nvme_ctrl_create :: "('k, 'z) fabrics_scheme \<Rightarrow> string \<Rightarrow> 'k \<Rightarrow> 'k \<times> int" where
  "snsd_nvme_ctrl_create env arg_buf k =
    (case fb_open env k of
       Some err \<Rightarrow> (k, - err)
     | None \<Rightarrow>
         (case fb_write env arg_buf k of (k, n, err) \<Rightarrow>
            if int (length arg_buf) \<noteq> n then (k, - err)
            else (case fb_read env (SNSD_BUF_SIZE - 1) k of
                (k, Inl err) \<Rightarrow> (k, - err)
              | (k, Inr buf) \<Rightarrow> (k, snsd_nvme_ctrl_parse_instance (cstring buf)))))"

definition snsd_nvme_para_validity_test ::
  "('k, 'z) fabrics_scheme \<Rightarrow> string \<Rightarrow> string \<Rightarrow> 'k \<Rightarrow> 'k \<times> bool" where
  "snsd_nvme_para_validity_test env para_name para_val k =
    (let arg_buf = snprintf_text SNSD_BUF_SIZE
           (SNSD_NVME_FORMAT_CTRL_ADDDR_TEST @ '','' @ para_name @ ''='' @ para_val);
         (k, inst) = snsd_nvme_ctrl_create env arg_buf k
     in (k, inst \<noteq> SNSD_NOT_SUPPORT_PARA))"

definition snsd_nvme_noarg_para_validity_test ::
  "('k, 'z) fabrics_scheme \<Rightarrow> string \<Rightarrow> string \<Rightarrow> 'k \<Rightarrow> 'k \<times> bool" where
  "snsd_nvme_noarg_para_validity_test env para_name para_val k =
    (let arg_buf = snprintf_text SNSD_BUF_SIZE
           (SNSD_NVME_FORMAT_CTRL_ADDDR_TEST @ '','' @ para_name);
         (k, inst) = snsd_nvme_ctrl_create env arg_buf k
     in (k, inst \<noteq> SNSD_NOT_SUPPORT_PARA))"

section \<open>Properties\<close>

text \<open>The kernel answers a successful creation with this line.\<close>

definition instance_answer :: "nat \<Rightarrow> nat \<Rightarrow> string" where
  "instance_answer i c = ''instance='' @ dec_nat i @ '',cntlid='' @ dec_nat c @ [LF]"

lemma dec_nat_no_zero: "0 < n \<Longrightarrow> hd (dec_nat n) \<noteq> CHR ''0''"
proof (induction n rule: dec_nat.induct)
  case (1 n)
  show ?case
  proof (cases "n < 10")
    case True
    moreover have "digit_char d \<noteq> CHR ''0''" if "0 < d" "d < 10" for d
    proof
      assume "digit_char d = CHR ''0''"
      then have "digit_val (digit_char d) = digit_val (CHR ''0'')" by simp
      moreover have "digit_val (CHR ''0'') = Some 0" by (simp add: digit_val_def)
      ultimately show False using that by simp
    qed
    ultimately show ?thesis using 1(2) by (simp add: dec_nat.simps [of n])
  next
    case False
    with 1 show ?thesis by (simp add: dec_nat.simps [of n])
  qed
qed

lemma dec_nat_zero: "dec_nat 0 = ''0''"
  by (simp add: dec_nat.simps [of 0] digit_char_def) code_simp

lemma takeWhile_dec_app: "\<not> is_digit 10 c \<Longrightarrow> takeWhile (is_digit 10) (dec_nat n @ c # s) = dec_nat n"
  by (subst takeWhile_append2) (simp_all add: is_digit_dec)

lemma strtol_auto_dec:
  assumes "n < 2 ^ 63"
  shows "strtol_auto (dec_nat n) = Some (int n, [])"
proof (cases "n = 0")
  case True
  then show ?thesis
    by (simp add: strtol_auto_def dec_nat_zero sign_of_def is_digit_def digit_val_def digits_val_def
        long_clamp_def isspace_def)
next
  case False
  obtain c r where cr: "dec_nat n = c # r" by (cases "dec_nat n") simp_all
  have "c \<noteq> CHR ''0''" using dec_nat_no_zero [of n] False cr by simp
  with cr have "\<not> is_prefix ''0'' (dec_nat n)" "\<not> is_prefix ''0x'' (take 2 (dec_nat n))"
    "\<not> is_prefix ''0X'' (take 2 (dec_nat n))" by simp_all
  with assms show ?thesis by (simp add: strtol_auto_def long_clamp_def)
qed

lemma no_sep_dec: "\<forall>c \<in> set (dec_nat n). \<not> comma_or_lf c"
proof
  fix c assume "c \<in> set (dec_nat n)"
  then have "is_digit 10 c" by (rule is_digit_dec)
  from is_digit_not_special [OF this] have "c \<noteq> CHR '',''" "\<not> isspace c" by blast+
  moreover from this(2) have "c \<noteq> LF" using isspace_simps(3) by blast
  ultimately show "\<not> comma_or_lf c" by (simp add: comma_or_lf_def)
qed

lemma strstr_prefix: "strstr (p @ s) p = Some (p @ s)"
proof (cases "p @ s")
  case Nil
  then show ?thesis by simp
next
  case (Cons c r)
  moreover from this have "is_prefix p (c # r)" using is_prefix_append [of p s] by simp
  ultimately show ?thesis by simp
qed

text \<open>
  The number of a controller is read back from the answer of the kernel.
\<close>

theorem parse_instance_roundtrip:
  assumes "i < 2 ^ 31"
  shows "snsd_nvme_ctrl_parse_instance (instance_answer i c) = int i"
proof -
  let ?p = "SNSD_NVME_KEY_CTRL_INSTANCE @ dec_nat i"
  have "pieces comma_or_lf (?p @ CHR '','' # ''cntlid='' @ dec_nat c @ [LF]) =
      ?p # pieces comma_or_lf (''cntlid='' @ dec_nat c @ [LF])"
    using no_sep_dec by (intro pieces_append) (auto simp: SNSD_NVME_KEY_CTRL_INSTANCE_def comma_or_lf_def)
  then have "snsd_nvme_ctrl_parse_instance (instance_answer i c) =
      instance_loop (?p # pieces comma_or_lf (''cntlid='' @ dec_nat c @ [LF]))"
    by (simp add: snsd_nvme_ctrl_parse_instance_def instance_answer_def SNSD_NVME_KEY_CTRL_INSTANCE_def)
  also have "\<dots> = int i"
    using strstr_prefix [of SNSD_NVME_KEY_CTRL_INSTANCE "dec_nat i"] assms
    by (simp add: strtol_auto_dec)
  finally show ?thesis .
qed

theorem parse_instance_roundtrip_witness:
  "snsd_nvme_ctrl_parse_instance (instance_answer 12 3) = 12"
  using parse_instance_roundtrip [of 12 3] by simp

end
