(* ===== verification/Snsd_Cfg.thy ===== *)
theory Snsd_Cfg
  imports Snsd_Fabrics
begin

text \<open>
  \<open>src/snsd_cfg.c\<close>: reading \<open>/etc/nvme/snsd.conf\<close>.

  \<^item> A file is its text and whether reading ends with an error.  A section is the text
    between its header and the next bracket.
  \<^item> A scanner that the code gives a buffer and an offset takes the rest of the buffer from
    the offset on and returns the rest it leaves; the end of the list is the terminator the code
    finds behind the buffer.
  \<^item> The option tables hold pointers into the global \<open>cfg\<close> and \<open>base_cfg\<close>; here
    they hold the field's selector and update function.  The pointer to the check function is a
    constructor of \<open>cfg_check\<close>.
  \<^item> \<open>None\<close> is a write outside a buffer.
\<close>

section \<open>Data\<close>

definition SNSD_SECTION_BASE_NAME :: string where "SNSD_SECTION_BASE_NAME = ''BASE''"
definition SNSD_SECTION_SW_NAME :: string where "SNSD_SECTION_SW_NAME = ''SW''"
definition SNSD_SECTION_DC_NAME :: string where "SNSD_SECTION_DC_NAME = ''DC''"
definition SNSD_SW_ANY :: string where "SNSD_SW_ANY = ''any''"
definition SNSD_MAX_SECTION_NAME_LEN :: nat where [simp]: "SNSD_MAX_SECTION_NAME_LEN = 32"
definition SNSD_CFG_NAME_MAX_LEN :: nat where [simp]: "SNSD_CFG_NAME_MAX_LEN = 127"
definition SNSD_CFG_VALUE_MAX_LEN :: nat where [simp]: "SNSD_CFG_VALUE_MAX_LEN = 1023"
definition SNSD_CFG_FILE_MAX_SIZE :: nat where [simp]: "SNSD_CFG_FILE_MAX_SIZE = 8192"
definition SNSD_CFG_UUID_LEN :: nat where [simp]: "SNSD_CFG_UUID_LEN = 37"
definition SNSD_NQN_MAX_LEN :: nat where [simp]: "SNSD_NQN_MAX_LEN = 256"
definition SNSD_IP_LEN :: nat where [simp]: "SNSD_IP_LEN = 64"
definition SNSD_COMMON_LEN :: nat where [simp]: "SNSD_COMMON_LEN = 19"
definition sizeof_cfg_infos :: nat where [simp]: "sizeof_cfg_infos = 952"

datatype snsd_any = SNSD_ANY_NO | SNSD_ANY_YES | SNSD_ANY_BUTT
datatype snsd_necessary = NECESSARY_MUST | NECESSARY_OPTIONAL | NECESSARY_BUTT

text \<open>The fields \<open>snsd_cfg_infos\<close> and \<open>snsd_base_cfg\<close> have in common.\<close>

record cfg_common =
  cc_trsvcid :: string
  cc_hostnqn :: string
  cc_hostid :: string
  cc_nr_io_queues :: int
  cc_nr_write_queues :: int
  cc_nr_poll_queues :: int
  cc_queue_size :: int
  cc_keep_alive_tmo :: int
  cc_reconnect_delay :: int
  cc_ctrl_loss_tmo :: int
  cc_duplicate_connect :: int
  cc_disable_sqflow :: int
  cc_hdr_digest :: int
  cc_data_digest :: int
  cc_protocol :: int
  cc_protol_role :: int

record cfg_infos = cfg_common +
  ci_mode :: snsd_mode
  ci_nqn :: string
  ci_traddr :: string
  ci_host_traddr :: string

record base_cfg = cfg_common +
  bc_restrain_time :: int

datatype cfg_check =
    no_check
  | snsd_unsupport
  | snsd_check_ip_validity
  | snsd_check_protocol_validity
  | snsd_check_base_hostnqn_validity
  | snsd_check_hostnqn_validity
  | para_validity_test
  | noarg_para_validity_test

datatype 'a cfg_slot =
    SNSD_CFG_STRING nat "'a \<Rightarrow> string" "(string \<Rightarrow> string) \<Rightarrow> 'a \<Rightarrow> 'a" string
  | SNSD_CFG_INT "'a \<Rightarrow> int" "(int \<Rightarrow> int) \<Rightarrow> 'a \<Rightarrow> 'a" int

record 'a commandline =
  cl_option :: string
  cl_value :: "'a cfg_slot"
  cl_sw_necessary :: snsd_necessary
  cl_dc_necessary :: snsd_necessary
  cl_check_validity :: cfg_check
  cl_drv_option :: string

definition opt ::
  "string \<Rightarrow> 'a cfg_slot \<Rightarrow> snsd_necessary \<Rightarrow> snsd_necessary \<Rightarrow> cfg_check \<Rightarrow> string \<Rightarrow> 'a commandline" where
  "opt option v sw dc chk drv = \<lparr>cl_option = option, cl_value = v, cl_sw_necessary = sw,
    cl_dc_necessary = dc, cl_check_validity = chk, cl_drv_option = drv\<rparr>"

text \<open>A row whose option is optional in both networks, for a string and for a number.\<close>

definition str_opt where
  "str_opt name len get upd chk drv =
    opt name (SNSD_CFG_STRING len get upd ''invalid'') NECESSARY_OPTIONAL NECESSARY_OPTIONAL chk drv"

definition int_opt where
  "int_opt name get upd def chk drv =
    opt name (SNSD_CFG_INT get upd def) NECESSARY_OPTIONAL NECESSARY_OPTIONAL chk drv"

definition command_line_options :: "cfg_infos commandline list" where
  "command_line_options = [
    str_opt ''--nqn'' SNSD_NQN_MAX_LEN ci_nqn ci_nqn_update snsd_unsupport ''nqn'',
    opt ''--traddr'' (SNSD_CFG_STRING (SNSD_IP_LEN + 1) ci_traddr ci_traddr_update ''invalid'')
      NECESSARY_OPTIONAL NECESSARY_MUST snsd_check_ip_validity ''traddr'',
    str_opt ''--trsvcid'' (SNSD_COMMON_LEN + 1) cc_trsvcid cc_trsvcid_update para_validity_test ''trsvcid'',
    opt ''--host-traddr'' (SNSD_CFG_STRING (SNSD_IP_LEN + 1) ci_host_traddr ci_host_traddr_update ''invalid'')
      NECESSARY_MUST NECESSARY_MUST snsd_check_ip_validity ''host_traddr'',
    str_opt ''--hostnqn'' SNSD_NQN_MAX_LEN cc_hostnqn cc_hostnqn_update snsd_check_hostnqn_validity ''hostnqn'',
    str_opt ''--hostid'' SNSD_CFG_UUID_LEN cc_hostid cc_hostid_update para_validity_test ''hostid'',
    int_opt ''--nr-io-queues'' cc_nr_io_queues cc_nr_io_queues_update (- 1) para_validity_test ''nr_io_queues'',
    int_opt ''--nr-write-queues'' cc_nr_write_queues cc_nr_write_queues_update (- 1) para_validity_test ''nr_write_queues'',
    int_opt ''--nr-poll-queues'' cc_nr_poll_queues cc_nr_poll_queues_update (- 1) para_validity_test ''nr_poll_queues'',
    int_opt ''--queue-size'' cc_queue_size cc_queue_size_update (- 1) para_validity_test ''queue_size'',
    int_opt ''--keep-alive-tmo'' cc_keep_alive_tmo cc_keep_alive_tmo_update (- 1) para_validity_test ''keep_alive_tmo'',
    int_opt ''--reconnect-delay'' cc_reconnect_delay cc_reconnect_delay_update (- 1) para_validity_test ''reconnect_delay'',
    int_opt ''--ctrl-loss-tmo'' cc_ctrl_loss_tmo cc_ctrl_loss_tmo_update (- 1) para_validity_test ''ctrl_loss_tmo'',
    int_opt ''--duplicate_connect'' cc_duplicate_connect cc_duplicate_connect_update (- 1) noarg_para_validity_test ''duplicate_connect'',
    int_opt ''--disable_sqflow'' cc_disable_sqflow cc_disable_sqflow_update (- 1) noarg_para_validity_test ''disable_sqflow'',
    int_opt ''--hdr_digest'' cc_hdr_digest cc_hdr_digest_update (- 1) snsd_unsupport ''hdr_digest'',
    int_opt ''--data_digest'' cc_data_digest cc_data_digest_update (- 1) snsd_unsupport ''data_digest'',
    opt ''--protocol'' (SNSD_CFG_INT cc_protocol cc_protocol_update 0)
      NECESSARY_MUST NECESSARY_MUST snsd_check_protocol_validity ''protocol'',
    int_opt ''--protol_role'' cc_protol_role cc_protol_role_update 0 snsd_unsupport ''protol_role'']"

definition base_command_line_options :: "base_cfg commandline list" where
  "base_command_line_options = [
    opt ''--restrain-time'' (SNSD_CFG_INT bc_restrain_time bc_restrain_time_update 0)
      NECESSARY_BUTT NECESSARY_BUTT no_check ''restrain_time'',
    str_opt ''--trsvcid'' (SNSD_COMMON_LEN + 1) cc_trsvcid cc_trsvcid_update para_validity_test ''trsvcid'',
    str_opt ''--hostnqn'' SNSD_NQN_MAX_LEN cc_hostnqn cc_hostnqn_update snsd_check_base_hostnqn_validity ''hostnqn'',
    str_opt ''--hostid'' SNSD_CFG_UUID_LEN cc_hostid cc_hostid_update para_validity_test ''hostid'',
    int_opt ''--nr-io-queues'' cc_nr_io_queues cc_nr_io_queues_update (- 1) para_validity_test ''nr_io_queues'',
    int_opt ''--nr-write-queues'' cc_nr_write_queues cc_nr_write_queues_update (- 1) para_validity_test ''nr_write_queues'',
    int_opt ''--nr-poll-queues'' cc_nr_poll_queues cc_nr_poll_queues_update (- 1) para_validity_test ''nr_poll_queues'',
    int_opt ''--queue-size'' cc_queue_size cc_queue_size_update (- 1) para_validity_test ''queue_size'',
    int_opt ''--keep-alive-tmo'' cc_keep_alive_tmo cc_keep_alive_tmo_update (- 1) para_validity_test ''keep_alive_tmo'',
    int_opt ''--reconnect-delay'' cc_reconnect_delay cc_reconnect_delay_update (- 1) para_validity_test ''reconnect_delay'',
    int_opt ''--ctrl-loss-tmo'' cc_ctrl_loss_tmo cc_ctrl_loss_tmo_update (- 1) para_validity_test ''ctrl_loss_tmo'',
    int_opt ''--duplicate_connect'' cc_duplicate_connect cc_duplicate_connect_update (- 1) noarg_para_validity_test ''duplicate_connect'',
    int_opt ''--disable_sqflow'' cc_disable_sqflow cc_disable_sqflow_update (- 1) noarg_para_validity_test ''disable_sqflow'',
    int_opt ''--hdr_digest'' cc_hdr_digest cc_hdr_digest_update (- 1) snsd_unsupport ''hdr_digest'',
    int_opt ''--data_digest'' cc_data_digest cc_data_digest_update (- 1) snsd_unsupport ''data_digest'',
    int_opt ''--protocol'' cc_protocol cc_protocol_update 0 snsd_unsupport ''protocol'',
    int_opt ''--protol_role'' cc_protol_role cc_protol_role_update 0 snsd_unsupport ''protol_role'']"

text \<open>The globals of the file, the file with the host's name, and the kernel.\<close>

record 'k cfg_sys =
  cs_anyflag :: snsd_any
  cs_any_protocol :: int
  cs_sw_list :: "cfg_infos list"
  cs_dc_list :: "cfg_infos list"
  cs_cfg :: cfg_infos
  cs_base :: base_cfg
  cs_hostnqn :: string
  cs_nqn_file :: "string option"
  cs_kernel :: 'k

text \<open>
  What the outside answers: the configuration file, whether an allocation of a size succeeds, the
  conversion of addresses, the text found where a list head is taken for an item, the kernel's
  source of random identifiers, and whether the file with the host's name can be written.
\<close>

record 'k cfg_env =
  ce_fabrics :: "'k fabrics"
  ce_file :: "(string \<times> bool) option"
  ce_malloc :: "nat \<Rightarrow> bool"
  ce_pton :: "nat \<Rightarrow> string \<Rightarrow> u8 list option"
  ce_head_text :: string
  ce_uuid :: "string option"
  ce_nqn_writable :: bool

definition zero_cfg :: cfg_infos where
  "zero_cfg = \<lparr>cc_trsvcid = [], cc_hostnqn = [], cc_hostid = [], cc_nr_io_queues = 0,
    cc_nr_write_queues = 0, cc_nr_poll_queues = 0, cc_queue_size = 0, cc_keep_alive_tmo = 0,
    cc_reconnect_delay = 0, cc_ctrl_loss_tmo = 0, cc_duplicate_connect = 0, cc_disable_sqflow = 0,
    cc_hdr_digest = 0, cc_data_digest = 0, cc_protocol = 0, cc_protol_role = 0,
    ci_mode = SNSD_MODE_SW, ci_nqn = [], ci_traddr = [], ci_host_traddr = []\<rparr>"

definition zero_base_cfg :: base_cfg where
  "zero_base_cfg = \<lparr>cc_trsvcid = [], cc_hostnqn = [], cc_hostid = [], cc_nr_io_queues = 0,
    cc_nr_write_queues = 0, cc_nr_poll_queues = 0, cc_queue_size = 0, cc_keep_alive_tmo = 0,
    cc_reconnect_delay = 0, cc_ctrl_loss_tmo = 0, cc_duplicate_connect = 0, cc_disable_sqflow = 0,
    cc_hdr_digest = 0, cc_data_digest = 0, cc_protocol = 0, cc_protol_role = 0,
    bc_restrain_time = 0\<rparr>"

section \<open>Defaults\<close>

definition set_default :: "'a commandline \<Rightarrow> 'a \<Rightarrow> 'a" where
  "set_default cl c = (case cl_value cl of
      SNSD_CFG_STRING len get upd def \<Rightarrow> upd (\<lambda>_. take (len - 1) def) c
    | SNSD_CFG_INT get upd def \<Rightarrow> upd (\<lambda>_. def) c)"

definition snsd_init_cfg_with_default :: "'a commandline list \<Rightarrow> 'a \<Rightarrow> 'a" where
  "snsd_init_cfg_with_default cmdline c = foldl (\<lambda>c cl. set_default cl c) c cmdline"

definition snsd_init_cfg :: cfg_infos where
  "snsd_init_cfg = snsd_init_cfg_with_default command_line_options zero_cfg"

definition snsd_init_base_cfg :: base_cfg where
  "snsd_init_base_cfg = snsd_init_cfg_with_default base_command_line_options zero_base_cfg"

section \<open>Checking and saving an item\<close>

definition prot_match :: "(string \<times> nat) list" where
  "prot_match = [(''roce'', SNSD_PROTOCOL_ROCE), (''tcp'', SNSD_PROTOCOL_TCP),
    (''iscsi'', SNSD_PROTOCOL_ISCSI)]"

definition check_ip :: "'k cfg_env \<Rightarrow> string \<Rightarrow> bool" where
  "check_ip env ip \<longleftrightarrow>
    (if ip = SNSD_SW_ANY then True
     else if ce_pton env AF_INET ip \<noteq> None then True
     else if ce_pton env AF_INET6 ip \<noteq> None then True
     else False)"

text \<open>
  The check functions: the state they leave, the value they leave in the item (the protocol's name
  becomes its number), and their answer.
\<close>

definition check_validity ::
  "'k cfg_env \<Rightarrow> cfg_check \<Rightarrow> string \<Rightarrow> string \<Rightarrow> 'k cfg_sys \<Rightarrow> 'k cfg_sys \<times> string \<times> bool" where
  "check_validity env chk para_name val s = (case chk of
      no_check \<Rightarrow> (s, val, True)
    | snsd_unsupport \<Rightarrow> (s, val, False)
    | snsd_check_ip_validity \<Rightarrow> (s, val, check_ip env val)
    | snsd_check_protocol_validity \<Rightarrow>
        (case map_of prot_match val of
           None \<Rightarrow> (s, val, False)
         | Some p \<Rightarrow> (s, dec_nat p, True))
    | snsd_check_base_hostnqn_validity \<Rightarrow>
        if length val \<ge> SNSD_NQN_MAX_LEN then (s, val, False)
        else (s\<lparr>cs_hostnqn := mem_put 0 val (cs_hostnqn s)\<rparr>, val, True)
    | snsd_check_hostnqn_validity \<Rightarrow> (s, val, length val < SNSD_NQN_MAX_LEN)
    | para_validity_test \<Rightarrow>
        let (k, ok) = snsd_nvme_para_validity_test (ce_fabrics env) para_name val (cs_kernel s)
        in (s\<lparr>cs_kernel := k\<rparr>, val, ok)
    | noarg_para_validity_test \<Rightarrow>
        let (k, ok) = snsd_nvme_noarg_para_validity_test (ce_fabrics env) para_name val (cs_kernel s)
        in (s\<lparr>cs_kernel := k\<rparr>, val, ok))"

text \<open>
  \<open>snsd_check_and_save\<close>; \<open>upd_cfg\<close> applies an update to the structure the table points
  into.
\<close>

definition snsd_check_and_save ::
  "'k cfg_env \<Rightarrow> (('a \<Rightarrow> 'a) \<Rightarrow> 'k cfg_sys \<Rightarrow> 'k cfg_sys) \<Rightarrow> 'a commandline \<Rightarrow> string \<Rightarrow>
    'k cfg_sys \<Rightarrow> 'k cfg_sys \<times> unit result" where
  "snsd_check_and_save env upd_cfg cl val s =
    (case check_validity env (cl_check_validity cl) (cl_drv_option cl) val s of
       (s, val, ok) \<Rightarrow>
         if \<not> ok then (s, Inl EPERM)
         else (case cl_value cl of
             SNSD_CFG_STRING len get upd def \<Rightarrow>
               if length val \<ge> len then (s, Inl ENOMEM)
               else (upd_cfg (upd (\<lambda>_. val)) s, Inr ())
           | SNSD_CFG_INT get upd def \<Rightarrow> (upd_cfg (upd (\<lambda>_. atoi val)) s, Inr ())))"

definition find_option :: "string \<Rightarrow> 'a commandline list \<Rightarrow> 'a commandline option" where
  "find_option name cmdline = find (\<lambda>cl. cl_option cl = name \<or> drop 2 (cl_option cl) = name) cmdline"

definition snsd_save_one_item ::
  "'k cfg_env \<Rightarrow> string \<Rightarrow> string \<Rightarrow> string \<Rightarrow> 'k cfg_sys \<Rightarrow> 'k cfg_sys \<times> unit result" where
  "snsd_save_one_item env section_name name val s =
    (if section_name = SNSD_SECTION_BASE_NAME then
       (case find_option name base_command_line_options of
          Some cl \<Rightarrow> snsd_check_and_save env (\<lambda>f s. s\<lparr>cs_base := f (cs_base s)\<rparr>) cl val s
        | None \<Rightarrow> (s, Inl ENXIO))
     else
       (case find_option name command_line_options of
          Some cl \<Rightarrow> snsd_check_and_save env (\<lambda>f s. s\<lparr>cs_cfg := f (cs_cfg s)\<rparr>) cl val s
        | None \<Rightarrow> (s, Inl ENXIO)))"

definition is_default :: "'a \<Rightarrow> 'a cfg_slot \<Rightarrow> bool" where
  "is_default c v = (case v of
      SNSD_CFG_STRING len get upd def \<Rightarrow> get c = def
    | SNSD_CFG_INT get upd def \<Rightarrow> get c = def)"

definition snsd_check_necessary :: "string \<Rightarrow> cfg_infos \<Rightarrow> bool" where
  "snsd_check_necessary section_name cfg \<longleftrightarrow>
    (if section_name = SNSD_SECTION_BASE_NAME then True
     else list_all (\<lambda>cl.
       let necessary = (if section_name = SNSD_SECTION_SW_NAME then cl_sw_necessary cl
                        else cl_dc_necessary cl)
       in necessary = NECESSARY_MUST \<longrightarrow> \<not> is_default cfg (cl_value cl)) command_line_options)"

definition snsd_add_one_cfg ::
  "'k cfg_env \<Rightarrow> string \<Rightarrow> 'k cfg_sys \<Rightarrow> 'k cfg_sys \<times> unit result" where
  "snsd_add_one_cfg env section_name s =
    (if \<not> snsd_check_necessary section_name (cs_cfg s) then (s, Inl ENOMEM)
     else if \<not> ce_malloc env sizeof_cfg_infos then (s, Inl ENOMEM)
     else
       let config = cs_cfg s in
       if section_name = SNSD_SECTION_SW_NAME then
         (let config = config\<lparr>ci_mode := SNSD_MODE_SW\<rparr>;
              s = (if is_prefix SNSD_SW_ANY (ci_host_traddr config)
                   then s\<lparr>cs_anyflag := SNSD_ANY_YES, cs_any_protocol := cc_protocol config\<rparr> else s)
          in (s\<lparr>cs_sw_list := cs_sw_list s @ [config]\<rparr>, Inr ()))
       else if section_name = SNSD_SECTION_DC_NAME then
         (let config = config\<lparr>ci_mode := SNSD_MODE_DC\<rparr>
          in (s\<lparr>cs_dc_list := cs_dc_list s @ [config]\<rparr>, Inr ()))
       else if section_name = SNSD_SECTION_BASE_NAME then (s, Inr ())
       else (s, Inl EPERM))"

section \<open>Scanning\<close>

datatype scan_result = SNSD_CFG_ITEM_END | SNSD_CFG_SECTION_END | SCAN_ERROR errno

definition is_eol :: "char \<Rightarrow> bool" where
  "is_eol c \<longleftrightarrow> c = LF \<or> c = CR"

function snsd_skip_invalid_comment :: "string \<Rightarrow> scan_result \<times> string" where
  "snsd_skip_invalid_comment rest =
    (let r = dropWhile isspace rest in
     if rest \<noteq> [] \<and> r = [] then (SNSD_CFG_SECTION_END, r)
     else if r \<noteq> [] \<and> hd r = CHR '';'' then
       (let r = dropWhile (\<lambda>c. \<not> is_eol c) r in
        if r = [] then (SNSD_CFG_SECTION_END, r) else snsd_skip_invalid_comment r)
     else (SNSD_CFG_ITEM_END, r))"
  by pat_completeness auto
termination
proof (relation "measure length", simp, goal_cases)
  case (1 rest x xa)
  then obtain t where "dropWhile isspace rest = CHR '';'' # t"
    by (cases "dropWhile isspace rest") auto
  moreover have "length (dropWhile isspace rest) \<le> length rest" by (rule length_dropWhile_le)
  moreover have "length (dropWhile (\<lambda>c. \<not> is_eol c) t) \<le> length t" by (rule length_dropWhile_le)
  moreover have "\<not> is_eol (CHR '';'')" by (simp add: is_eol_def)
  ultimately show ?case using 1 by simp
qed

declare snsd_skip_invalid_comment.simps [simp del]

definition snsd_get_value_word :: "string \<Rightarrow> nat \<Rightarrow> scan_result \<times> string \<times> string" where
  "snsd_get_value_word rest temp_size =
    (let r = dropWhile isspace rest in
     if rest \<noteq> [] \<and> r = [] then (SNSD_CFG_SECTION_END, [], r)
     else
       let w = takeWhile (\<lambda>c. c \<noteq> NUL \<and> c \<noteq> CHR '';'' \<and> c \<noteq> CHR ''='') r in
       if length w \<ge> temp_size then (SCAN_ERROR ENOMEM, take (temp_size - 1) w, r)
       else (SNSD_CFG_ITEM_END, w, drop (length w) r))"

definition snsd_skip_line :: "string \<Rightarrow> scan_result \<times> string" where
  "snsd_skip_line rest =
    (let r = dropWhile (\<lambda>c. \<not> is_eol c) rest in
     if r = [] then (SNSD_CFG_SECTION_END, r)
     else let r = dropWhile is_eol r in
       (if r = [] then SNSD_CFG_SECTION_END else SNSD_CFG_ITEM_END, r))"

section \<open>Loading a section\<close>

text \<open>\<open>snsd_read_section_name\<close>: at most \<open>buf_len\<close> characters up to the bracket.\<close>

fun snsd_read_section_name :: "nat \<Rightarrow> string \<Rightarrow> errno + (string \<times> string)" where
  "snsd_read_section_name 0 text = Inl ENOMEM"
| "snsd_read_section_name (Suc n) [] = Inl EIO"
| "snsd_read_section_name (Suc n) (c # text) =
    (if c = CHR '']'' then Inr ([], text)
     else map_sum id (\<lambda>(name, rest). (c # name, rest)) (snsd_read_section_name n text))"

text \<open>\<open>failed\<close> says whether the file ends with a read error.\<close>

fun snsd_read_section :: "nat \<Rightarrow> bool \<Rightarrow> string \<Rightarrow> string result" where
  "snsd_read_section 0 failed text = Inl ENOMEM"
| "snsd_read_section (Suc n) failed [] = (if failed then Inl EIO else Inr [])"
| "snsd_read_section (Suc n) failed (c # text) =
    (if c = CHR ''['' then Inr [] else map_sum id ((#) c) (snsd_read_section n failed text))"

lemma read_section_name_shorter:
  "snsd_read_section_name n text = Inr (name, rest) \<Longrightarrow> length rest < length text"
proof (induction n "text" arbitrary: name rest rule: snsd_read_section_name.induct)
  case (3 n c t)
  then show ?case
    by (cases "snsd_read_section_name n t"; fastforce split: if_splits)
qed simp_all

function find_section :: "nat \<Rightarrow> string \<Rightarrow> bool \<Rightarrow> string \<Rightarrow> string result" where
  "find_section file_size section_name failed [] = Inl EIO"
| "find_section file_size section_name failed (c # text) =
    (if c \<noteq> CHR ''['' then find_section file_size section_name failed text
     else case snsd_read_section_name SNSD_MAX_SECTION_NAME_LEN text of
       Inl e \<Rightarrow> Inl e
     | Inr (name, rest) \<Rightarrow>
         if cstring name \<noteq> section_name then find_section file_size section_name failed rest
         else snsd_read_section file_size failed rest)"
  by pat_completeness auto
termination
  by (relation "measure (\<lambda>(_, _, _, t). length t)") (auto dest: read_section_name_shorter)

definition snsd_find_section :: "string \<Rightarrow> bool \<Rightarrow> string \<Rightarrow> string result" where
  "snsd_find_section section_name failed text = find_section (length text) section_name failed text"

definition snsd_section_load :: "'k cfg_env \<Rightarrow> string \<Rightarrow> string option" where
  "snsd_section_load env section_name = (case ce_file env of
      None \<Rightarrow> None
    | Some (text, failed) \<Rightarrow>
        if length text \<ge> SNSD_CFG_FILE_MAX_SIZE then None
        else if \<not> ce_malloc env (length text + 1) then None
        else (case snsd_find_section section_name failed text of
            Inl _ \<Rightarrow> None
          | Inr section \<Rightarrow> Some section))"

section \<open>Removing blanks\<close>

definition snsd_ignore_blank_before_end :: "string \<Rightarrow> string" where
  "snsd_ignore_blank_before_end tmp = rev (dropWhile (\<lambda>c. c = CHR '' '') (rev tmp))"

definition is_separator :: "char \<Rightarrow> bool" where
  "is_separator c \<longleftrightarrow> c = CHR ''='' \<or> c = CR \<or> c = LF \<or> c = CHR ''|''"

fun del_blank_loop :: "string \<Rightarrow> bool \<Rightarrow> string \<Rightarrow> string" where
  "del_blank_loop [] flag_begin tmp = tmp"
| "del_blank_loop (c # cs) flag_begin tmp =
    (if \<not> isspace c \<and> c \<noteq> CHR ''='' \<and> c \<noteq> CHR ''|'' then del_blank_loop cs False (tmp @ [c])
     else if is_separator c then
       del_blank_loop cs True (snsd_ignore_blank_before_end tmp @ [c])
     else if \<not> flag_begin then del_blank_loop cs flag_begin (tmp @ [c])
     else del_blank_loop cs flag_begin tmp)"

definition snsd_del_blank :: "'k cfg_env \<Rightarrow> string \<Rightarrow> string result" where
  "snsd_del_blank env buf =
    (if \<not> ce_malloc env (length buf + 1) then Inl ENOMEM else Inr (del_blank_loop buf True []))"

section \<open>Parsing a section\<close>

definition snsd_split_with_symbol :: "string \<Rightarrow> errno + (string \<times> string)" where
  "snsd_split_with_symbol buffer =
    (let w = takeWhile (\<lambda>c. c \<noteq> CHR ''|'') buffer in
     if SNSD_CFG_NAME_MAX_LEN < length w then Inl ENOMEM
     else Inr (w, if CHR ''|'' \<in> set buffer then drop (length w + 1) buffer else buffer))"

definition snsd_get_format_num :: "string \<Rightarrow> nat" where
  "snsd_get_format_num buffer = 1 + count_list buffer (CHR ''|'')"

definition snsd_get_item_info ::
  "'k cfg_env \<Rightarrow> string \<Rightarrow> string \<Rightarrow> 'k cfg_sys \<Rightarrow> 'k cfg_sys \<times> unit result" where
  "snsd_get_item_info env section_name tmp_info s =
    (case snsd_get_value_word tmp_info (SNSD_CFG_NAME_MAX_LEN + 1) of
       (SNSD_CFG_ITEM_END, name, r) \<Rightarrow>
         (case dropWhile (\<lambda>c. c = CHR '' '' \<or> c = TAB) r of
            [] \<Rightarrow> (s, Inl EPERM)
          | c # r \<Rightarrow>
              if c \<noteq> CHR ''='' then (s, Inl EPERM)
              else (case snsd_get_value_word r (SNSD_CFG_VALUE_MAX_LEN + 1) of
                  (SNSD_CFG_ITEM_END, val, _) \<Rightarrow>
                    (case snsd_save_one_item env section_name name val s of
                       (s, Inl _) \<Rightarrow> (s, Inl EPERM)
                     | (s, Inr _) \<Rightarrow> (s, Inr ()))
                | (_, _, _) \<Rightarrow> (s, Inl EPERM)))
     | (_, _, _) \<Rightarrow> (s, Inl EPERM))"

fun format_items ::
  "'k cfg_env \<Rightarrow> string \<Rightarrow> nat \<Rightarrow> string \<Rightarrow> 'k cfg_sys \<Rightarrow> 'k cfg_sys \<times> unit result" where
  "format_items env section_name 0 buffer s = (s, Inr ())"
| "format_items env section_name (Suc n) buffer s =
    (case snsd_split_with_symbol buffer of
       Inl e \<Rightarrow> (s, Inl e)
     | Inr (tmp_info, buffer) \<Rightarrow>
         (case snsd_get_item_info env section_name tmp_info s of
            (s, Inl e) \<Rightarrow> (s, Inl e)
          | (s, Inr _) \<Rightarrow> format_items env section_name n buffer s))"

definition snsd_get_format_info ::
  "'k cfg_env \<Rightarrow> string \<Rightarrow> string \<Rightarrow> 'k cfg_sys \<Rightarrow> 'k cfg_sys \<times> unit result" where
  "snsd_get_format_info env section_name buffer s =
    (case format_items env section_name (snsd_get_format_num buffer) buffer
         (s\<lparr>cs_cfg := snsd_init_cfg\<rparr>) of
       (s, Inl e) \<Rightarrow> (s, Inl e)
     | (s, Inr _) \<Rightarrow>
         (case snsd_add_one_cfg env section_name s of
            (s, Inl _) \<Rightarrow> (s, Inl EPERM)
          | (s, Inr _) \<Rightarrow> (s, Inr ())))"

text \<open>
  \<open>snsd_split_with_sign\<close>: the line and its terminator go into a buffer of 1023 bytes
  without a check; \<open>None\<close> if they do not fit.
\<close>

definition snsd_split_with_sign ::
  "'k cfg_env \<Rightarrow> string \<Rightarrow> string \<Rightarrow> 'k cfg_sys \<Rightarrow> (string \<times> 'k cfg_sys \<times> unit result) option" where
  "snsd_split_with_sign env section_name rest s =
    (let line = takeWhile (\<lambda>c. \<not> is_eol c) rest; rest = drop (length line) rest in
     if length line \<ge> SNSD_CFG_VALUE_MAX_LEN then None
     else (case snsd_get_format_info env section_name (cstring line) s of
         (s, Inl _) \<Rightarrow> Some (rest, s, Inl EPERM)
       | (s, Inr _) \<Rightarrow> Some (rest, s, Inr ())))"

lemma skip_comment_shorter:
  "snsd_skip_invalid_comment rest = (a, r) \<Longrightarrow> length r \<le> length rest"
proof (induction rest arbitrary: r rule: snsd_skip_invalid_comment.induct)
  case (1 rest)
  let ?d = "dropWhile isspace rest" and ?e = "dropWhile (\<lambda>c. \<not> is_eol c) (dropWhile isspace rest)"
  have l: "length ?d \<le> length rest" "length ?e \<le> length ?d" by (rule length_dropWhile_le)+
  show ?case
    using 1(2) [unfolded snsd_skip_invalid_comment.simps [of rest] Let_def] 1(1) [of ?d ?e r] l
    by (auto split: if_splits)
qed

lemma skip_line_shorter:
  assumes "snsd_skip_line rest = (SNSD_CFG_ITEM_END, r)"
  shows "length r < length rest"
proof -
  obtain c t where ct: "dropWhile (\<lambda>c. \<not> is_eol c) rest = c # t" "r = dropWhile is_eol (c # t)"
    using assms by (cases "dropWhile (\<lambda>c. \<not> is_eol c) rest")
      (auto simp: snsd_skip_line_def Let_def split: if_splits)
  have "is_eol c" using hd_dropWhile [of "\<lambda>c. \<not> is_eol c" rest] ct(1) by simp
  then have "length r \<le> length t" using ct(2) by (simp add: length_dropWhile_le)
  moreover have "length (c # t) \<le> length rest" using ct(1) by (metis length_dropWhile_le)
  ultimately show ?thesis by simp
qed

lemma split_with_sign_rest:
  "snsd_split_with_sign env sec rest s = Some (r, s', res) \<Longrightarrow> r = dropWhile (\<lambda>c. \<not> is_eol c) rest"
  by (auto simp: snsd_split_with_sign_def Let_def dropWhile_eq_drop split: if_splits prod.splits sum.splits)

lemma parse_progress:
  assumes "(SNSD_CFG_ITEM_END, y) = snsd_skip_invalid_comment rest"
    and "snsd_split_with_sign env sec y s = Some (r, s', res)"
    and "(SNSD_CFG_ITEM_END, r') = snsd_skip_line r"
  shows "length r' < length rest"
proof -
  have "length y \<le> length rest" using assms(1) by (metis skip_comment_shorter)
  moreover have "length r \<le> length y"
    using split_with_sign_rest [OF assms(2)] by (simp add: length_dropWhile_le)
  moreover have "length r' < length r" using assms(3) by (metis skip_line_shorter)
  ultimately show ?thesis by simp
qed

function snsd_section_parse ::
  "'k cfg_env \<Rightarrow> string \<Rightarrow> string \<Rightarrow> 'k cfg_sys \<Rightarrow> ('k cfg_sys \<times> unit result) option" where
  "snsd_section_parse env section_name rest s =
    (if rest = [] then Some (s, Inr ())
     else case snsd_skip_invalid_comment rest of
       (SNSD_CFG_SECTION_END, _) \<Rightarrow> Some (s, Inr ())
     | (SCAN_ERROR _, _) \<Rightarrow> Some (s, Inl EPERM)
     | (SNSD_CFG_ITEM_END, r) \<Rightarrow>
         (case snsd_split_with_sign env section_name r s of
            None \<Rightarrow> None
          | Some (r, s, Inl _) \<Rightarrow> Some (s, Inl EPERM)
          | Some (r, s, Inr _) \<Rightarrow>
              (case snsd_skip_line r of
                 (SNSD_CFG_SECTION_END, _) \<Rightarrow> Some (s, Inr ())
               | (SCAN_ERROR _, _) \<Rightarrow> Some (s, Inl EPERM)
               | (SNSD_CFG_ITEM_END, r) \<Rightarrow> snsd_section_parse env section_name r s)))"
  by pat_completeness auto
termination
  by (relation "measure (\<lambda>(_, _, r, _). length r)") (auto dest: parse_progress)

declare snsd_section_parse.simps [simp del]

end
