(* ===== verification/Snsd_Cfg_Init.thy ===== *)
theory Snsd_Cfg_Init
  imports Snsd_Cfg
begin

text \<open>
  The rest of \<open>src/snsd_cfg.c\<close>: reading the three sections, the name of the host, the
  check for conflicting items, and looking up the item of a connection.
\<close>

definition snsd_get_section_info ::
  "'k cfg_env \<Rightarrow> string \<Rightarrow> 'k cfg_sys \<Rightarrow> ('k cfg_sys \<times> unit result) option" where
  "snsd_get_section_info env section_name s =
    (case snsd_section_load env section_name of
       None \<Rightarrow> Some (s, Inl EPERM)
     | Some section \<Rightarrow>
         (case snsd_del_blank env section of
            Inl _ \<Rightarrow> Some (s, Inl EPERM)
          | Inr section \<Rightarrow>
              (case snsd_section_parse env section_name section s of
                 None \<Rightarrow> None
               | Some (s, Inl _) \<Rightarrow> Some (s, Inl EPERM)
               | Some (s, Inr _) \<Rightarrow> Some (s, Inr ()))))"

definition snsd_cfg_free_space :: "'k cfg_sys \<Rightarrow> 'k cfg_sys" where
  "snsd_cfg_free_space s = s\<lparr>cs_sw_list := [], cs_dc_list := []\<rparr>"

section \<open>Conflicts\<close>

text \<open>
  \<open>snsd_check_single\<close>: for every item, the rest of the circular list is walked, from its
  successor to its predecessor.  The walk passes the list head, which is not an item; the text the
  code compares there is \<open>head_text\<close>.
\<close>

definition snsd_check_single ::
  "string \<Rightarrow> snsd_any \<Rightarrow> cfg_infos list \<Rightarrow> snsd_mode \<Rightarrow> bool" where
  "snsd_check_single head_text anyflag items mode \<longleftrightarrow>
    (let hosts = List.map ci_host_traddr items in
     list_all (\<lambda>i.
       \<not> (anyflag = SNSD_ANY_YES \<and> mode = SNSD_MODE_SW \<and> hosts ! i \<noteq> SNSD_SW_ANY) \<and>
       list_all (\<lambda>cur. hosts ! i \<noteq> cur) (drop (Suc i) hosts @ [head_text] @ take i hosts))
     [0..<length hosts])"

definition snsd_check_both :: "cfg_infos list \<Rightarrow> cfg_infos list \<Rightarrow> bool" where
  "snsd_check_both sw_list dc_list \<longleftrightarrow>
    list_all (\<lambda>sw. list_all (\<lambda>dc. ci_host_traddr sw \<noteq> ci_host_traddr dc) dc_list) sw_list"

definition snsd_check_conflict :: "string \<Rightarrow> 'k cfg_sys \<Rightarrow> bool" where
  "snsd_check_conflict head_text s \<longleftrightarrow>
    (if \<not> snsd_check_single head_text (cs_anyflag s) (cs_sw_list s) SNSD_MODE_SW then False
     else if \<not> snsd_check_single head_text (cs_anyflag s) (cs_dc_list s) SNSD_MODE_DC then False
     else if \<not> snsd_check_both (cs_sw_list s) (cs_dc_list s) then False
     else True)"

section \<open>The name of the host\<close>

text \<open>\<open>fgets\<close> with a buffer of \<open>n\<close> bytes: up to and with the first line feed.\<close>

definition fgets :: "nat \<Rightarrow> string \<Rightarrow> string option" where
  "fgets n file =
    (let line = takeWhile (\<lambda>c. c \<noteq> LF) file;
         line = (if length line < length file then line @ [LF] else line)
     in if file = [] then None else Some (take (n - 1) line))"

text \<open>
  \<open>snsd_get_hostnqn\<close>: the first line of the file goes into the caller's buffer, over what
  is there.
\<close>

definition snsd_get_hostnqn :: "'k cfg_sys \<Rightarrow> string \<Rightarrow> string option" where
  "snsd_get_hostnqn s buf = (case cs_nqn_file s of
      None \<Rightarrow> None
    | Some file \<Rightarrow>
        (case fgets SNSD_NQN_MAX_LEN file of
           None \<Rightarrow> None
         | Some hostnqn \<Rightarrow>
             Some (mem_put 0 (takeWhile (\<lambda>c. c \<noteq> LF) (cstring hostnqn)) buf)))"

definition snsd_gen_hostnqn :: "'k cfg_env \<Rightarrow> 'k cfg_sys \<Rightarrow> 'k cfg_sys \<times> unit result" where
  "snsd_gen_hostnqn env s = (case ce_uuid env of
      None \<Rightarrow> (s, Inl EINVAL)
    | Some uuid \<Rightarrow>
        (case fgets SNSD_CFG_UUID_LEN uuid of
           None \<Rightarrow> (s, Inl EINVAL)
         | Some uuid_str \<Rightarrow>
             let hostnqn = snprintf_text SNSD_NQN_MAX_LEN (''nqn.2014-08.org.nvmexpress:'' @ cstring uuid_str) in
             if \<not> ce_nqn_writable env then (s, Inl EINVAL)
             else (s\<lparr>cs_nqn_file := Some (hostnqn @ [LF])\<rparr>, Inr ())))"

definition snsd_recovery_hostnqn :: "'k cfg_env \<Rightarrow> 'k cfg_sys \<Rightarrow> 'k cfg_sys \<times> unit result" where
  "snsd_recovery_hostnqn env s =
    (if \<not> ce_nqn_writable env then (s, Inl EINVAL)
     else (s\<lparr>cs_nqn_file := Some (cstring (cs_hostnqn s) @ [LF])\<rparr>, Inr ()))"

definition snsd_get_base_hostnqn :: "'k cfg_sys \<Rightarrow> string" where
  "snsd_get_base_hostnqn s = cstring (cs_hostnqn s)"

definition snsd_hostnqn_init :: "'k cfg_env \<Rightarrow> 'k cfg_sys \<Rightarrow> 'k cfg_sys \<times> unit result" where
  "snsd_hostnqn_init env s =
    (case (if cs_nqn_file s = None then snsd_gen_hostnqn env s else (s, Inr ())) of
       (s, Inl _) \<Rightarrow> (s, Inl EPERM)
     | (s, Inr _) \<Rightarrow>
         if cstring (cs_hostnqn s) = [] then
           (case snsd_get_hostnqn s (cs_hostnqn s) of
              None \<Rightarrow> (s, Inl EPERM)
            | Some buf \<Rightarrow> (s\<lparr>cs_hostnqn := buf\<rparr>, Inr ()))
         else (s, Inr ()))"

section \<open>Look-up\<close>

definition snsd_get_any_ip :: "'k cfg_sys \<Rightarrow> snsd_any" where
  "snsd_get_any_ip s = cs_anyflag s"

definition snsd_get_any_protocol :: "'k cfg_sys \<Rightarrow> int" where
  "snsd_get_any_protocol s =
    (if cs_any_protocol s = 0 then int SNSD_PROTOCOL_ROCE else cs_any_protocol s)"

definition snsd_get_net_cfg :: "snsd_mode \<Rightarrow> 'k cfg_sys \<Rightarrow> cfg_infos list" where
  "snsd_get_net_cfg mode s = (case mode of SNSD_MODE_SW \<Rightarrow> cs_sw_list s | SNSD_MODE_DC \<Rightarrow> cs_dc_list s)"

definition snsd_get_base_info :: "'k cfg_sys \<Rightarrow> base_cfg" where
  "snsd_get_base_info s = cs_base s"

definition snsd_cfg_get_restrain_time :: "'k cfg_sys \<Rightarrow> int" where
  "snsd_cfg_get_restrain_time s = bc_restrain_time (cs_base s)"

definition snsd_find_dc_info :: "string \<Rightarrow> string \<Rightarrow> int \<Rightarrow> 'k cfg_sys \<Rightarrow> cfg_infos option" where
  "snsd_find_dc_info host_traddr traddr protocol s =
    find (\<lambda>dc. host_traddr = ci_host_traddr dc \<and> traddr = ci_traddr dc \<and> protocol = cc_protocol dc)
      (cs_dc_list s)"

definition snsd_find_sw_info :: "string \<Rightarrow> int \<Rightarrow> 'k cfg_sys \<Rightarrow> cfg_infos option" where
  "snsd_find_sw_info host_traddr protocol s =
    find (\<lambda>sw. cs_anyflag s = SNSD_ANY_YES \<or>
        host_traddr = ci_host_traddr sw \<and> protocol = cc_protocol sw) (cs_sw_list s)"

section \<open>Start and end\<close>

text \<open>\<open>snsd_init_listinfo\<close> of both lists, and the cleared name of the host.\<close>

definition init_globals :: "'k cfg_sys \<Rightarrow> 'k cfg_sys" where
  "init_globals s = s\<lparr>cs_sw_list := [], cs_dc_list := [],
    cs_hostnqn := replicate SNSD_NQN_MAX_LEN NUL, cs_base := snsd_init_base_cfg\<rparr>"

definition snsd_cfg_init :: "'k cfg_env \<Rightarrow> 'k cfg_sys \<Rightarrow> ('k cfg_sys \<times> unit result) option" where
  "snsd_cfg_init env s =
    (let fail = (\<lambda>s. Some (s, Inl EPERM)) in
     case snsd_get_section_info env SNSD_SECTION_BASE_NAME (init_globals s) of
       None \<Rightarrow> None
     | Some (s, Inl _) \<Rightarrow> fail s
     | Some (s, Inr _) \<Rightarrow>
         (case snsd_get_section_info env SNSD_SECTION_SW_NAME s of
            None \<Rightarrow> None
          | Some (s, Inl _) \<Rightarrow> fail (snsd_cfg_free_space s)
          | Some (s, Inr _) \<Rightarrow>
              (case snsd_get_section_info env SNSD_SECTION_DC_NAME s of
                 None \<Rightarrow> None
               | Some (s, Inl _) \<Rightarrow> fail (snsd_cfg_free_space s)
               | Some (s, Inr _) \<Rightarrow>
                   (case snsd_hostnqn_init env s of
                      (s, Inl _) \<Rightarrow> fail (snsd_cfg_free_space s)
                    | (s, Inr _) \<Rightarrow>
                        if \<not> snsd_check_conflict (ce_head_text env) s
                        then fail (snsd_cfg_free_space s)
                        else Some (s, Inr ())))))"

definition snsd_cfg_exit :: "'k cfg_sys \<Rightarrow> 'k cfg_sys" where
  "snsd_cfg_exit s = snsd_cfg_free_space s"

section \<open>The start value of the globals\<close>

definition cfg_globals :: "string option \<Rightarrow> 'k \<Rightarrow> 'k cfg_sys" where
  "cfg_globals nqn_file k = \<lparr>cs_anyflag = SNSD_ANY_BUTT, cs_any_protocol = 0, cs_sw_list = [],
    cs_dc_list = [], cs_cfg = zero_cfg, cs_base = zero_base_cfg,
    cs_hostnqn = replicate SNSD_NQN_MAX_LEN NUL, cs_nqn_file = nqn_file, cs_kernel = k\<rparr>"

end
