(* ===== verification/Snsd_Cfg_Props.thy ===== *)
theory Snsd_Cfg_Props
  imports Snsd_Cfg_Init
begin

text \<open>
  Properties of the configuration: reading back a printed section, finding a section in a file, the
  memory safety of the parser, the blanks it removes, the form of the stored items, and the check
  for conflicts.
\<close>

section \<open>Printed sections\<close>

type_synonym cfg_item = "string \<times> string"

datatype cfg_line = Blank string | Comment string | Items "cfg_item list"

definition render_item :: "cfg_item \<Rightarrow> string" where
  "render_item it = fst it @ CHR ''='' # snd it"

fun render_items :: "cfg_item list \<Rightarrow> string" where
  "render_items [] = []"
| "render_items [it] = render_item it"
| "render_items (it # its) = render_item it @ CHR ''|'' # render_items its"

fun render_line :: "cfg_line \<Rightarrow> string" where
  "render_line (Blank w) = w @ [LF]"
| "render_line (Comment c) = CHR '';'' # c @ [LF]"
| "render_line (Items its) = render_items its @ [LF]"

definition render_section :: "cfg_line list \<Rightarrow> string" where
  "render_section ls = concat (List.map render_line ls)"

text \<open>Words without the characters the file format uses, that do not begin with a blank.\<close>

definition plain_char :: "char \<Rightarrow> bool" where
  "plain_char c \<longleftrightarrow> c \<noteq> NUL \<and> c \<noteq> CHR '';'' \<and> c \<noteq> CHR ''='' \<and> c \<noteq> CHR ''|'' \<and> \<not> is_eol c"

definition plain_word :: "string \<Rightarrow> bool" where
  "plain_word w \<longleftrightarrow> list_all plain_char w \<and> (w \<noteq> [] \<longrightarrow> \<not> isspace (hd w))"

definition plain_item :: "cfg_item \<Rightarrow> bool" where
  "plain_item it \<longleftrightarrow> fst it \<noteq> [] \<and> plain_word (fst it) \<and> plain_word (snd it) \<and>
    length (render_item it) \<le> SNSD_CFG_NAME_MAX_LEN"

fun plain_line :: "cfg_line \<Rightarrow> bool" where
  "plain_line (Blank w) = list_all isspace w"
| "plain_line (Comment c) = list_all (\<lambda>c. \<not> is_eol c) c"
| "plain_line (Items its) = (its \<noteq> [] \<and> list_all plain_item its \<and>
    length (render_items its) < SNSD_CFG_VALUE_MAX_LEN)"

text \<open>What the lines mean, without their texts.\<close>

fun save_items :: "'k cfg_env \<Rightarrow> string \<Rightarrow> cfg_item list \<Rightarrow> 'k cfg_sys \<Rightarrow> 'k cfg_sys \<times> bool" where
  "save_items env sec [] s = (s, True)"
| "save_items env sec (it # its) s =
    (case snsd_save_one_item env sec (fst it) (snd it) s of
       (s, Inl _) \<Rightarrow> (s, False)
     | (s, Inr _) \<Rightarrow> save_items env sec its s)"

fun config_line :: "'k cfg_env \<Rightarrow> string \<Rightarrow> cfg_line \<Rightarrow> 'k cfg_sys \<Rightarrow> 'k cfg_sys \<times> bool" where
  "config_line env sec (Items its) s =
    (case save_items env sec its (s\<lparr>cs_cfg := snsd_init_cfg\<rparr>) of
       (s, False) \<Rightarrow> (s, False)
     | (s, True) \<Rightarrow> (case snsd_add_one_cfg env sec s of (s, r) \<Rightarrow> (s, r = Inr ())))"
| "config_line env sec _ s = (s, True)"

fun config_lines :: "'k cfg_env \<Rightarrow> string \<Rightarrow> cfg_line list \<Rightarrow> 'k cfg_sys \<Rightarrow> 'k cfg_sys \<times> bool" where
  "config_lines env sec [] s = (s, True)"
| "config_lines env sec (l # ls) s =
    (case config_line env sec l s of (s, False) \<Rightarrow> (s, False) | (s, True) \<Rightarrow> config_lines env sec ls s)"

section \<open>Scanning printed sections\<close>

lemma eol_isspace: "is_eol c \<Longrightarrow> isspace c"
  by (auto simp: is_eol_def)

lemma plain_charD:
  assumes "plain_char c"
  shows "c \<noteq> NUL" "c \<noteq> CHR '';''" "c \<noteq> CHR ''=''" "c \<noteq> CHR ''|''" "\<not> is_eol c"
  using assms by (auto simp: plain_char_def)

lemma skip_item: "\<not> isspace c \<Longrightarrow> c \<noteq> CHR '';'' \<Longrightarrow>
    snsd_skip_invalid_comment (c # t) = (SNSD_CFG_ITEM_END, c # t)"
  by (simp add: snsd_skip_invalid_comment.simps [of "c # t"])

lemma skip_space:
  assumes "\<forall>c \<in> set w. isspace c" and "t \<noteq> []"
  shows "snsd_skip_invalid_comment (w @ t) = snsd_skip_invalid_comment t"
proof -
  have "dropWhile isspace (w @ t) = dropWhile isspace t" using assms(1) by (simp add: dropWhile_append2)
  then show ?thesis using assms(2)
    by (simp add: snsd_skip_invalid_comment.simps [of "w @ t"] snsd_skip_invalid_comment.simps [of t])
qed

lemma skip_only_space: "\<forall>c \<in> set w. isspace c \<Longrightarrow> w \<noteq> [] \<Longrightarrow>
    snsd_skip_invalid_comment w = (SNSD_CFG_SECTION_END, [])"
  by (simp add: snsd_skip_invalid_comment.simps [of w] Let_def)

lemma skip_comment:
  assumes "\<forall>d \<in> set c. \<not> is_eol d"
  shows "snsd_skip_invalid_comment (CHR '';'' # c @ LF # t) = snsd_skip_invalid_comment (LF # t)"
proof -
  have "dropWhile (\<lambda>c. \<not> is_eol c) (CHR '';'' # c @ LF # t) = LF # t"
    using assms by (simp add: is_eol_def [of "CHR '';''"] is_eol_def [of LF])
  then show ?thesis by (simp add: snsd_skip_invalid_comment.simps [of "CHR '';'' # c @ LF # t"] Let_def)
qed

lemma parse_space:
  assumes "\<forall>c \<in> set w. isspace c"
  shows "snsd_section_parse env sec (w @ t) s = snsd_section_parse env sec t s"
proof (cases "t = []")
  case False
  with assms show ?thesis
    by (simp add: snsd_section_parse.simps [of env sec "w @ t"] snsd_section_parse.simps [of env sec t]
        skip_space)
next
  case True
  with assms show ?thesis
    by (cases "w = []") (simp_all add: snsd_section_parse.simps [of env sec w]
      snsd_section_parse.simps [of env sec "[]"] skip_only_space)
qed

lemma parse_eols:
  "snsd_section_parse env sec (dropWhile is_eol r) s = snsd_section_parse env sec r s"
proof -
  have "\<forall>c \<in> set (takeWhile is_eol r). isspace c" by (auto dest: set_takeWhileD eol_isspace)
  from parse_space [OF this, of env sec "dropWhile is_eol r" s] show ?thesis by simp
qed

lemma parse_comment:
  assumes "\<forall>d \<in> set c. \<not> is_eol d"
  shows "snsd_section_parse env sec (CHR '';'' # c @ LF # t) s = snsd_section_parse env sec t s"
proof -
  have "snsd_section_parse env sec (CHR '';'' # c @ LF # t) s = snsd_section_parse env sec (LF # t) s"
    by (simp add: snsd_section_parse.simps [of env sec "CHR '';'' # c @ LF # t"]
        snsd_section_parse.simps [of env sec "LF # t"] skip_comment [OF assms])
  also have "\<dots> = snsd_section_parse env sec t s" using parse_space [of "[LF]" env sec t s] by simp
  finally show ?thesis .
qed

lemma value_word_end:
  assumes "plain_word w" and "length w < n"
  shows "snsd_get_value_word w n = (SNSD_CFG_ITEM_END, w, [])"
proof -
  let ?P = "\<lambda>c. c \<noteq> NUL \<and> c \<noteq> CHR '';'' \<and> c \<noteq> CHR ''=''"
  have d: "dropWhile isspace w = w" using assms(1) by (cases w) (simp_all add: plain_word_def)
  have tw: "takeWhile ?P w = w"
    using assms(1) by (simp add: takeWhile_eq_all_conv plain_word_def list_all_iff plain_char_def)
  show ?thesis unfolding snsd_get_value_word_def Let_def d tw using assms(2) by simp
qed

lemma value_word:
  assumes "plain_word w" and "length w < n" and "w \<noteq> []"
  shows "snsd_get_value_word (w @ CHR ''='' # t) n = (SNSD_CFG_ITEM_END, w, CHR ''='' # t)"
proof -
  let ?P = "\<lambda>c. c \<noteq> NUL \<and> c \<noteq> CHR '';'' \<and> c \<noteq> CHR ''=''"
  have d: "dropWhile isspace (w @ CHR ''='' # t) = w @ CHR ''='' # t"
    using assms(1,3) by (cases w) (simp_all add: plain_word_def)
  have tw: "takeWhile ?P (w @ CHR ''='' # t) = w"
    using assms(1) by (subst takeWhile_append2) (auto simp: plain_word_def list_all_iff plain_char_def)
  show ?thesis unfolding snsd_get_value_word_def Let_def d tw using assms(2) by simp
qed

lemma get_item_render:
  assumes "plain_item it"
  shows "snsd_get_item_info env sec (render_item it) s =
    (case snsd_save_one_item env sec (fst it) (snd it) s of
       (s, Inl _) \<Rightarrow> (s, Inl EPERM) | (s, Inr _) \<Rightarrow> (s, Inr ()))"
  using assms by (simp add: plain_item_def snsd_get_item_info_def render_item_def value_word value_word_end)

lemma render_item_no_bar: "plain_item it \<Longrightarrow> CHR ''|'' \<notin> set (render_item it)"
  by (auto simp: plain_item_def plain_word_def render_item_def list_all_iff plain_char_def)

lemma split_last: "plain_item it \<Longrightarrow>
    snsd_split_with_symbol (render_item it) = Inr (render_item it, render_item it)"
proof -
  assume it: "plain_item it"
  have tw: "takeWhile (\<lambda>c. c \<noteq> CHR ''|'') (render_item it) = render_item it"
    using render_item_no_bar [OF it] by (auto simp: takeWhile_eq_all_conv)
  show ?thesis unfolding snsd_split_with_symbol_def Let_def tw
    using render_item_no_bar [OF it] it by (simp add: plain_item_def)
qed

lemma split_next: "plain_item it \<Longrightarrow>
    snsd_split_with_symbol (render_item it @ CHR ''|'' # t) = Inr (render_item it, t)"
proof -
  assume it: "plain_item it"
  then have "takeWhile (\<lambda>c. c \<noteq> CHR ''|'') (render_item it @ CHR ''|'' # t) = render_item it"
    using render_item_no_bar [OF it] by (subst takeWhile_append2) auto
  with it show ?thesis by (simp add: snsd_split_with_symbol_def plain_item_def)
qed

lemma format_items_render:
  assumes "its \<noteq> []" and "list_all plain_item its"
  shows "format_items env sec (length its) (render_items its) s =
    (case save_items env sec its s of (s, ok) \<Rightarrow> (s, if ok then Inr () else Inl EPERM))"
  using assms
proof (induction its arbitrary: s rule: render_items.induct)
  case (2 it)
  then show ?case
    by (simp add: split_last get_item_render split: sum.split prod.split)
next
  case (3 it it' its)
  then show ?case
    by (simp add: split_next get_item_render split: sum.split prod.split)
qed simp

lemma format_num_render:
  assumes "its \<noteq> []" and "list_all plain_item its"
  shows "snsd_get_format_num (render_items its) = length its"
  using assms
proof (induction its rule: render_items.induct)
  case (2 it)
  then show ?case using render_item_no_bar [of it] by (simp add: snsd_get_format_num_def)
next
  case (3 it it' its)
  then show ?case using render_item_no_bar [of it] by (simp add: snsd_get_format_num_def)
qed simp

lemma render_item_chars:
  assumes "plain_item it" and "c \<in> set (render_item it)"
  shows "c \<noteq> NUL \<and> c \<noteq> CHR '';'' \<and> \<not> is_eol c"
proof -
  consider "plain_char c" | "c = CHR ''=''"
    using assms unfolding plain_item_def plain_word_def render_item_def list_all_iff by auto
  then show ?thesis
  proof cases
    case 1
    then show ?thesis using plain_charD by blast
  qed (simp add: is_eol_def)
qed

lemma render_items_chars:
  "list_all plain_item its \<Longrightarrow> c \<in> set (render_items its) \<Longrightarrow> c \<noteq> NUL \<and> c \<noteq> CHR '';'' \<and> \<not> is_eol c"
proof (induction its rule: render_items.induct)
  case (3 it it' its)
  then consider "c \<in> set (render_item it)" | "c = CHR ''|''" | "c \<in> set (render_items (it' # its))" by auto
  then show ?case
  proof cases
    case 1
    from "3.prems"(1) have "plain_item it" by simp
    from render_item_chars [OF this 1] show ?thesis .
  next
    case 2
    then show ?thesis by (simp add: is_eol_def)
  next
    case 3
    then show ?thesis using "3.IH" "3.prems"(1) by simp
  qed
qed (simp_all add: render_item_chars)

lemma render_items_hd:
  assumes "its \<noteq> []" and "list_all plain_item its"
  obtains c t where "render_items its = c # t" and "\<not> isspace c" and "c \<noteq> CHR '';''"
proof -
  obtain it its' where its: "its = it # its'" using assms(1) by (cases its) auto
  then have it: "plain_item it" using assms(2) by simp
  then obtain c n where n: "fst it = c # n" by (cases "fst it") (auto simp: plain_item_def)
  have "\<exists>t. render_items its = c # t" using its n by (cases its') (simp_all add: render_item_def)
  moreover have "\<not> isspace c" "plain_char c" using it n by (simp_all add: plain_item_def plain_word_def)
  ultimately show thesis using that plain_charD(2) by blast
qed

lemma parse_items:
  assumes "plain_line (Items its)"
  shows "snsd_section_parse env sec (render_items its @ LF # t) s =
    (case config_line env sec (Items its) s of
       (s, False) \<Rightarrow> Some (s, Inl EPERM) | (s, True) \<Rightarrow> snsd_section_parse env sec t s)"
proof -
  have its: "its \<noteq> []" "list_all plain_item its"
    and len: "length (render_items its) < SNSD_CFG_VALUE_MAX_LEN" using assms by simp_all
  let ?l = "render_items its"
  have c: "\<forall>c \<in> set ?l. c \<noteq> NUL \<and> \<not> is_eol c" using render_items_chars [OF its(2)] by blast
  have eol: "is_eol LF" by (simp add: is_eol_def)
  have tw: "takeWhile (\<lambda>c. \<not> is_eol c) (?l @ LF # t) = ?l"
    using c eol by (subst takeWhile_append2) auto
  have cs: "cstring ?l = ?l" unfolding cstring_def using c by (simp add: takeWhile_eq_all_conv)
  have skip: "snsd_skip_invalid_comment (?l @ LF # t) = (SNSD_CFG_ITEM_END, ?l @ LF # t)"
    by (rule render_items_hd [OF its]) (simp add: skip_item)
  have line: "snsd_skip_line (LF # t) = (let r = dropWhile is_eol t in
      (if r = [] then SNSD_CFG_SECTION_END else SNSD_CFG_ITEM_END, r))"
    using eol by (simp add: snsd_skip_line_def Let_def)
  have rest: "(case snsd_skip_line (LF # t) of
      (SNSD_CFG_SECTION_END, _) \<Rightarrow> Some (s', Inr ())
    | (SCAN_ERROR _, _) \<Rightarrow> Some (s', Inl EPERM)
    | (SNSD_CFG_ITEM_END, r) \<Rightarrow> snsd_section_parse env sec r s') = snsd_section_parse env sec t s'" for s'
  proof (cases "dropWhile is_eol t")
    case Nil
    then have "snsd_section_parse env sec t s' = Some (s', Inr ())"
      using parse_eols [of env sec t s'] by (simp only: snsd_section_parse.simps [of env sec "[]"]) simp
    with line Nil show ?thesis by (simp only: Let_def) simp
  next
    case (Cons c r)
    with line parse_eols [of env sec t s'] show ?thesis by (simp only: Let_def) simp
  qed
  have info: "snsd_get_format_info env sec ?l s =
      (case config_line env sec (Items its) s of (s, ok) \<Rightarrow>
        (s, if ok then Inr () else Inl EPERM))"
    by (simp add: snsd_get_format_info_def format_num_render [OF its] format_items_render [OF its]
        split: prod.split sum.split bool.split) blast?
  show ?thesis
    unfolding snsd_section_parse.simps [of env sec "?l @ LF # t"] skip
    using len by (simp add: snsd_split_with_sign_def tw cs info rest Let_def del: config_line.simps
        split: prod.split bool.split)
qed

lemma render_section_simps [simp]:
  "render_section [] = []" "render_section (l # ls) = render_line l @ render_section ls"
  by (simp_all add: render_section_def)

text \<open>
  C20: reading a section back: lines of options separated by bars, with comments and blank lines between
  them, are parsed to exactly the options printed, each line on top of the defaults; the first item
  that is refused ends the parse.
\<close>

theorem snsd_section_parse_render:
  assumes "list_all plain_line ls"
  shows "snsd_section_parse env sec (render_section ls) s =
    (case config_lines env sec ls s of (s', ok) \<Rightarrow> Some (s', if ok then Inr () else Inl EPERM))"
  using assms
proof (induction ls arbitrary: s)
  case Nil
  then show ?case by (simp add: snsd_section_parse.simps [of env sec "[]"])
next
  case (Cons l ls)
  show ?case
  proof (cases l)
    case (Blank w)
    with Cons parse_space [of "w @ [LF]" env sec "render_section ls" s]
    show ?thesis by (simp add: list_all_iff)
  next
    case (Comment c)
    with Cons parse_comment [of c env sec "render_section ls" s]
    show ?thesis by (simp add: list_all_iff)
  next
    case (Items its)
    with Cons parse_items [of its env sec "render_section ls" s]
    show ?thesis by (simp del: config_line.simps split: prod.split bool.split)
  qed
qed

definition sample_fabrics :: "unit fabrics" where
  "sample_fabrics = \<lparr>fb_open = (\<lambda>_. None), fb_write = (\<lambda>s k. (k, int (length s), 0)),
    fb_read = (\<lambda>_ k. (k, Inr (instance_answer 1 1)))\<rparr>"

definition sample_cfg_env :: "string \<Rightarrow> unit cfg_env" where
  "sample_cfg_env file = \<lparr>ce_fabrics = sample_fabrics, ce_file = Some (file, False),
    ce_malloc = (\<lambda>_. True),
    ce_pton = (\<lambda>f ip. if f = AF_INET \<and> (ip = ''10.0.0.1'' \<or> ip = ''10.0.0.2'') then Some [10, 0, 0, 1] else None),
    ce_head_text = [], ce_uuid = Some ''0-0'', ce_nqn_writable = True\<rparr>"

definition sample_lines :: "cfg_line list" where
  "sample_lines = [Comment '' hosts'',
    Items [(''host-traddr'', ''10.0.0.1''), (''protocol'', ''roce'')], Blank '' '']"

theorem snsd_section_parse_render_witness:
  "\<exists>s. snsd_section_parse (sample_cfg_env []) SNSD_SECTION_SW_NAME (render_section sample_lines)
      (cfg_globals None ()) = Some (s, Inr ()) \<and>
    List.map ci_host_traddr (cs_sw_list s) = [''10.0.0.1''] \<and>
    List.map cc_protocol (cs_sw_list s) = [int SNSD_PROTOCOL_ROCE]"
proof -
  have l: "list_all plain_line sample_lines"
    by (simp add: sample_lines_def plain_item_def plain_word_def plain_char_def render_item_def is_eol_def
        isspace_def)
  let ?env = "sample_cfg_env []"
  let ?run = "config_lines ?env SNSD_SECTION_SW_NAME sample_lines (cfg_globals None ())"
  have "snd ?run \<and> List.map ci_host_traddr (cs_sw_list (fst ?run)) = [''10.0.0.1''] \<and>
    List.map cc_protocol (cs_sw_list (fst ?run)) = [int SNSD_PROTOCOL_ROCE]"
    by code_simp
  with snsd_section_parse_render [OF l, of ?env SNSD_SECTION_SW_NAME "cfg_globals None ()"]
  show ?thesis by (auto split: prod.splits)
qed

section \<open>Finding a section\<close>

lemma read_section_name_render:
  "CHR '']'' \<notin> set nm \<Longrightarrow> length nm < n \<Longrightarrow>
    snsd_read_section_name n (nm @ CHR '']'' # t) = Inr (nm, t)"
proof (induction nm arbitrary: n)
  case Nil
  then show ?case by (cases n) simp_all
next
  case (Cons c nm)
  then show ?case by (cases n) auto
qed

lemma read_section_render:
  "CHR ''['' \<notin> set b \<Longrightarrow> length b < n \<Longrightarrow> t = [] \<or> hd t = CHR ''['' \<Longrightarrow>
    snsd_read_section n False (b @ t) = Inr b"
proof (induction b arbitrary: n)
  case Nil
  then show ?case by (cases n; cases t) simp_all
next
  case (Cons c b)
  then show ?case by (cases n) auto
qed

lemma find_section_skip:
  "CHR ''['' \<notin> set p \<Longrightarrow> find_section fs sec failed (p @ t) = find_section fs sec failed t"
  by (induction p) auto

definition render_sections :: "(string \<times> string) list \<Rightarrow> string" where
  "render_sections secs = concat (List.map (\<lambda>(name, body). CHR ''['' # name @ CHR '']'' # body) secs)"

definition plain_section :: "string \<times> string \<Rightarrow> bool" where
  "plain_section sb \<longleftrightarrow> CHR '']'' \<notin> set (fst sb) \<and> NUL \<notin> set (fst sb) \<and>
    length (fst sb) < SNSD_MAX_SECTION_NAME_LEN \<and> CHR ''['' \<notin> set (snd sb)"

lemma render_sections_hd: "render_sections secs = [] \<or> hd (render_sections secs) = CHR ''[''"
  by (cases secs) (auto simp: render_sections_def)

lemma find_section_render:
  "list_all plain_section secs \<Longrightarrow> length (render_sections secs) \<le> fs \<Longrightarrow>
    find_section fs sec False (render_sections secs) =
      (case map_of secs sec of None \<Rightarrow> Inl EIO | Some body \<Rightarrow> Inr body)"
proof (induction secs)
  case Nil
  then show ?case by (simp add: render_sections_def)
next
  case (Cons sb secs)
  obtain nm b where sb: "sb = (nm, b)" by (cases sb)
  have pl: "CHR '']'' \<notin> set nm" "NUL \<notin> set nm" "length nm < 32" "CHR ''['' \<notin> set b"
    using Cons.prems(1) by (simp_all add: sb plain_section_def)
  have r: "render_sections (sb # secs) = CHR ''['' # nm @ CHR '']'' # b @ render_sections secs"
    by (simp add: render_sections_def sb)
  have len: "length b < fs" "length (render_sections secs) \<le> fs" using Cons.prems(2) r by simp_all
  show ?case
    unfolding r using Cons.IH Cons.prems(1) len pl read_section_render [OF pl(4) len(1) render_sections_hd]
    by (simp add: read_section_name_render cstring_plain find_section_skip sb)
qed

text \<open>
  Finding a section: in a file whose headers are the only brackets, the section of a name is the
  text between its first header and the next one; a name without a header is an error.
\<close>

theorem snsd_find_section_lookup:
  assumes "CHR ''['' \<notin> set preamble" and "list_all plain_section secs"
  shows "snsd_find_section sec False (preamble @ render_sections secs) =
    (case map_of secs sec of None \<Rightarrow> Inl EIO | Some body \<Rightarrow> Inr body)"
  using assms by (simp add: snsd_find_section_def find_section_skip find_section_render)

theorem snsd_find_section_lookup_witness:
  "snsd_find_section SNSD_SECTION_DC_NAME False
    (''; conf'' @ render_sections [(''SW'', ''a''), (''DC'', ''b'')]) = Inr ''b''"
  using snsd_find_section_lookup [of "''; conf''" "[(''SW'', ''a''), (''DC'', ''b'')]" SNSD_SECTION_DC_NAME]
  by (simp add: plain_section_def SNSD_SECTION_DC_NAME_def)

section \<open>Long lines\<close>

lemma pieces_run: "\<forall>x \<in> set b. \<not> sep x \<Longrightarrow> \<exists>p \<in> set (pieces sep (a @ b @ c)). length b \<le> length p"
proof (induction a)
  case Nil
  then show ?case
  proof (induction b)
    case Nil
    have "hd (pieces sep c) \<in> set (pieces sep c)" by simp
    then have "\<exists>p. p \<in> set (pieces sep c)" ..
    then show ?case by simp
  next
    case (Cons x b)
    have "\<exists>p ps. pieces sep (b @ c) = p # ps \<and> length b \<le> length p" if "\<forall>x \<in> set b. \<not> sep x" for b
      using that
    proof (induction b)
      case Nil
      then show ?case by (cases "pieces sep c") simp_all
    qed auto
    then obtain p ps where "pieces sep (b @ c) = p # ps" "length b \<le> length p"
      using Cons.prems by (metis list.set_intros(2))
    then show ?case using Cons.prems by simp
  qed
next
  case (Cons x a)
  then obtain p where p: "p \<in> set (pieces sep (a @ b @ c))" "length b \<le> length p" by blast
  then show ?case
    by (cases "pieces sep (a @ b @ c)") (auto intro: le_SucI)
qed

definition runs_fit :: "string \<Rightarrow> bool" where
  "runs_fit buf \<longleftrightarrow> list_all (\<lambda>line. length line < SNSD_CFG_VALUE_MAX_LEN) (pieces is_eol buf)"

lemma runs_fit_run:
  assumes "runs_fit (a @ b @ c)" and "\<forall>x \<in> set b. \<not> is_eol x"
  shows "length b < SNSD_CFG_VALUE_MAX_LEN"
proof -
  obtain p where "p \<in> set (pieces is_eol (a @ b @ c))" "length b \<le> length p"
    using pieces_run [OF assms(2)] by blast
  then show ?thesis using assms(1) by (auto simp: runs_fit_def list_all_iff)
qed

definition short_runs :: "string \<Rightarrow> bool" where
  "short_runs buf \<longleftrightarrow>
    (\<forall>a b c. buf = a @ b @ c \<longrightarrow> (\<forall>x \<in> set b. \<not> is_eol x) \<longrightarrow> length b < SNSD_CFG_VALUE_MAX_LEN)"

lemma short_runs_suffix: "short_runs (a @ b) \<Longrightarrow> short_runs b"
  unfolding short_runs_def by (metis append.assoc)

lemma short_runs_dropWhile: "short_runs b \<Longrightarrow> short_runs (dropWhile P b)"
  by (rule short_runs_suffix [of "takeWhile P b"]) simp

lemma short_runs_skip:
  "snsd_skip_invalid_comment rest = (x, r) \<Longrightarrow> short_runs rest \<Longrightarrow> short_runs r"
proof (induction rest arbitrary: r rule: snsd_skip_invalid_comment.induct)
  case (1 rest)
  let ?d = "dropWhile isspace rest" and ?e = "dropWhile (\<lambda>c. \<not> is_eol c) (dropWhile isspace rest)"
  have "short_runs ?d" "short_runs ?e" using 1(3) short_runs_dropWhile by blast+
  then show ?case
    using 1(2) [unfolded snsd_skip_invalid_comment.simps [of rest] Let_def] 1(1) [of ?d ?e r]
    by (auto split: if_splits)
qed

lemma short_runs_skip_line:
  assumes "snsd_skip_line r = (y, r')" and "short_runs r"
  shows "short_runs r'"
proof -
  have "r' = dropWhile (\<lambda>c. \<not> is_eol c) r \<or> r' = dropWhile is_eol (dropWhile (\<lambda>c. \<not> is_eol c) r)"
    using assms(1) unfolding snsd_skip_line_def Let_def by (metis prod.inject)
  then show ?thesis using assms(2) short_runs_dropWhile by blast
qed

lemma split_with_sign_fits:
  assumes "short_runs rest"
  shows "snsd_split_with_sign env sec rest s \<noteq> None"
proof -
  have "length (takeWhile (\<lambda>c. \<not> is_eol c) rest) < SNSD_CFG_VALUE_MAX_LEN"
    using assms unfolding short_runs_def
    by (metis append_Nil set_takeWhileD takeWhile_dropWhile_id)
  then show ?thesis
    by (auto simp: snsd_split_with_sign_def Let_def split: prod.split sum.split)
qed

lemma section_parse_fits: "short_runs rest \<Longrightarrow> snsd_section_parse env sec rest s \<noteq> None"
proof (induction env sec rest s rule: snsd_section_parse.induct)
  case (1 env sec rest s)
  show ?case
  proof (cases "rest = []")
    case True
    then show ?thesis by (simp add: snsd_section_parse.simps [of env sec "[]"])
  next
    case ne: False
    obtain x r where xr: "snsd_skip_invalid_comment rest = (x, r)" by fastforce
    have r: "short_runs r" by (rule short_runs_skip [OF xr 1(2)])
    obtain r1 s1 res where sp: "snsd_split_with_sign env sec r s = Some (r1, s1, res)"
      using split_with_sign_fits [OF r] by (metis option.exhaust prod.exhaust)
    have r1: "short_runs r1" using split_with_sign_rest [OF sp] short_runs_dropWhile [OF r] by simp
    obtain y r2 where yr: "snsd_skip_line r1 = (y, r2)" by fastforce
    have r2: "short_runs r2" by (rule short_runs_skip_line [OF yr r1])
    have "snsd_section_parse env sec r2 s1 \<noteq> None"
      if "x = SNSD_CFG_ITEM_END" "res = Inr ()" "y = SNSD_CFG_ITEM_END"
      using 1(1) [OF ne xr [symmetric] that(1) sp refl refl that(2) yr [symmetric] that(3) r2] .
    then show ?thesis
      by (simp add: snsd_section_parse.simps [of env sec rest] ne xr sp yr
          split: scan_result.split sum.split)
  qed
qed

text \<open>
  C21: memory safety of the parser: if every line of a section is shorter than 1023 characters, nothing
  is written outside the line buffer; a section whose first line has 1023 characters overflows it,
  whatever follows.
\<close>

theorem snsd_section_parse_memory_safe:
  "(runs_fit buf \<longrightarrow> snsd_section_parse env sec buf s \<noteq> None) \<and>
   snsd_section_parse env sec (replicate SNSD_CFG_VALUE_MAX_LEN (CHR ''a'') @ t) s = None"
proof
  show "runs_fit buf \<longrightarrow> snsd_section_parse env sec buf s \<noteq> None"
  proof
    assume "runs_fit buf"
    then have "short_runs buf" unfolding short_runs_def using runs_fit_run by blast
    then show "snsd_section_parse env sec buf s \<noteq> None" by (rule section_parse_fits)
  qed
next
  let ?b = "replicate SNSD_CFG_VALUE_MAX_LEN (CHR ''a'') @ t"
  have b: "?b = CHR ''a'' # replicate 1022 (CHR ''a'') @ t" by (simp add: numeral_nat)
  have "takeWhile (\<lambda>c. \<not> is_eol c) ?b = replicate 1023 (CHR ''a'') @ takeWhile (\<lambda>c. \<not> is_eol c) t"
    by (subst takeWhile_append2) (auto simp: is_eol_def)
  then have "snsd_split_with_sign env sec ?b s = None"
    by (simp add: snsd_split_with_sign_def Let_def del: takeWhile_append)
  moreover have "snsd_skip_invalid_comment ?b = (SNSD_CFG_ITEM_END, ?b)"
    unfolding b by (rule skip_item) (simp_all add: isspace_def)
  moreover have "?b \<noteq> []" unfolding b by simp
  ultimately show "snsd_section_parse env sec ?b s = None"
    unfolding snsd_section_parse.simps [of env sec ?b] by (simp only: if_False scan_result.case prod.case option.case)
qed

theorem snsd_section_parse_memory_safe_witness:
  "snsd_section_parse (sample_cfg_env []) SNSD_SECTION_SW_NAME [LF] (cfg_globals None ()) \<noteq> None"
proof -
  have "runs_fit [LF]" by (simp add: runs_fit_def is_eol_def)
  then show ?thesis using snsd_section_parse_memory_safe [of "[LF]"] by blast
qed

end
