(* ===== verification/Snsd_Cfg_Items.thy ===== *)
theory Snsd_Cfg_Items
  imports Snsd_Cfg_Props
begin

text \<open>
  What a successful start of the configuration guarantees of the stored items, and where reading
  the file does something else than it says.
\<close>

section \<open>Conflicts\<close>

lemma nth_in_rest:
  "x \<in> set (drop (Suc i) xs @ take i xs) \<longleftrightarrow> (\<exists>j < length xs. j \<noteq> i \<and> xs ! j = x)" if "i < length xs"
proof
  assume "x \<in> set (drop (Suc i) xs @ take i xs)"
  then consider j where "j < length xs - Suc i" "xs ! (Suc i + j) = x" | j where "j < i" "xs ! j = x"
    using that by (auto simp: in_set_conv_nth)
  then show "\<exists>j < length xs. j \<noteq> i \<and> xs ! j = x"
  proof cases
    case 1
    then show ?thesis using that by (intro exI [of _ "Suc i + j"]) auto
  next
    case 2
    then show ?thesis using that by (intro exI [of _ j]) auto
  qed
next
  assume "\<exists>j < length xs. j \<noteq> i \<and> xs ! j = x"
  then obtain j where j: "j < length xs" "j \<noteq> i" "xs ! j = x" by blast
  show "x \<in> set (drop (Suc i) xs @ take i xs)"
  proof (cases "j < i")
    case True
    then show ?thesis using j that by (auto simp: in_set_conv_nth intro!: exI [of _ j])
  next
    case False
    then have "drop (Suc i) xs ! (j - Suc i) = x" "j - Suc i < length (drop (Suc i) xs)"
      using j by simp_all
    then show ?thesis by (auto simp: in_set_conv_nth)
  qed
qed

lemma single_nth:
  "(\<forall>i < length h. \<not> (A \<and> B \<and> h ! i \<noteq> x) \<and> h ! i \<noteq> y \<and> (\<forall>j < length h. j \<noteq> i \<longrightarrow> h ! i \<noteq> h ! j)) \<longleftrightarrow>
    distinct h \<and> y \<notin> set h \<and> (A \<and> B \<longrightarrow> (\<forall>z \<in> set h. z = x))"
proof -
  have "y \<notin> set h \<longleftrightarrow> (\<forall>i < length h. h ! i \<noteq> y)" by (auto simp: in_set_conv_nth)
  then show ?thesis unfolding distinct_conv_nth all_set_conv_all_nth by blast
qed

lemma check_single_iff:
  "snsd_check_single head any items mode \<longleftrightarrow>
    distinct (List.map ci_host_traddr items) \<and> head \<notin> ci_host_traddr ` set items \<and>
    (any = SNSD_ANY_YES \<and> mode = SNSD_MODE_SW \<longrightarrow> (\<forall>c \<in> set items. ci_host_traddr c = SNSD_SW_ANY))"
proof -
  let ?h = "List.map ci_host_traddr items"
  have "(\<forall>cur \<in> set (drop (Suc i) ?h @ [head] @ take i ?h). ?h ! i \<noteq> cur) \<longleftrightarrow>
      ?h ! i \<noteq> head \<and> (\<forall>j < length ?h. j \<noteq> i \<longrightarrow> ?h ! i \<noteq> ?h ! j)" if "i < length ?h" for i
  proof -
    have "set (drop (Suc i) ?h @ [head] @ take i ?h) = insert head (set (drop (Suc i) ?h @ take i ?h))"
      by auto
    then show ?thesis using nth_in_rest [OF that] by (metis insert_iff)
  qed
  then have "snsd_check_single head any items mode \<longleftrightarrow>
      (\<forall>i < length ?h. \<not> (any = SNSD_ANY_YES \<and> mode = SNSD_MODE_SW \<and> ?h ! i \<noteq> SNSD_SW_ANY) \<and>
        ?h ! i \<noteq> head \<and> (\<forall>j < length ?h. j \<noteq> i \<longrightarrow> ?h ! i \<noteq> ?h ! j))"
    by (simp add: snsd_check_single_def Let_def list_all_iff Ball_def)
  also have "\<dots> \<longleftrightarrow> distinct ?h \<and> head \<notin> set ?h \<and>
      (any = SNSD_ANY_YES \<and> mode = SNSD_MODE_SW \<longrightarrow> (\<forall>h \<in> set ?h. h = SNSD_SW_ANY))"
    by (rule single_nth)
  finally show ?thesis by auto
qed

lemma check_conflict_distinct:
  assumes "snsd_check_conflict head s"
  shows "distinct (List.map ci_host_traddr (cs_sw_list s @ cs_dc_list s))"
  using assms unfolding snsd_check_conflict_def check_single_iff snsd_check_both_def
  by (auto simp: list_all_iff split: if_splits)


section \<open>Reading a section keeps what its steps keep\<close>

text \<open>
  \<open>P\<close> holds between the lines of a section, \<open>Q\<close> while a line is read, from the reset
  of \<open>cfg\<close> on.
\<close>

locale section_inv =
  fixes env :: "'k cfg_env" and sec :: string and P Q :: "'k cfg_sys \<Rightarrow> bool"
  assumes init: "P s \<Longrightarrow> Q (s\<lparr>cs_cfg := snsd_init_cfg\<rparr>)"
    and save: "snsd_save_one_item env sec name val s = (s', r) \<Longrightarrow> Q s \<Longrightarrow> Q s'"
    and add: "snsd_add_one_cfg env sec s = (s', r) \<Longrightarrow> Q s \<Longrightarrow> Q s'"
    and leave: "Q s \<Longrightarrow> P s"
begin

lemma get_item_info:
  assumes "snsd_get_item_info env sec w s = (s', r)" and "Q s"
  shows "Q s'"
  using assms
  by (auto simp: snsd_get_item_info_def dest: save
      split: prod.splits scan_result.splits list.splits if_splits sum.splits)

lemma format_items:
  "format_items env sec n buf s = (s', r) \<Longrightarrow> Q s \<Longrightarrow> Q s'"
  by (induction n arbitrary: buf s)
    (auto dest: get_item_info split: prod.splits sum.splits)

lemma format_info:
  assumes "snsd_get_format_info env sec buf s = (s', r)" and "P s"
  shows "P s'"
  using assms init [OF assms(2)]
  by (auto simp: snsd_get_format_info_def dest: format_items add intro: leave
      split: prod.splits sum.splits)

lemma split_with_sign:
  "snsd_split_with_sign env sec rest s = Some (r, s', res) \<Longrightarrow> P s \<Longrightarrow> P s'"
  by (auto simp: snsd_split_with_sign_def Let_def dest: format_info
      split: if_splits prod.splits sum.splits)

lemma section_parse:
  "snsd_section_parse env sec rest s = Some (s', r) \<Longrightarrow> P s \<Longrightarrow> P s'"
proof (induction rest arbitrary: s rule: length_induct)
  case (1 rest)
  show ?case
  proof (cases "rest = []")
    case True
    then show ?thesis using 1(2,3) by (simp add: snsd_section_parse.simps [of env sec "[]"])
  next
    case ne: False
    obtain x r1 where xr: "snsd_skip_invalid_comment rest = (x, r1)" by fastforce
    show ?thesis
    proof (cases "snsd_split_with_sign env sec r1 s")
      case None
      then show ?thesis using 1(2,3) ne xr
        by (simp add: snsd_section_parse.simps [of env sec rest] split: scan_result.splits)
    next
      case (Some t)
      then obtain r2 s1 res where sp: "snsd_split_with_sign env sec r1 s = Some (r2, s1, res)"
        by (cases t) auto
      have inv: "P s1" by (rule split_with_sign [OF sp 1(3)])
      obtain y r3 where yr: "snsd_skip_line r2 = (y, r3)" by fastforce
      have "P s'"
        if "x = SNSD_CFG_ITEM_END" "res = Inr ()" "y = SNSD_CFG_ITEM_END"
          "snsd_section_parse env sec r3 s1 = Some (s', r)"
        using 1(1) parse_progress [of r1 rest env sec s r2 s1 res r3] xr sp yr that inv by metis
      then show ?thesis using 1(2,3) ne xr sp inv yr
        by (simp add: snsd_section_parse.simps [of env sec rest] split: scan_result.splits sum.splits)
    qed
  qed
qed

lemma section_info:
  "snsd_get_section_info env sec s = Some (s', r) \<Longrightarrow> P s \<Longrightarrow> P s'"
  by (auto simp: snsd_get_section_info_def dest: section_parse
      split: option.splits sum.splits prod.splits)

end

section \<open>The form of the stored items\<close>

definition int32 :: "int \<Rightarrow> bool" where
  "int32 i \<longleftrightarrow> - (2 ^ 31) \<le> i \<and> i < 2 ^ 31"

text \<open>The fields the two structures share: the strings fit their arrays, the numbers 32 bits.\<close>

definition common_ok :: "'a cfg_common_scheme \<Rightarrow> bool" where
  "common_ok c \<longleftrightarrow> length (cc_trsvcid c) \<le> SNSD_COMMON_LEN \<and> length (cc_hostnqn c) < SNSD_NQN_MAX_LEN \<and>
    length (cc_hostid c) < SNSD_CFG_UUID_LEN \<and>
    list_all int32 [cc_nr_io_queues c, cc_nr_write_queues c, cc_nr_poll_queues c, cc_queue_size c,
      cc_keep_alive_tmo c, cc_reconnect_delay c, cc_ctrl_loss_tmo c, cc_duplicate_connect c,
      cc_disable_sqflow c, cc_hdr_digest c, cc_data_digest c, cc_protocol c, cc_protol_role c]"

text \<open>The item under construction: addresses and protocol are unset or have been checked.\<close>

definition cfg_ok :: "'k cfg_env \<Rightarrow> cfg_infos \<Rightarrow> bool" where
  "cfg_ok env c \<longleftrightarrow> common_ok c \<and> length (ci_nqn c) < SNSD_NQN_MAX_LEN \<and>
    length (ci_traddr c) \<le> SNSD_IP_LEN \<and> length (ci_host_traddr c) \<le> SNSD_IP_LEN \<and>
    (ci_traddr c = ''invalid'' \<or> check_ip env (ci_traddr c)) \<and>
    (ci_host_traddr c = ''invalid'' \<or> check_ip env (ci_host_traddr c)) \<and>
    cc_protocol c \<in> {0, 1, 2, 3}"

definition stored_ok :: "'k cfg_env \<Rightarrow> snsd_mode \<Rightarrow> cfg_infos \<Rightarrow> bool" where
  "stored_ok env mode c \<longleftrightarrow> cfg_ok env c \<and> ci_mode c = mode \<and> ci_host_traddr c \<noteq> ''invalid'' \<and>
    cc_protocol c \<noteq> 0 \<and> (mode = SNSD_MODE_DC \<longrightarrow> ci_traddr c \<noteq> ''invalid'')"

definition hostnqn_ok :: "string \<Rightarrow> bool" where
  "hostnqn_ok buf \<longleftrightarrow> length buf = SNSD_NQN_MAX_LEN \<and> last buf = NUL"

definition stored_inv :: "'k cfg_env \<Rightarrow> 'k cfg_sys \<Rightarrow> bool" where
  "stored_inv env s \<longleftrightarrow> common_ok (cs_base s) \<and> int32 (bc_restrain_time (cs_base s)) \<and>
    hostnqn_ok (cs_hostnqn s) \<and> list_all (stored_ok env SNSD_MODE_SW) (cs_sw_list s) \<and>
    list_all (stored_ok env SNSD_MODE_DC) (cs_dc_list s)"

definition line_inv :: "'k cfg_env \<Rightarrow> 'k cfg_sys \<Rightarrow> bool" where
  "line_inv env s \<longleftrightarrow> stored_inv env s \<and> cfg_ok env (cs_cfg s)"

lemmas cfg_inv_defs = line_inv_def stored_inv_def

lemma int32_atoi [simp]: "int32 (atoi s)"
proof -
  have "- (2 ^ 31) \<le> signed_take_bit 31 i \<and> signed_take_bit 31 i < 2 ^ 31" for i :: int
    using signed_take_bit_int_greater_eq_minus_exp [of 31 i] signed_take_bit_int_less_exp [of 31 i] by simp
  then show ?thesis by (simp add: int32_def atoi_def to_int32_def Let_def split_beta)
qed

lemma int32_numerals [simp]: "int32 0" "int32 (- 1)"
  by (simp_all add: int32_def)

lemma init_cfg_ok [simp]: "cfg_ok env snsd_init_cfg"
  by (simp add: snsd_init_cfg_def snsd_init_cfg_with_default_def command_line_options_def set_default_def
      str_opt_def int_opt_def opt_def zero_cfg_def cfg_ok_def common_ok_def)

lemma init_base_ok [simp]: "common_ok snsd_init_base_cfg" "int32 (bc_restrain_time snsd_init_base_cfg)"
  by (simp_all add: snsd_init_base_cfg_def snsd_init_cfg_with_default_def base_command_line_options_def
      set_default_def str_opt_def int_opt_def opt_def zero_base_cfg_def common_ok_def)

lemma common_ok_mode [simp]: "cfg_ok env (c\<lparr>ci_mode := m\<rparr>) \<longleftrightarrow> cfg_ok env c"
  by (simp add: cfg_ok_def common_ok_def)

lemma hostnqn_ok_put:
  assumes "hostnqn_ok buf" and "length val < SNSD_NQN_MAX_LEN"
  shows "hostnqn_ok (mem_put 0 val buf)"
proof -
  have "buf \<noteq> []" using assms(1) by (auto simp: hostnqn_ok_def)
  then show ?thesis using assms by (auto simp: hostnqn_ok_def mem_put_def)
qed

text \<open>A check leaves the lists and structures alone.\<close>

lemma check_validity_inv:
  assumes "check_validity env chk para val s = (s', val', ok)" and "line_inv env s"
  shows "line_inv env s'"
  using assms hostnqn_ok_put
  by (cases chk) (auto simp: check_validity_def cfg_inv_defs Let_def split: if_splits prod.splits option.splits)

text \<open>What the checked value of an option may be, and that the option then keeps the form.\<close>

definition checked :: "'k cfg_env \<Rightarrow> cfg_check \<Rightarrow> string \<Rightarrow> bool" where
  "checked env chk val = (case chk of
      snsd_check_ip_validity \<Rightarrow> check_ip env val
    | snsd_check_protocol_validity \<Rightarrow> val \<in> {''1'', ''2'', ''3''}
    | _ \<Rightarrow> True)"

lemma dec_nat_small: "dec_nat 1 = ''1''" "dec_nat 2 = ''2''" "dec_nat 3 = ''3''"
  by (simp_all add: dec_nat.simps [of 1] dec_nat.simps [of 2] dec_nat.simps [of 3] digit_char_def)
    code_simp+

lemma check_validity_checked:
  assumes "check_validity env chk para val s = (s', val', True)"
  shows "checked env chk val'"
  using assms dec_nat_small
  by (cases chk) (auto simp: check_validity_def checked_def prot_match_def numeral_2_eq_2 Let_def
      split: if_splits prod.splits option.splits)

definition keeps_form :: "('a \<Rightarrow> bool) \<Rightarrow> 'k cfg_env \<Rightarrow> 'a commandline \<Rightarrow> bool" where
  "keeps_form ok env cl \<longleftrightarrow> (\<forall>c val. ok c \<longrightarrow> checked env (cl_check_validity cl) val \<longrightarrow>
    (case cl_value cl of
       SNSD_CFG_STRING len get upd def \<Rightarrow> length val < len \<longrightarrow> ok (upd (\<lambda>_. val) c)
     | SNSD_CFG_INT get upd def \<Rightarrow> ok (upd (\<lambda>_. atoi val) c)))"

lemma atoi_protocol: "atoi ''1'' = 1" "atoi ''2'' = 2" "atoi ''3'' = 3"
  by code_simp+

lemmas keep_form_defs = keeps_form_def checked_def str_opt_def int_opt_def opt_def common_ok_def

lemma options_keep_form: "list_all (keeps_form (cfg_ok env) env) command_line_options"
  unfolding command_line_options_def list.pred_inject
  by (intro conjI TrueI; simp add: keep_form_defs cfg_ok_def) (auto simp: atoi_protocol)

lemma base_options_keep_form:
  "list_all (keeps_form (\<lambda>c. common_ok c \<and> int32 (bc_restrain_time c)) env) base_command_line_options"
  unfolding base_command_line_options_def list.pred_inject
  by (intro conjI TrueI; simp add: keep_form_defs)

lemma find_option_all: "find_option name cls = Some cl \<Longrightarrow> list_all P cls \<Longrightarrow> P cl"
  by (auto simp: find_option_def find_Some_iff list_all_iff)

lemma check_and_save_inv:
  assumes "snsd_check_and_save env upd_cfg cl val s = (s', r)" and "line_inv env s"
    and "keeps_form ok env cl"
    and "\<And>s. line_inv env s \<Longrightarrow> ok (get s)"
    and "\<And>f s. line_inv env s \<Longrightarrow> ok (f (get s)) \<Longrightarrow> line_inv env (upd_cfg f s)"
  shows "line_inv env s'"
proof -
  obtain s1 val' okv where c: "check_validity env (cl_check_validity cl) (cl_drv_option cl) val s = (s1, val', okv)"
    by (metis prod.exhaust)
  have inv: "line_inv env s1" by (rule check_validity_inv [OF c assms(2)])
  show ?thesis
  proof (cases okv)
    case False
    then show ?thesis using assms(1) inv by (simp add: snsd_check_and_save_def c)
  next
    case True
    with c have k: "checked env (cl_check_validity cl) val'" by (auto intro: check_validity_checked)
    show ?thesis
      using assms(1,3) inv k assms(4) [OF inv] True assms(5) [OF inv]
      by (cases "cl_value cl") (auto simp: snsd_check_and_save_def c keeps_form_def split: if_splits)
  qed
qed

lemma save_one_item_inv:
  assumes "snsd_save_one_item env sec name val s = (s', r)" and "line_inv env s"
  shows "line_inv env s'"
proof (cases "sec = SNSD_SECTION_BASE_NAME")
  case True
  show ?thesis
  proof (cases "find_option name base_command_line_options")
    case None
    then show ?thesis using assms True by (simp add: snsd_save_one_item_def)
  next
    case (Some cl)
    show ?thesis
      by (rule check_and_save_inv [OF _ assms(2) find_option_all [OF Some base_options_keep_form],
            where get = cs_base and upd_cfg = "\<lambda>f s. s\<lparr>cs_base := f (cs_base s)\<rparr>"])
        (use assms(1) Some True in \<open>auto simp: snsd_save_one_item_def cfg_inv_defs\<close>)
  qed
next
  case False
  show ?thesis
  proof (cases "find_option name command_line_options")
    case None
    then show ?thesis using assms False by (simp add: snsd_save_one_item_def)
  next
    case (Some cl)
    show ?thesis
      by (rule check_and_save_inv [OF _ assms(2) find_option_all [OF Some options_keep_form],
            where get = cs_cfg and upd_cfg = "\<lambda>f s. s\<lparr>cs_cfg := f (cs_cfg s)\<rparr>"])
        (use assms(1) Some False in \<open>auto simp: snsd_save_one_item_def cfg_inv_defs\<close>)
  qed
qed

text \<open>The necessary options have been given once the check for them succeeds.\<close>

lemma necessary_sw: "snsd_check_necessary SNSD_SECTION_SW_NAME c \<longleftrightarrow>
    ci_host_traddr c \<noteq> ''invalid'' \<and> cc_protocol c \<noteq> 0"
  by (simp add: snsd_check_necessary_def command_line_options_def str_opt_def int_opt_def opt_def
      is_default_def SNSD_SECTION_SW_NAME_def SNSD_SECTION_BASE_NAME_def Let_def)

lemma necessary_dc: "snsd_check_necessary SNSD_SECTION_DC_NAME c \<longleftrightarrow>
    ci_traddr c \<noteq> ''invalid'' \<and> ci_host_traddr c \<noteq> ''invalid'' \<and> cc_protocol c \<noteq> 0"
  by (simp add: snsd_check_necessary_def command_line_options_def str_opt_def int_opt_def opt_def
      is_default_def SNSD_SECTION_SW_NAME_def SNSD_SECTION_DC_NAME_def SNSD_SECTION_BASE_NAME_def Let_def)

lemma add_one_cfg_inv:
  assumes "snsd_add_one_cfg env sec s = (s', r)" and "line_inv env s"
  shows "line_inv env s'"
proof -
  have sw: "snsd_check_necessary sec (cs_cfg s) \<Longrightarrow> sec = SNSD_SECTION_SW_NAME \<Longrightarrow>
      stored_ok env SNSD_MODE_SW (cs_cfg s\<lparr>ci_mode := SNSD_MODE_SW\<rparr>)"
    using assms(2) by (simp add: necessary_sw stored_ok_def cfg_inv_defs)
  have dc: "snsd_check_necessary sec (cs_cfg s) \<Longrightarrow> sec = SNSD_SECTION_DC_NAME \<Longrightarrow>
      stored_ok env SNSD_MODE_DC (cs_cfg s\<lparr>ci_mode := SNSD_MODE_DC\<rparr>)"
    using assms(2) by (simp add: necessary_dc stored_ok_def cfg_inv_defs)
  show ?thesis
    using assms sw dc by (auto simp: snsd_add_one_cfg_def cfg_inv_defs Let_def split: if_splits)
qed

interpretation form: section_inv env sec "stored_inv env" "line_inv env" for env :: "'k cfg_env" and sec
proof
  show "line_inv env s'" if "snsd_save_one_item env sec name val s = (s', r)" "line_inv env s" for name val s s' r
    using that by (rule save_one_item_inv)
  show "line_inv env (s\<lparr>cs_cfg := snsd_init_cfg\<rparr>)" if "stored_inv env s" for s
    using that by (simp add: cfg_inv_defs)
  show "stored_inv env s" if "line_inv env s" for s
    using that by (simp add: line_inv_def)
  show "line_inv env s'" if "snsd_add_one_cfg env sec s = (s', r)" "line_inv env s" for s s' r
    using that by (rule add_one_cfg_inv)
qed

text \<open>The base section adds no item to the lists.\<close>

lemma check_and_save_lists:
  assumes "snsd_check_and_save env upd cl v s = (s', r)"
    and "\<And>f s. cs_sw_list (upd f s) = cs_sw_list s \<and> cs_dc_list (upd f s) = cs_dc_list s"
  shows "cs_sw_list s' = cs_sw_list s \<and> cs_dc_list s' = cs_dc_list s"
  using assms by (cases "cl_check_validity cl")
    (auto simp: snsd_check_and_save_def check_validity_def Let_def
      split: cfg_slot.splits if_splits prod.splits option.splits)

lemma save_one_item_lists:
  assumes "snsd_save_one_item env sec name val s = (s', r)"
  shows "cs_sw_list s' = cs_sw_list s \<and> cs_dc_list s' = cs_dc_list s"
  using assms
  by (auto simp: snsd_save_one_item_def dest: check_and_save_lists split: if_splits option.splits)

interpretation base_lists: section_inv env SNSD_SECTION_BASE_NAME
    "\<lambda>s. cs_sw_list s = sw \<and> cs_dc_list s = dc" "\<lambda>s. cs_sw_list s = sw \<and> cs_dc_list s = dc" for env :: "'k cfg_env" and sw dc
proof
  show "cs_sw_list s' = sw \<and> cs_dc_list s' = dc"
    if "snsd_save_one_item env SNSD_SECTION_BASE_NAME name val s = (s', r)" "cs_sw_list s = sw \<and> cs_dc_list s = dc"
    for name val s s' r
    using save_one_item_lists [OF that(1)] that(2) by simp
  show "cs_sw_list s' = sw \<and> cs_dc_list s' = dc"
    if "snsd_add_one_cfg env SNSD_SECTION_BASE_NAME s = (s', r)" "cs_sw_list s = sw \<and> cs_dc_list s = dc"
    for s s' r
    using that by (auto simp: snsd_add_one_cfg_def SNSD_SECTION_BASE_NAME_def SNSD_SECTION_SW_NAME_def
        SNSD_SECTION_DC_NAME_def Let_def split: if_splits)
qed simp

lemma hostnqn_init_inv:
  assumes "snsd_hostnqn_init env s = (s', r)" and "stored_inv env s"
  shows "stored_inv env s'"
proof -
  have gen: "stored_inv env s1 \<and> cs_hostnqn s1 = cs_hostnqn s" if "snsd_gen_hostnqn env s = (s1, r1)" for s1 r1
    using that assms(2) by (auto simp: snsd_gen_hostnqn_def cfg_inv_defs Let_def split: option.splits if_splits)
  have put: "hostnqn_ok buf'" if "snsd_get_hostnqn s1 buf = Some buf'" "hostnqn_ok buf" for s1 :: "'a cfg_sys" and buf buf'
  proof -
    from that(1) obtain f line where line: "fgets SNSD_NQN_MAX_LEN f = Some line"
      "buf' = mem_put 0 (takeWhile (\<lambda>c. c \<noteq> LF) (cstring line)) buf"
      unfolding snsd_get_hostnqn_def by (auto split: option.splits)
    have "length line < SNSD_NQN_MAX_LEN" using line(1) by (auto simp: fgets_def Let_def split: if_splits)
    moreover have "length (takeWhile (\<lambda>c. c \<noteq> LF) (cstring line)) \<le> length line"
      unfolding cstring_def by (meson length_takeWhile_le le_trans)
    ultimately show ?thesis unfolding line(2) by (intro hostnqn_ok_put that(2)) simp
  qed
  obtain s1 r1 where g: "(if cs_nqn_file s = None then snsd_gen_hostnqn env s else (s, Inr ())) = (s1, r1)"
    by fastforce
  then have inv: "stored_inv env s1" using assms(2) gen by (auto split: if_splits)
  have "stored_inv env (s1\<lparr>cs_hostnqn := b\<rparr>)" if "snsd_get_hostnqn s1 (cs_hostnqn s1) = Some b" for b
    using put [OF that] inv by (simp add: cfg_inv_defs)
  with assms(1) inv show ?thesis
    unfolding snsd_hostnqn_init_def g by (auto split: sum.splits if_splits option.splits)
qed

lemma init_globals_inv [simp]: "stored_inv env (init_globals s)"
  by (simp add: cfg_inv_defs init_globals_def hostnqn_ok_def)

lemma free_space_lists [simp]:
  "cs_sw_list (snsd_cfg_free_space s) = []" "cs_dc_list (snsd_cfg_free_space s) = []"
  by (simp_all add: snsd_cfg_free_space_def)

lemma init_cases:
  assumes "snsd_cfg_init env s = Some (s', r)"
  obtains s1 e where "snsd_get_section_info env SNSD_SECTION_BASE_NAME (init_globals s) = Some (s1, e)"
    "cs_sw_list s' = []" "cs_dc_list s' = []" "r = Inl EPERM"
  | s0 s1 s2 where
    "snsd_get_section_info env SNSD_SECTION_BASE_NAME (init_globals s) = Some (s0, Inr ())"
    "snsd_get_section_info env SNSD_SECTION_SW_NAME s0 = Some (s1, Inr ())"
    "snsd_get_section_info env SNSD_SECTION_DC_NAME s1 = Some (s2, Inr ())"
    "snsd_hostnqn_init env s2 = (s', Inr ())" "snsd_check_conflict (ce_head_text env) s'" "r = Inr ()"
proof (cases "snsd_get_section_info env SNSD_SECTION_BASE_NAME (init_globals s)")
  case None
  with assms show thesis by (simp add: snsd_cfg_init_def)
next
  case (Some p)
  obtain s0 e where base: "snsd_get_section_info env SNSD_SECTION_BASE_NAME (init_globals s) = Some (s0, e)"
    using Some by (cases p) simp
  have l: "cs_sw_list s0 = []" "cs_dc_list s0 = []"
    using base_lists.section_info [OF base] by (auto simp: init_globals_def)
  show thesis
  proof (cases r)
    case (Inl x)
    have "cs_sw_list s' = [] \<and> cs_dc_list s' = [] \<and> r = Inl EPERM"
      using assms l Inl base
      by (auto simp: snsd_cfg_init_def Let_def split: sum.splits option.splits prod.splits if_splits)
    then show thesis using that(1) [OF base] by simp
  next
    case (Inr x)
    then have "r = Inr ()" by simp
    with assms base show thesis
      by (auto simp: snsd_cfg_init_def Let_def intro!: that(2)
          split: sum.splits option.splits prod.splits if_splits)
  qed
qed

text \<open>
  C7: the start of the configuration: if it succeeds, every stored item has a checked host address and a
  known protocol, direct items a checked target address as well, every string fits its array and
  every number 32 bits, and the host addresses are distinct.  If it fails, no item is left.
\<close>

theorem snsd_cfg_init_form:
  assumes "snsd_cfg_init env s = Some (s', r)"
  shows "if r = Inr () then stored_inv env s' \<and>
      distinct (List.map ci_host_traddr (cs_sw_list s' @ cs_dc_list s'))
    else r = Inl EPERM \<and> cs_sw_list s' = [] \<and> cs_dc_list s' = []"
  using assms(1)
proof (cases rule: init_cases)
  case (2 s0 s1 s2)
  have "stored_inv env s0" using form.section_info [OF 2(1)] by simp
  then have "stored_inv env s2" using form.section_info 2(2,3) by blast
  then have "stored_inv env s'" by (rule hostnqn_init_inv [OF 2(4)])
  moreover have "distinct (List.map ci_host_traddr (cs_sw_list s' @ cs_dc_list s'))"
    by (rule check_conflict_distinct [OF 2(5)])
  ultimately show ?thesis using 2(6) by simp
qed simp

definition sample_file :: string where
  "sample_file = render_sections [
    (''BASE'', [LF] @ ''restrain-time = 5'' @ [LF]),
    (''SW'', [LF] @ ''host-traddr = 10.0.0.1 | protocol = roce'' @ [LF]),
    (''DC'', [LF] @ ''; none'' @ [LF])]"

lemma sample_init:
  "map_option (\<lambda>(s, r). (r, List.map ci_host_traddr (cs_sw_list s)))
    (snsd_cfg_init (sample_cfg_env sample_file) (cfg_globals None ())) = Some (Inr (), [''10.0.0.1''])"
  by code_simp

theorem snsd_cfg_init_form_witness:
  "\<exists>s. snsd_cfg_init (sample_cfg_env sample_file) (cfg_globals None ()) = Some (s, Inr ()) \<and>
    List.map ci_host_traddr (cs_sw_list s) = [''10.0.0.1''] \<and>
    stored_inv (sample_cfg_env sample_file) s"
proof -
  obtain s where s: "snsd_cfg_init (sample_cfg_env sample_file) (cfg_globals None ()) = Some (s, Inr ())"
    "List.map ci_host_traddr (cs_sw_list s) = [''10.0.0.1'']"
    using sample_init by auto
  with snsd_cfg_init_form [OF s(1)] show ?thesis by auto
qed

section \<open>Two host names\<close>

text \<open>
  A second name for the host in the base section is copied over the first without its terminator:
  if it is shorter, the name used for connections is the new one followed by the tail of the old
  one, while \<open>base_cfg\<close> holds the new one.
\<close>

theorem second_hostnqn_keeps_tail:
  fixes env :: "'k cfg_env"
  assumes "length a < SNSD_NQN_MAX_LEN" and "length b \<le> length a" and "NUL \<notin> set (a @ b)"
    and "cs_hostnqn s = replicate SNSD_NQN_MAX_LEN NUL"
  defines "put \<equiv> \<lambda>v s. fst (snsd_save_one_item env SNSD_SECTION_BASE_NAME ''hostnqn'' v s)"
  shows "snsd_get_base_hostnqn (put b (put a s)) = b @ drop (length b) a \<and>
    cc_hostnqn (cs_base (put b (put a s))) = b"
proof -
  have opt: "find_option ''hostnqn'' base_command_line_options =
    Some (str_opt ''--hostnqn'' SNSD_NQN_MAX_LEN cc_hostnqn cc_hostnqn_update snsd_check_base_hostnqn_validity ''hostnqn'')"
    by (simp add: find_option_def base_command_line_options_def str_opt_def int_opt_def opt_def)
  have put: "put v s = s\<lparr>cs_hostnqn := mem_put 0 v (cs_hostnqn s), cs_base := (cs_base s)\<lparr>cc_hostnqn := v\<rparr>\<rparr>"
    if "length v < SNSD_NQN_MAX_LEN" for v and s :: "'k cfg_sys"
    using that by (simp add: put_def snsd_save_one_item_def opt snsd_check_and_save_def
        check_validity_def str_opt_def opt_def)
  have "mem_put 0 b (mem_put 0 a (cs_hostnqn s)) =
      (b @ drop (length b) a) @ NUL # replicate (255 - length a) NUL"
  proof -
    obtain n where n: "256 - length a = Suc n" "255 - length a = n"
      using assms(1) by (cases "256 - length a") auto
    then show ?thesis using assms(1,2) by (simp add: mem_put_def assms(4))
  qed
  moreover have "NUL \<notin> set (b @ drop (length b) a)" using assms(3) by (auto dest: in_set_dropD)
  ultimately have "cstring (mem_put 0 b (mem_put 0 a (cs_hostnqn s))) = b @ drop (length b) a"
    by (simp only: cstring_terminated not_False_eq_True)
  with assms(1,2) show ?thesis by (simp add: put snsd_get_base_hostnqn_def)
qed

theorem second_hostnqn_keeps_tail_witness:
  "snsd_get_base_hostnqn (fst (snsd_save_one_item (sample_cfg_env []) SNSD_SECTION_BASE_NAME ''hostnqn'' ''nqn.b''
      (fst (snsd_save_one_item (sample_cfg_env []) SNSD_SECTION_BASE_NAME ''hostnqn'' ''nqn.host'' (cfg_globals None ())))))
    = ''nqn.bost''"
  using second_hostnqn_keeps_tail [of "''nqn.host''" "''nqn.b''" "cfg_globals None ()" "sample_cfg_env []"]
  by (simp add: cfg_globals_def)

section \<open>Long items\<close>

text \<open>
  An item, with its name and the equal sign, may have 127 characters: a longer one is refused before
  it is looked at, so of the names of hosts, which may have 255 characters, those of more than 119
  cannot be configured.
\<close>

theorem long_hostnqn_refused:
  assumes "CHR ''|'' \<notin> set nqn"
  shows "snsd_get_format_info env sec (''hostnqn='' @ nqn) s = (s\<lparr>cs_cfg := snsd_init_cfg\<rparr>, Inl ENOMEM) \<longleftrightarrow>
    119 < length nqn"
proof -
  define i where "i = ''hostnqn='' @ nqn"
  have tw: "takeWhile (\<lambda>c. c \<noteq> CHR ''|'') i = i"
    using assms by (auto simp: i_def takeWhile_eq_all_conv)
  have num: "snsd_get_format_num i = Suc 0" using assms by (simp add: i_def snsd_get_format_num_def)
  have len: "length i = length nqn + 8" by (simp add: i_def)
  have no_memory: "snsd_get_item_info env sec w s' \<noteq> (s'', Inl ENOMEM)" for w s' s''
    by (auto simp: snsd_get_item_info_def split: prod.splits scan_result.splits list.splits sum.splits if_splits)
  have add: "snd (case snsd_add_one_cfg env sec s' of (s, Inl _) \<Rightarrow> (s, Inl EPERM) | (s, Inr _) \<Rightarrow> (s, Inr ()))
      \<noteq> Inl ENOMEM" for s'
    by (auto split: prod.splits sum.splits)
  have "snsd_get_format_info env sec i s = (s\<lparr>cs_cfg := snsd_init_cfg\<rparr>, Inl ENOMEM) \<longleftrightarrow> 119 < length nqn"
  proof (cases "119 < length nqn")
    case True
    then have "snsd_split_with_symbol i = Inl ENOMEM"
      unfolding snsd_split_with_symbol_def Let_def tw using len by simp
    then show ?thesis using True by (simp add: snsd_get_format_info_def num)
  next
    case False
    then have "\<exists>r. snsd_split_with_symbol i = Inr (i, r)"
      unfolding snsd_split_with_symbol_def Let_def tw using len by simp
    then obtain r where "snsd_split_with_symbol i = Inr (i, r)" ..
    then show ?thesis using False no_memory add
      by (auto simp: snsd_get_format_info_def num split: prod.splits sum.splits)
  qed
  then show ?thesis by (simp only: i_def)
qed

theorem long_hostnqn_refused_witness:
  "snsd_get_format_info (sample_cfg_env []) SNSD_SECTION_SW_NAME (''hostnqn='' @ replicate 120 (CHR ''n''))
    (cfg_globals None ()) = ((cfg_globals None ())\<lparr>cs_cfg := snsd_init_cfg\<rparr>, Inl ENOMEM)"
  using long_hostnqn_refused [of "replicate 120 (CHR ''n'')"] by simp

end
