(* ===== verification/Snsd_Conn_Nvme.thy ===== *)
theory Snsd_Conn_Nvme
  imports Snsd_Cfg_Init Snsd_Nvme Snsd_Connect
begin

text \<open>
  \<open>src/snsd_conn_nvme.c\<close>: the handlers of connect, disconnect and batch disconnect tasks for
  NVMe over RoCE.

  The kernel is a parameter with a state of type \<open>'k\<close>: the directory of controllers (its names
  in the order of \<open>alphasort\<close>), their attribute files, their removal, the device files, and the
  conversion of addresses.  \<open>None\<close> is an access outside a buffer or through a null pointer.

  Texts in the arrays of a context are strings.  The code copies the parts of the kernel's address
  attribute into them with \<open>strcpy\<close>, without looking at their lengths.
\<close>

definition SNSD_DEVICE_NAME_SIZE :: nat where [simp]: "SNSD_DEVICE_NAME_SIZE = 32"
definition SNSD_NVME_TRANSPORT_LEN :: nat where [simp]: "SNSD_NVME_TRANSPORT_LEN = 8"
definition SNSD_NVME_TRSVCID_LEN :: nat where [simp]: "SNSD_NVME_TRSVCID_LEN = 8"
definition SNSD_NVME_RDMA_TRSVCID :: u16 where [simp]: "SNSD_NVME_RDMA_TRSVCID = 4420"
definition SNSD_NVME_PATH_SYSDIR :: string where "SNSD_NVME_PATH_SYSDIR = ''nvme''"
definition SNSD_NVME_DISCOVERY_SUBNQN :: string where
  "SNSD_NVME_DISCOVERY_SUBNQN = ''nqn.2014-08.org.nvmexpress.discovery''"
definition SNSD_NVME_TRANSPORT_RDMA :: string where "SNSD_NVME_TRANSPORT_RDMA = ''rdma''"
definition SNSD_NVME_TRANSPORT_TCP :: string where "SNSD_NVME_TRANSPORT_TCP = ''tcp''"
definition SNSD_NVME_KEEPALIVE_TIMEO :: u32 where [simp]: "SNSD_NVME_KEEPALIVE_TIMEO = 100"
definition SNSD_NVME_KEEPALIVE_RETRY_TIMES :: nat where [simp]: "SNSD_NVME_KEEPALIVE_RETRY_TIMES = 100"
definition EFAULT_code :: int where [simp]: "EFAULT_code = 14"
definition ENOENT_code :: int where [simp]: "ENOENT_code = 2"

datatype ctrl_state =
    SNSD_NVME_CTRL_STATE_LIVE
  | SNSD_NVME_CTRL_STATE_FAULT
  | SNSD_NVME_CTRL_STATE_NOT_EXIST
  | SNSD_NVME_CTRL_STATE_UNKNOWN

record nvme_ctx =
  cx_transport :: string
  cx_trsvcid :: string
  cx_traddr :: string
  cx_host_traddr :: string
  cx_subsysnqn :: string
  cx_protocol :: nat
  cx_mode :: snsd_mode
  cx_dname :: string

definition zero_ctx :: nvme_ctx where
  "zero_ctx = \<lparr>cx_transport = [], cx_trsvcid = [], cx_traddr = [], cx_host_traddr = [],
    cx_subsysnqn = [], cx_protocol = 0, cx_mode = SNSD_MODE_SW, cx_dname = []\<rparr>"

text \<open>An entry of the discovery log; the texts are the whole arrays.\<close>

record disc_entry =
  de_trtype :: nat
  de_adrfam :: nat
  de_subtype :: nat
  de_trsvcid :: string
  de_subnqn :: string
  de_traddr :: string

record 'k nvme_kernel = "'k fabrics" +
  nk_dir :: "'k \<Rightarrow> string list option"
  nk_attr :: "string \<Rightarrow> string \<Rightarrow> 'k \<Rightarrow> int + string"
  nk_exists :: "string \<Rightarrow> 'k \<Rightarrow> bool"
  nk_delete :: "string \<Rightarrow> 'k \<Rightarrow> 'k \<times> int"
  nk_nvme :: "string \<Rightarrow> 'k \<Rightarrow> ('k, disc_entry) nvme_env"
  nk_ntop :: "nat \<Rightarrow> u8 list \<Rightarrow> string option"
  nk_pton :: "nat \<Rightarrow> string \<Rightarrow> u8 list option"
  nk_calloc :: bool

section \<open>Looking at the controllers\<close>

definition snsd_nvme_ctrl_is_discovery :: "nvme_ctx \<Rightarrow> bool" where
  "snsd_nvme_ctrl_is_discovery ctx \<longleftrightarrow> cx_subsysnqn ctx = SNSD_NVME_DISCOVERY_SUBNQN"

definition snsd_nvme_ctrl_match :: "nvme_ctx \<Rightarrow> nvme_ctx \<Rightarrow> bool" where
  "snsd_nvme_ctrl_match ctx1 ctx2 \<longleftrightarrow> cx_transport ctx1 = cx_transport ctx2 \<and>
    cx_trsvcid ctx1 = cx_trsvcid ctx2 \<and> cx_traddr ctx1 = cx_traddr ctx2 \<and>
    cx_host_traddr ctx1 = cx_host_traddr ctx2"

definition snsd_nvme_ctrl_match_batch :: "nvme_ctx \<Rightarrow> nvme_ctx \<Rightarrow> bool" where
  "snsd_nvme_ctrl_match_batch ctx1 ctx2 \<longleftrightarrow> cx_transport ctx1 = cx_transport ctx2 \<and>
    cx_host_traddr ctx1 = cx_host_traddr ctx2"

text \<open>
  \<open>snsd_nvme_ctrl_read_attr\<close>: the first line of the attribute.  For an empty attribute the code
  looks at, and may clear, the byte in front of the buffer; the text is empty all the same.
\<close>

definition snsd_nvme_ctrl_read_attr ::
  "('k, 'z) nvme_kernel_scheme \<Rightarrow> string \<Rightarrow> string \<Rightarrow> nat \<Rightarrow> 'k \<Rightarrow> int + string" where
  "snsd_nvme_ctrl_read_attr env dname attr max_len k =
    (case nk_attr env dname attr k of
       Inl err \<Rightarrow> Inl (- err)
     | Inr content \<Rightarrow>
         let buf = cstring (take (max_len - 1) content)
         in Inr (if buf \<noteq> [] \<and> last buf = LF then butlast buf else buf))"

definition address_part :: "nvme_ctx \<Rightarrow> string \<Rightarrow> nvme_ctx" where
  "address_part ctx p =
    (if p = [] then ctx
     else if is_prefix ''traddr='' p then ctx\<lparr>cx_traddr := drop (length ''traddr='') p\<rparr>
     else if is_prefix ''trsvcid='' p then ctx\<lparr>cx_trsvcid := drop (length ''trsvcid='') p\<rparr>
     else if is_prefix ''host_traddr='' p then ctx\<lparr>cx_host_traddr := drop (length ''host_traddr='') p\<rparr>
     else ctx)"

definition snsd_nvme_ctrl_parse_address :: "string \<Rightarrow> nvme_ctx \<Rightarrow> nvme_ctx" where
  "snsd_nvme_ctrl_parse_address address ctx =
    foldl address_part (ctx\<lparr>cx_traddr := [], cx_trsvcid := [], cx_host_traddr := []\<rparr>)
      (pieces comma_or_lf address)"

definition snsd_nvme_ctrl_profile ::
  "('k, 'z) nvme_kernel_scheme \<Rightarrow> string \<Rightarrow> 'k \<Rightarrow> nvme_ctx option" where
  "snsd_nvme_ctrl_profile env dname k =
    (case snsd_nvme_ctrl_read_attr env dname ''subsysnqn'' SNSD_NQN_MAX_LEN k of
       Inl _ \<Rightarrow> None
     | Inr nqn \<Rightarrow>
         (case snsd_nvme_ctrl_read_attr env dname ''transport'' SNSD_NVME_TRANSPORT_LEN k of
            Inl _ \<Rightarrow> None
          | Inr transport \<Rightarrow>
              (case snsd_nvme_ctrl_read_attr env dname ''address'' SNSD_BUF_SIZE k of
                 Inl _ \<Rightarrow> None
               | Inr address \<Rightarrow> Some (snsd_nvme_ctrl_parse_address address
                   (zero_ctx\<lparr>cx_subsysnqn := nqn, cx_transport := transport\<rparr>)))))"

definition snsd_nvme_ctrl_read_state ::
  "('k, 'z) nvme_kernel_scheme \<Rightarrow> string \<Rightarrow> 'k \<Rightarrow> ctrl_state" where
  "snsd_nvme_ctrl_read_state env dname k =
    (case snsd_nvme_ctrl_read_attr env dname ''state'' SNSD_BUF_SIZE k of
       Inl _ \<Rightarrow> SNSD_NVME_CTRL_STATE_UNKNOWN
     | Inr state \<Rightarrow> if state = ''live'' then SNSD_NVME_CTRL_STATE_LIVE else SNSD_NVME_CTRL_STATE_FAULT)"

definition snsd_nvme_ctrl_scan :: "string \<Rightarrow> bool" where
  "snsd_nvme_ctrl_scan d_name \<longleftrightarrow> is_prefix SNSD_NVME_PATH_SYSDIR d_name"

text \<open>The state of the controller of a path, and the name the code leaves in \<open>dname\<close>.\<close>

fun find_loop ::
  "('k, 'z) nvme_kernel_scheme \<Rightarrow> nvme_ctx \<Rightarrow> string list \<Rightarrow> 'k \<Rightarrow> ctrl_state \<times> string" where
  "find_loop env ctx [] k = (SNSD_NVME_CTRL_STATE_NOT_EXIST, [])"
| "find_loop env ctx (d_name # ctrls) k =
    (case snsd_nvme_ctrl_profile env d_name k of
       None \<Rightarrow> (SNSD_NVME_CTRL_STATE_UNKNOWN, [])
     | Some nctx \<Rightarrow>
         if snsd_nvme_ctrl_is_discovery nctx then find_loop env ctx ctrls k
         else if strstr (cx_subsysnqn nctx) ''null'' \<noteq> None then find_loop env ctx ctrls k
         else if \<not> snsd_nvme_ctrl_match ctx nctx then find_loop env ctx ctrls k
         else (snsd_nvme_ctrl_read_state env d_name k, snprintf_text SNSD_DEVICE_NAME_SIZE d_name))"

definition snsd_nvme_ctrl_find ::
  "('k, 'z) nvme_kernel_scheme \<Rightarrow> nvme_ctx \<Rightarrow> 'k \<Rightarrow> ctrl_state \<times> string" where
  "snsd_nvme_ctrl_find env ctx k =
    (case nk_dir env k of
       None \<Rightarrow> (SNSD_NVME_CTRL_STATE_UNKNOWN, [])
     | Some names \<Rightarrow> find_loop env ctx (List.filter snsd_nvme_ctrl_scan names) k)"

definition snsd_nvme_ctrl_remove ::
  "('k, 'z) nvme_kernel_scheme \<Rightarrow> string \<Rightarrow> 'k \<Rightarrow> 'k \<times> int" where
  "snsd_nvme_ctrl_remove env dname k = (case nk_delete env dname k of (k, err) \<Rightarrow> (k, - err))"

section \<open>Discovery\<close>

definition snsd_strip_tail_space :: "string \<Rightarrow> string" where
  "snsd_strip_tail_space str =
    (let t = rev (dropWhile (\<lambda>c. c = CHR '' '' \<or> c = NUL) (rev str))
     in t @ replicate (length str - length t) NUL)"

definition snsd_nvme_disc_refurbish_log :: "disc_entry list \<Rightarrow> disc_entry list" where
  "snsd_nvme_disc_refurbish_log entries = List.map (\<lambda>e.
    e\<lparr>de_trsvcid := snsd_strip_tail_space (de_trsvcid e), de_traddr := snsd_strip_tail_space (de_traddr e)\<rparr>)
    entries"

definition snsd_nvme_trtype_to_str :: "nat \<Rightarrow> string" where
  "snsd_nvme_trtype_to_str trtype =
    (if trtype = 1 then SNSD_NVME_TRANSPORT_RDMA
     else if trtype = 3 then SNSD_NVME_TRANSPORT_TCP else ''unsupport'')"

definition str_match :: "('k, 'z) nvme_kernel_scheme \<Rightarrow> nat \<Rightarrow> string \<Rightarrow> string \<Rightarrow> bool" where
  "str_match env family ip1 ip2 \<longleftrightarrow>
    (case (nk_pton env family ip1, nk_pton env family ip2) of
       (Some a, Some b) \<Rightarrow> a = b
     | _ \<Rightarrow> False)"

definition snsd_nvme_disc_log_entry_match ::
  "('k, 'z) nvme_kernel_scheme \<Rightarrow> nvme_ctx \<Rightarrow> disc_entry \<Rightarrow> bool" where
  "snsd_nvme_disc_log_entry_match env ctx entry \<longleftrightarrow>
    (if de_subtype entry = 2 \<and> snsd_nvme_trtype_to_str (de_trtype entry) = cx_transport ctx \<and>
        cstring (de_trsvcid entry) = cx_trsvcid ctx
     then
       (if de_adrfam entry = 1 \<and> str_match env AF_INET (cstring (de_traddr entry)) (cx_traddr ctx) then True
        else if de_adrfam entry = 2 \<and> str_match env AF_INET6 (cstring (de_traddr entry)) (cx_traddr ctx) then True
        else False)
     else False)"

definition snsd_nvme_disc_get_log ::
  "('k, 'z) nvme_kernel_scheme \<Rightarrow> string \<Rightarrow> 'k \<Rightarrow> 'k \<times> (int + disc_entry disc_log)" where
  "snsd_nvme_disc_get_log env arg_buf k =
    (case snsd_nvme_ctrl_create env arg_buf k of (k, inst) \<Rightarrow>
       if inst < 0 then (k, Inl inst)
       else
         let dname = snprintf_text SNSD_DEVICE_NAME_SIZE (''nvme'' @ dec_int inst) in
         case nvme_discovery_log (nk_nvme env (''/dev/'' @ dname) k) k of (k, r) \<Rightarrow>
           let ret = (case r of Inl _ \<Rightarrow> Inl (- EFAULT_code) | Inr log \<Rightarrow> Inr log)
           in (fst (snsd_nvme_ctrl_remove env dname k), ret))"

definition disc_address :: "nvme_ctx \<Rightarrow> string" where
  "disc_address ctx = ''traddr='' @ cx_traddr ctx @ '',host_traddr='' @ cx_host_traddr ctx @
    '',transport='' @ cx_transport ctx @ '',trsvcid='' @ cx_trsvcid ctx @
    '',nqn='' @ SNSD_NVME_DISCOVERY_SUBNQN"

definition snsd_nvme_disc_get_subsysnqn ::
  "('k, 'z) nvme_kernel_scheme \<Rightarrow> nvme_ctx \<Rightarrow> 'k \<Rightarrow> 'k \<times> nvme_ctx \<times> int" where
  "snsd_nvme_disc_get_subsysnqn env ctx k =
    (case snsd_nvme_disc_get_log env (snprintf_text SNSD_BUF_SIZE (disc_address ctx)) k of
       (k, Inl ret) \<Rightarrow> (k, ctx, ret)
     | (k, Inr log) \<Rightarrow>
         (case find (snsd_nvme_disc_log_entry_match env ctx)
             (take (unat (dl_numrec log)) (snsd_nvme_disc_refurbish_log (dl_entries log))) of
            None \<Rightarrow> (k, ctx, - EINVAL_code)
          | Some entry \<Rightarrow>
              (k, ctx\<lparr>cx_subsysnqn := take (SNSD_NQN_MAX_LEN - 1) (cstring (de_subnqn entry))\<rparr>, 0)))"

section \<open>The options of a connection\<close>

text \<open>
  \<open>snprintf(*argstr, *max_len, ...)\<close> with the pointer and the room advanced by what it returns:
  the text in the buffer and the room left.  Without room nothing is written; a negative room is a
  huge one for \<open>snprintf\<close>, which then writes outside the buffer.
\<close>

type_synonym arg_out = "string \<times> int"

definition arg_printf :: "string \<Rightarrow> arg_out \<Rightarrow> arg_out option" where
  "arg_printf s out = (case out of (text, max_len) \<Rightarrow>
    if max_len < 0 then None
    else Some (text @ take (nat max_len - 1) s, max_len - int (length s)))"

definition snsd_nvme_add_argument :: "string \<Rightarrow> string \<Rightarrow> string \<Rightarrow> arg_out \<Rightarrow> arg_out option" where
  "snsd_nvme_add_argument cfg_para_val base_para_val para_name out =
    (if cfg_para_val \<noteq> ''invalid'' then arg_printf ('','' @ para_name @ ''='' @ cfg_para_val) out
     else if base_para_val \<noteq> ''invalid'' then arg_printf ('','' @ para_name @ ''='' @ base_para_val) out
     else Some out)"

definition snsd_nvme_add_int_argument :: "int \<Rightarrow> int \<Rightarrow> string \<Rightarrow> arg_out \<Rightarrow> arg_out option" where
  "snsd_nvme_add_int_argument cfg_para_val base_para_val para_name out =
    (if cfg_para_val \<noteq> - 1 then arg_printf ('','' @ para_name @ ''='' @ dec_int cfg_para_val) out
     else if base_para_val \<noteq> - 1 then arg_printf ('','' @ para_name @ ''='' @ dec_int base_para_val) out
     else Some out)"

definition snsd_nvme_add_noarg_argument :: "int \<Rightarrow> int \<Rightarrow> string \<Rightarrow> arg_out \<Rightarrow> arg_out option" where
  "snsd_nvme_add_noarg_argument cfg_para_val base_para_val para_name out =
    (if cfg_para_val \<noteq> - 1 then arg_printf ('','' @ para_name) out
     else if base_para_val \<noteq> - 1 then arg_printf ('','' @ para_name) out
     else Some out)"

definition snsd_nvme_add_hostnqn :: "'k cfg_sys \<Rightarrow> string \<Rightarrow> string \<Rightarrow> arg_out \<Rightarrow> arg_out option" where
  "snsd_nvme_add_hostnqn cfg cfg_hostnqn name_hostnqn out =
    (if cfg_hostnqn \<noteq> ''invalid'' then arg_printf ('','' @ name_hostnqn @ ''='' @ cfg_hostnqn) out
     else arg_printf ('','' @ name_hostnqn @ ''='' @ snsd_get_base_hostnqn cfg) out)"

definition ctx_options :: "nvme_ctx \<Rightarrow> string" where
  "ctx_options ctx = ''traddr='' @ cx_traddr ctx @ '',host_traddr='' @ cx_host_traddr ctx @
    '',transport='' @ cx_transport ctx @ '',trsvcid='' @ cx_trsvcid ctx @ '',nqn='' @ cx_subsysnqn ctx"

text \<open>The calls in the order of the code; the first access outside the buffer ends the program.\<close>

definition fill_steps :: "'k cfg_sys \<Rightarrow> cfg_infos \<Rightarrow> base_cfg \<Rightarrow> (arg_out \<Rightarrow> arg_out option) list" where
  "fill_steps cfg c b = [
    snsd_nvme_add_hostnqn cfg (cc_hostnqn c) ''hostnqn'',
    snsd_nvme_add_argument (cc_hostid c) (cc_hostid b) ''hostid'',
    snsd_nvme_add_int_argument (cc_nr_io_queues c) (cc_nr_io_queues b) ''nr_io_queues'',
    snsd_nvme_add_int_argument (cc_nr_write_queues c) (cc_nr_write_queues b) ''nr_write_queues'',
    snsd_nvme_add_int_argument (cc_nr_poll_queues c) (cc_nr_poll_queues b) ''nr_poll_queues'',
    snsd_nvme_add_int_argument (cc_queue_size c) (cc_queue_size b) ''queue_size'',
    snsd_nvme_add_int_argument (cc_keep_alive_tmo c) (cc_keep_alive_tmo b) ''keep_alive_tmo'',
    snsd_nvme_add_int_argument (cc_reconnect_delay c) (cc_reconnect_delay b) ''reconnect_delay'',
    snsd_nvme_add_int_argument (cc_ctrl_loss_tmo c) (cc_ctrl_loss_tmo b) ''ctrl_loss_tmo'',
    snsd_nvme_add_noarg_argument (cc_duplicate_connect c) (cc_duplicate_connect b) ''duplicate_connect'',
    snsd_nvme_add_noarg_argument (cc_disable_sqflow c) (cc_disable_sqflow b) ''disable_sqflow'',
    snsd_nvme_add_noarg_argument (cc_hdr_digest c) (cc_hdr_digest b) ''hdr_digest'',
    snsd_nvme_add_noarg_argument (cc_data_digest c) (cc_data_digest b) ''data_digest'']"

definition run_steps :: "(arg_out \<Rightarrow> arg_out option) list \<Rightarrow> arg_out \<Rightarrow> arg_out option" where
  "run_steps steps out = foldl Option.bind (Some out) steps"

definition snsd_nvme_fill_arg ::
  "'k cfg_sys \<Rightarrow> cfg_infos \<Rightarrow> base_cfg \<Rightarrow> nvme_ctx \<Rightarrow> string option" where
  "snsd_nvme_fill_arg cfg cfg_info base_info ctx =
    Option.bind (arg_printf (ctx_options ctx) ([], int SNSD_BUF_SIZE)) (\<lambda>out.
    Option.bind (run_steps (fill_steps cfg cfg_info base_info) out) (\<lambda>out.
      if strstr (fst out) ''ctrl_loss_tmo='' = None
      then map_option fst (arg_printf '',ctrl_loss_tmo=1800'' out)
      else Some (fst out)))"

definition snsd_nvme_build_options :: "'k cfg_sys \<Rightarrow> nvme_ctx \<Rightarrow> string option" where
  "snsd_nvme_build_options cfg ctx =
    (case (case cx_mode ctx of
        SNSD_MODE_SW \<Rightarrow> snsd_find_sw_info (cx_host_traddr ctx) (int (cx_protocol ctx)) cfg
      | SNSD_MODE_DC \<Rightarrow> snsd_find_dc_info (cx_host_traddr ctx) (cx_traddr ctx) (int (cx_protocol ctx)) cfg) of
       None \<Rightarrow> None
     | Some cfg_info \<Rightarrow> snsd_nvme_fill_arg cfg cfg_info (snsd_get_base_info cfg) ctx)"

definition snsd_nvme_create ::
  "('k, 'z) nvme_kernel_scheme \<Rightarrow> 'c cfg_sys \<Rightarrow> nvme_ctx \<Rightarrow> 'k \<Rightarrow> ('k \<times> int) option" where
  "snsd_nvme_create env cfg ctx k =
    (case snsd_nvme_build_options cfg ctx of
       None \<Rightarrow> None
     | Some arg_buf \<Rightarrow>
         (case snsd_nvme_ctrl_create env arg_buf k of (k, inst) \<Rightarrow>
            Some (k, if inst < 0 then inst else 0)))"

section \<open>Contexts\<close>

definition snsd_nvme_transport :: "nat \<Rightarrow> string" where
  "snsd_nvme_transport protocol =
    (if protocol = SNSD_PROTOCOL_ROCE then SNSD_NVME_TRANSPORT_RDMA
     else if protocol = SNSD_PROTOCOL_TCP then SNSD_NVME_TRANSPORT_TCP else ''---'')"

definition snsd_nvme_ctx_nessary_init ::
  "('k, 'z) nvme_kernel_scheme \<Rightarrow> connect_param \<Rightarrow> nvme_ctx \<Rightarrow> nvme_ctx option" where
  "snsd_nvme_ctx_nessary_init env vparam ctx =
    (if cp_protocol vparam \<noteq> SNSD_PROTOCOL_ROCE \<and> cp_protocol vparam \<noteq> SNSD_PROTOCOL_TCP then None
     else
       let ctx = ctx\<lparr>cx_transport := take (SNSD_NVME_TRANSPORT_LEN - 1) (snsd_nvme_transport (cp_protocol vparam))\<rparr>;
           portid = cp_portid vparam in
       if cp_protocol vparam = SNSD_PROTOCOL_TCP \<and> portid = 0 then None
       else
         let portid = (if cp_protocol vparam = SNSD_PROTOCOL_ROCE \<and> portid = 0
                       then SNSD_NVME_RDMA_TRSVCID else portid);
             ctx = ctx\<lparr>cx_trsvcid := snprintf_text SNSD_NVME_TRSVCID_LEN (dec_int (uint portid))\<rparr> in
         case nk_ntop env (cp_family vparam) (cp_traddr vparam) of
           None \<Rightarrow> None
         | Some traddr \<Rightarrow>
             (case nk_ntop env (cp_family vparam) (cp_host_traddr vparam) of
                None \<Rightarrow> None
              | Some host_traddr \<Rightarrow> Some (ctx\<lparr>cx_traddr := traddr, cx_host_traddr := host_traddr,
                  cx_protocol := cp_protocol vparam, cx_mode := cp_mode vparam\<rparr>)))"

definition snsd_nvme_conn_ctx_init ::
  "('k, 'z) nvme_kernel_scheme \<Rightarrow> 'k \<Rightarrow> connect_param \<Rightarrow> u64 \<Rightarrow> nvme_ctx option" where
  "snsd_nvme_conn_ctx_init env k vparam sn =
    (if \<not> nk_calloc env then None else snsd_nvme_ctx_nessary_init env vparam zero_ctx)"

definition snsd_nvme_dis_ctx_init ::
  "('k, 'z) nvme_kernel_scheme \<Rightarrow> 'k \<Rightarrow> connect_param \<Rightarrow> u64 \<Rightarrow> nvme_ctx option" where
  "snsd_nvme_dis_ctx_init env k vparam sn =
    (if \<not> nk_calloc env then None else snsd_nvme_ctx_nessary_init env vparam zero_ctx)"

definition snsd_nvme_ctx_reinit :: "nvme_ctx \<Rightarrow> u64 \<Rightarrow> nvme_ctx" where
  "snsd_nvme_ctx_reinit ctx sn = ctx\<lparr>cx_dname := []\<rparr>"

definition snsd_nvme_ctx_init_batch ::
  "('k, 'z) nvme_kernel_scheme \<Rightarrow> 'k \<Rightarrow> connect_param \<Rightarrow> u64 \<Rightarrow> nvme_ctx option" where
  "snsd_nvme_ctx_init_batch env k param sn =
    (if \<not> nk_calloc env then None
     else
       let ctx = zero_ctx\<lparr>cx_transport := take (SNSD_NVME_TRANSPORT_LEN - 1) (snsd_nvme_transport (cp_protocol param))\<rparr>
       in map_option (\<lambda>host. ctx\<lparr>cx_host_traddr := host\<rparr>)
            (nk_ntop env (cp_family param) (cp_host_traddr param)))"

section \<open>Handlers\<close>

definition snsd_nvme_recheck :: "('k, 'z) nvme_kernel_scheme \<Rightarrow> 'k \<Rightarrow> nvme_ctx \<Rightarrow> int" where
  "snsd_nvme_recheck env k ctx = (if nk_exists env (cx_dname ctx) k then 0 else - ENOENT_code)"

definition snsd_nvme_do_connect ::
  "('k, 'z) nvme_kernel_scheme \<Rightarrow> 'c cfg_sys \<Rightarrow> nvme_ctx \<Rightarrow> 'k \<Rightarrow> ('k \<times> nvme_ctx \<times> int) option" where
  "snsd_nvme_do_connect env cfg ctx k =
    (case snsd_nvme_create env cfg ctx k of
       None \<Rightarrow> None
     | Some (k, ret) \<Rightarrow>
         (case snsd_nvme_ctrl_find env ctx k of (state, dname) \<Rightarrow>
            Some (if ret = 0 then
                    (if state = SNSD_NVME_CTRL_STATE_LIVE then (k, ctx\<lparr>cx_dname := dname\<rparr>, ret)
                     else (k, ctx, - EFAULT_code))
                  else (k, ctx, ret))))"

definition snsd_nvme_connect ::
  "('k, 'z) nvme_kernel_scheme \<Rightarrow> 'c cfg_sys \<Rightarrow> nvme_ctx \<Rightarrow> 'k \<Rightarrow> ('k \<times> nvme_ctx \<times> int) option" where
  "snsd_nvme_connect env cfg ctx k =
    (case (if cx_subsysnqn ctx = [] then snsd_nvme_disc_get_subsysnqn env ctx k else (k, ctx, 0)) of
       (k, ctx, ret) \<Rightarrow>
         if ret \<noteq> 0 then Some (k, ctx, ret)
         else (case snsd_nvme_ctrl_find env ctx k of (state, dname) \<Rightarrow>
           (case state of
              SNSD_NVME_CTRL_STATE_LIVE \<Rightarrow> Some (k, ctx\<lparr>cx_dname := dname\<rparr>, 0)
            | SNSD_NVME_CTRL_STATE_NOT_EXIST \<Rightarrow> snsd_nvme_do_connect env cfg ctx k
            | _ \<Rightarrow> Some (k, ctx, - EFAULT_code))))"

definition keep_alive_to :: "('k, 'z) nvme_kernel_scheme \<Rightarrow> string \<Rightarrow> u32 \<Rightarrow> 'k \<Rightarrow> 'k \<times> int" where
  "keep_alive_to env dpath timeout k = nvme_keep_alive (nk_nvme env dpath k) timeout k"

fun snsd_nvme_retry_keep_alive :: "('k, 'z) nvme_kernel_scheme \<Rightarrow> string \<Rightarrow> nat \<Rightarrow> 'k \<Rightarrow> 'k" where
  "snsd_nvme_retry_keep_alive env dpath 0 k = k"
| "snsd_nvme_retry_keep_alive env dpath (Suc n) k =
    (case keep_alive_to env dpath (of_nat SNSD_NVME_KEEPALIVE_RETRY_TIMES) k of (k, ret) \<Rightarrow>
       if ret \<noteq> 0 then k else snsd_nvme_retry_keep_alive env dpath n k)"

definition snsd_nvme_disconnect ::
  "('k, 'z) nvme_kernel_scheme \<Rightarrow> nvme_ctx \<Rightarrow> nat \<Rightarrow> 'k \<Rightarrow> 'k \<times> int" where
  "snsd_nvme_disconnect env ctx action_flag k =
    (case snsd_nvme_ctrl_find env ctx k of (state, dname) \<Rightarrow>
       if state = SNSD_NVME_CTRL_STATE_LIVE then
         let dpath = ''/dev/'' @ dname in
         (case keep_alive_to env dpath SNSD_NVME_KEEPALIVE_TIMEO k of (k, ret) \<Rightarrow>
            let state = fst (snsd_nvme_ctrl_find env ctx k) in
            if action_flag AND SNSD_DISCONNECT_FORCEDLY \<noteq> 0 \<and> state = SNSD_NVME_CTRL_STATE_LIVE
            then (fst (snsd_nvme_ctrl_remove env dname k), 0)
            else if ret = 0
            then (snsd_nvme_retry_keep_alive env dpath SNSD_NVME_KEEPALIVE_RETRY_TIMES k, 0)
            else (k, 0))
       else (k, 0))"

section \<open>Batch disconnect\<close>

text \<open>The NQN goes into the array of a connect request.\<close>

definition nqn_bytes :: "string \<Rightarrow> u8 list" where
  "nqn_bytes s = List.map of_char s @ replicate (SNSD_NQN_MAX_LEN - length s) 0"

definition disconn_param :: "('k, 'z) nvme_kernel_scheme \<Rightarrow> nvme_ctx \<Rightarrow> connect_param option" where
  "disconn_param env ctx =
    (case (if cx_transport ctx = SNSD_NVME_TRANSPORT_RDMA then Some SNSD_PROTOCOL_ROCE
           else if cx_transport ctx = SNSD_NVME_TRANSPORT_TCP then Some SNSD_PROTOCOL_TCP else None) of
       None \<Rightarrow> None
     | Some protocol \<Rightarrow>
         (case (case strtol_auto (cx_trsvcid ctx) of None \<Rightarrow> (0, cx_trsvcid ctx) | Some (v, r) \<Rightarrow> (v, r)) of
            (port, endptr) \<Rightarrow>
              if endptr \<noteq> [] then None
              else
                let family = (if CHR ''.'' \<in> set (cx_host_traddr ctx) then AF_INET else AF_INET6) in
                (case (nk_pton env family (cx_traddr ctx), nk_pton env family (cx_host_traddr ctx)) of
                   (Some traddr, Some host_traddr) \<Rightarrow>
                     Some (zero_connect_param\<lparr>cp_protocol := protocol, cp_portid := word_of_int port,
                       cp_family := family, cp_traddr := traddr, cp_host_traddr := host_traddr,
                       cp_subsysnqn := nqn_bytes (cx_subsysnqn ctx)\<rparr>)
                 | _ \<Rightarrow> None)))"

definition snsd_nvme_add_disconnect ::
  "('k, 'z) nvme_kernel_scheme \<Rightarrow> 'k peon_env \<Rightarrow> ('k, nvme_ctx) conn_toolbox \<Rightarrow> nvme_ctx \<Rightarrow> u64 \<Rightarrow>
    ('k, nvme_ctx) peon_sys \<Rightarrow> (('k, nvme_ctx) peon_sys \<times> unit result) call" where
  "snsd_nvme_add_disconnect env penv toolbox ctx sn s =
    (case disconn_param env ctx of
       None \<Rightarrow> Done (s, Inl EINVAL)
     | Some param \<Rightarrow> peon_add_disconn_task_inherit penv param sn toolbox s)"

fun batch_loop ::
  "('k, 'z) nvme_kernel_scheme \<Rightarrow> 'k peon_env \<Rightarrow> ('k, nvme_ctx) conn_toolbox \<Rightarrow> nvme_ctx \<Rightarrow> u64 \<Rightarrow>
    string list \<Rightarrow> 'k \<Rightarrow> ('k, nvme_ctx) peon_sys \<Rightarrow> ('k, nvme_ctx) peon_sys call" where
  "batch_loop env penv toolbox ctx sn [] k s = Done s"
| "batch_loop env penv toolbox ctx sn (d_name # ctrls) k s =
    (case snsd_nvme_ctrl_profile env d_name k of
       None \<Rightarrow> batch_loop env penv toolbox ctx sn ctrls k s
     | Some nctx \<Rightarrow>
         if snsd_nvme_ctrl_is_discovery nctx then batch_loop env penv toolbox ctx sn ctrls k s
         else if \<not> snsd_nvme_ctrl_match_batch ctx nctx then batch_loop env penv toolbox ctx sn ctrls k s
         else (case snsd_nvme_add_disconnect env penv toolbox nctx sn s of
             Stuck \<Rightarrow> Stuck
           | Done (s, _) \<Rightarrow> batch_loop env penv toolbox ctx sn ctrls k s))"

definition snsd_nvme_disconnect_batch ::
  "('k, 'z) nvme_kernel_scheme \<Rightarrow> 'k peon_env \<Rightarrow> ('k, nvme_ctx) conn_toolbox \<Rightarrow> nvme_ctx \<Rightarrow> u64 \<Rightarrow>
    'k \<Rightarrow> ('k, nvme_ctx) peon_sys \<Rightarrow> ('k, nvme_ctx) peon_sys call" where
  "snsd_nvme_disconnect_batch env penv toolbox ctx sn k s =
    (case nk_dir env k of
       None \<Rightarrow> Done s
     | Some names \<Rightarrow>
         batch_loop env penv toolbox ctx sn (List.filter snsd_nvme_ctrl_scan names) k s)"

section \<open>The template\<close>

text \<open>
  \<open>snsd_connect_roce\<close>.  The scheduler gives a handler the kernel's state and takes its return
  value and context.  What a handler does to the kernel is not visible to the scheduler, and what the
  batch handler does to the queues is \<open>snsd_nvme_disconnect_batch\<close>; it always returns 0.  Where
  a handler has no value (\<open>None\<close>) the program has crashed and no task follows.
\<close>

definition snsd_connect_roce :: "('k, 'z) nvme_kernel_scheme \<Rightarrow> 'c cfg_sys \<Rightarrow> ('k, nvme_ctx) connect_template" where
  "snsd_connect_roce env cfg = \<lparr>ct_protocol = SNSD_PROTOCOL_ROCE,
    ct_connect_toolbox = \<lparr>tb_ctx_init = Some (snsd_nvme_conn_ctx_init env),
      tb_handle = Some (\<lambda>k ctx flag sn. case ctx of
          None \<Rightarrow> (- EFAULT_code, None)
        | Some ctx \<Rightarrow> (case snsd_nvme_connect env cfg ctx k of
              None \<Rightarrow> (- EFAULT_code, Some ctx)
            | Some (_, ctx, ret) \<Rightarrow> (ret, Some ctx))),
      tb_recheck = Some (\<lambda>k ctx. case ctx of None \<Rightarrow> - ENOENT_code | Some ctx \<Rightarrow> snsd_nvme_recheck env k ctx),
      tb_ctx_reinit = Some (\<lambda>ctx sn. map_option (\<lambda>ctx. snsd_nvme_ctx_reinit ctx sn) ctx)\<rparr>,
    ct_disconn_toolbox = \<lparr>tb_ctx_init = Some (snsd_nvme_dis_ctx_init env),
      tb_handle = Some (\<lambda>k ctx flag sn. case ctx of
          None \<Rightarrow> (- EFAULT_code, None)
        | Some ctx \<Rightarrow> (snd (snsd_nvme_disconnect env ctx flag k), Some ctx)),
      tb_recheck = None, tb_ctx_reinit = None\<rparr>,
    ct_dcbatch_toolbox = \<lparr>tb_ctx_init = Some (snsd_nvme_ctx_init_batch env),
      tb_handle = Some (\<lambda>k ctx flag sn. (0, ctx)),
      tb_recheck = None, tb_ctx_reinit = None\<rparr>\<rparr>"

end
