(* ===== verification/Snsd_Conn_Props.thy ===== *)
theory Snsd_Conn_Props
  imports Snsd_Conn_Nvme Snsd_Cfg_Items Snsd_Peon_Sched
begin

text \<open>
  Properties of the NVMe handlers: reading a controller's attributes back, the option text of a
  connection, when a connection creates a controller, what a disconnect does to the kernel, and the
  requests of a batch disconnect.
\<close>

section \<open>Attributes\<close>

text \<open>Texts that survive the separators of an attribute.\<close>

definition attr_word :: "string \<Rightarrow> bool" where
  "attr_word s \<longleftrightarrow> list_all (\<lambda>c. c \<noteq> NUL \<and> \<not> comma_or_lf c) s"

definition address_text :: "nvme_ctx \<Rightarrow> string" where
  "address_text c = ''traddr='' @ cx_traddr c @ '',trsvcid='' @ cx_trsvcid c @
    '',host_traddr='' @ cx_host_traddr c"

lemma attr_word_sep: "attr_word s \<Longrightarrow> \<forall>c \<in> set s. \<not> comma_or_lf c"
  by (simp add: attr_word_def list_all_iff)

lemma no_sep_lits:
  "\<forall>c \<in> set ''traddr=''. \<not> comma_or_lf c" "\<forall>c \<in> set ''trsvcid=''. \<not> comma_or_lf c"
  "\<forall>c \<in> set ''host_traddr=''. \<not> comma_or_lf c"
  by (simp_all add: comma_or_lf_def)

lemma pieces_address:
  assumes "attr_word (cx_traddr c)" "attr_word (cx_trsvcid c)" "attr_word (cx_host_traddr c)"
  shows "pieces comma_or_lf (address_text c) =
    [''traddr='' @ cx_traddr c, ''trsvcid='' @ cx_trsvcid c, ''host_traddr='' @ cx_host_traddr c]"
proof -
  have comma: "comma_or_lf (CHR '','')" by (simp add: comma_or_lf_def)
  have a: "\<forall>x \<in> set (''traddr='' @ cx_traddr c). \<not> comma_or_lf x"
    and b: "\<forall>x \<in> set (''trsvcid='' @ cx_trsvcid c). \<not> comma_or_lf x"
    and d: "\<forall>x \<in> set (''host_traddr='' @ cx_host_traddr c). \<not> comma_or_lf x"
    using assms [THEN attr_word_sep] no_sep_lits by (simp_all only: set_append ball_Un simp_thms)
  have t: "address_text c = (''traddr='' @ cx_traddr c) @ CHR '','' #
    ((''trsvcid='' @ cx_trsvcid c) @ CHR '','' # (''host_traddr='' @ cx_host_traddr c))"
    by (simp add: address_text_def)
  show ?thesis
    unfolding t pieces_append [OF a comma] pieces_append [OF b comma] pieces_no_sep [OF d] ..
qed

lemma parse_address_text:
  assumes "attr_word (cx_traddr c)" "attr_word (cx_trsvcid c)" "attr_word (cx_host_traddr c)"
  shows "snsd_nvme_ctrl_parse_address (address_text c) ctx = ctx\<lparr>cx_traddr := cx_traddr c,
    cx_trsvcid := cx_trsvcid c, cx_host_traddr := cx_host_traddr c\<rparr>"
  by (simp add: snsd_nvme_ctrl_parse_address_def pieces_address [OF assms] address_part_def)

lemma read_attr_word:
  assumes "nk_attr env d a k = Inr (s @ [LF])" and "NUL \<notin> set s" and "length s < n - 1"
  shows "snsd_nvme_ctrl_read_attr env d a n k = Inr s"
proof -
  have "cstring (take (n - 1) (s @ [LF])) = s @ [LF]" using assms(2,3) by (simp add: cstring_plain)
  then show ?thesis using assms(1) by (simp add: snsd_nvme_ctrl_read_attr_def)
qed

text \<open>
  What the kernel prints of a controller is read back: name of the subsystem, transport, addresses
  and port.
\<close>

theorem snsd_nvme_ctrl_profile_roundtrip:
  assumes "nk_attr env d ''subsysnqn'' k = Inr (cx_subsysnqn c @ [LF])"
    and "nk_attr env d ''transport'' k = Inr (cx_transport c @ [LF])"
    and "nk_attr env d ''address'' k = Inr (address_text c @ [LF])"
    and "list_all attr_word [cx_subsysnqn c, cx_transport c, cx_traddr c, cx_trsvcid c, cx_host_traddr c]"
    and "length (cx_subsysnqn c) < 255" and "length (cx_transport c) < 7" and "length (address_text c) < 1023"
  shows "snsd_nvme_ctrl_profile env d k = Some (zero_ctx\<lparr>cx_transport := cx_transport c,
    cx_trsvcid := cx_trsvcid c, cx_traddr := cx_traddr c, cx_host_traddr := cx_host_traddr c,
    cx_subsysnqn := cx_subsysnqn c\<rparr>)"
proof -
  have w: "NUL \<notin> set s" if "attr_word s" for s using that by (auto simp: attr_word_def list_all_iff)
  have "NUL \<notin> set (address_text c)" using assms(4) w by (simp add: address_text_def)
  then show ?thesis
    using assms(4) w read_attr_word [OF assms(1)] read_attr_word [OF assms(2)] read_attr_word [OF assms(3)]
      assms(5-7)
    by (simp add: snsd_nvme_ctrl_profile_def parse_address_text)
qed

section \<open>Options\<close>

definition ctx_ok :: "nvme_ctx \<Rightarrow> bool" where
  "ctx_ok c \<longleftrightarrow> length (cx_traddr c) < 64 \<and> length (cx_host_traddr c) < 64 \<and>
    length (cx_transport c) < 8 \<and> length (cx_trsvcid c) < 8 \<and> length (cx_subsysnqn c) < SNSD_NQN_MAX_LEN"

text \<open>The options as texts: the item's value, else the base value, else nothing.\<close>

definition string_option :: "string \<Rightarrow> string \<Rightarrow> string \<Rightarrow> string" where
  "string_option c b name = (if c \<noteq> ''invalid'' then '','' @ name @ ''='' @ c
    else if b \<noteq> ''invalid'' then '','' @ name @ ''='' @ b else [])"

definition int_option :: "int \<Rightarrow> int \<Rightarrow> string \<Rightarrow> string" where
  "int_option c b name = (if c \<noteq> - 1 then '','' @ name @ ''='' @ dec_int c
    else if b \<noteq> - 1 then '','' @ name @ ''='' @ dec_int b else [])"

definition flag_option :: "int \<Rightarrow> int \<Rightarrow> string \<Rightarrow> string" where
  "flag_option c b name = (if c \<noteq> - 1 \<or> b \<noteq> - 1 then '','' @ name else [])"

definition hostnqn_option :: "'k cfg_sys \<Rightarrow> string \<Rightarrow> string" where
  "hostnqn_option cfg c = '',hostnqn='' @ (if c \<noteq> ''invalid'' then c else snsd_get_base_hostnqn cfg)"

definition option_texts :: "'k cfg_sys \<Rightarrow> cfg_infos \<Rightarrow> base_cfg \<Rightarrow> string list" where
  "option_texts cfg c b = [
    hostnqn_option cfg (cc_hostnqn c),
    string_option (cc_hostid c) (cc_hostid b) ''hostid'',
    int_option (cc_nr_io_queues c) (cc_nr_io_queues b) ''nr_io_queues'',
    int_option (cc_nr_write_queues c) (cc_nr_write_queues b) ''nr_write_queues'',
    int_option (cc_nr_poll_queues c) (cc_nr_poll_queues b) ''nr_poll_queues'',
    int_option (cc_queue_size c) (cc_queue_size b) ''queue_size'',
    int_option (cc_keep_alive_tmo c) (cc_keep_alive_tmo b) ''keep_alive_tmo'',
    int_option (cc_reconnect_delay c) (cc_reconnect_delay b) ''reconnect_delay'',
    int_option (cc_ctrl_loss_tmo c) (cc_ctrl_loss_tmo b) ''ctrl_loss_tmo'',
    flag_option (cc_duplicate_connect c) (cc_duplicate_connect b) ''duplicate_connect'',
    flag_option (cc_disable_sqflow c) (cc_disable_sqflow b) ''disable_sqflow'',
    flag_option (cc_hdr_digest c) (cc_hdr_digest b) ''hdr_digest'',
    flag_option (cc_data_digest c) (cc_data_digest b) ''data_digest'']"

definition prints :: "(arg_out \<Rightarrow> arg_out option) \<Rightarrow> string \<Rightarrow> bool" where
  "prints f s \<longleftrightarrow> (\<forall>t m. 0 < m \<longrightarrow> f (t, m) = arg_printf s (t, m))"

lemma arg_printf_Nil: "0 < m \<Longrightarrow> arg_printf [] (t, m) = Some (t, m)"
  by (simp add: arg_printf_def)

lemma arg_printf_fits:
  "length s < nat m \<Longrightarrow> arg_printf s (t, m) = Some (t @ s, m - int (length s))"
  by (simp add: arg_printf_def)

lemma prints_steps:
  "prints (snsd_nvme_add_argument c b n) (string_option c b n)"
  "prints (snsd_nvme_add_int_argument ci bi n) (int_option ci bi n)"
  "prints (snsd_nvme_add_noarg_argument ci bi n) (flag_option ci bi n)"
  "prints (snsd_nvme_add_hostnqn cfg c ''hostnqn'') (hostnqn_option cfg c)"
  by (auto simp: prints_def snsd_nvme_add_argument_def string_option_def snsd_nvme_add_int_argument_def
      int_option_def snsd_nvme_add_noarg_argument_def flag_option_def snsd_nvme_add_hostnqn_def hostnqn_option_def arg_printf_Nil)

lemma fill_steps_print: "list_all2 prints (fill_steps cfg c b) (option_texts cfg c b)"
  by (simp add: fill_steps_def option_texts_def prints_steps)

lemma run_steps_print:
  assumes "list_all2 prints steps ss" and "length (concat ss) < nat m"
  shows "run_steps steps (t, m) = Some (t @ concat ss, m - int (length (concat ss)))"
  using assms unfolding run_steps_def
proof (induction steps ss arbitrary: t m rule: list_all2_induct)
  case (Cons f fs s ss)
  then have "f (t, m) = Some (t @ s, m - int (length s))" by (simp add: prints_def arg_printf_fits)
  moreover have "length (concat ss) < nat (m - int (length s))" using Cons.prems by simp
  ultimately show ?case using Cons.IH [of "m - int (length s)" "t @ s"] by simp
qed simp

lemma int_option_length:
  assumes "int32 c" and "int32 b"
  shows "length (int_option c b name) \<le> length name + 13"
  using dec_int_length [of c] dec_int_length [of b] assms by (auto simp: int_option_def int32_def)

lemma flag_option_length: "length (flag_option c b name) \<le> length name + 1"
  by (simp add: flag_option_def)

lemma string_option_length:
  "length c < n \<Longrightarrow> length b < n \<Longrightarrow> length (string_option c b name) < length name + 2 + n"
  by (auto simp: string_option_def)

lemma base_hostnqn_length:
  assumes "hostnqn_ok (cs_hostnqn cfg)"
  shows "length (snsd_get_base_hostnqn cfg) < SNSD_NQN_MAX_LEN"
proof -
  let ?b = "cs_hostnqn cfg"
  have l: "length ?b = 256" and n: "?b \<noteq> []" and z: "last ?b = NUL" using assms by (auto simp: hostnqn_ok_def)
  have "length (cstring ?b) \<le> length ?b" by (simp add: cstring_def length_takeWhile_le)
  moreover have "cstring ?b \<noteq> ?b"
  proof
    assume "cstring ?b = ?b"
    then have "\<forall>c \<in> set ?b. c \<noteq> NUL" unfolding cstring_def by (simp add: takeWhile_eq_all_conv)
    with n z show False using last_in_set by metis
  qed
  moreover have "cstring ?b = take (length (cstring ?b)) ?b"
    unfolding cstring_def by (rule takeWhile_eq_take)
  ultimately show ?thesis
    unfolding snsd_get_base_hostnqn_def using l by (metis SNSD_NQN_MAX_LEN_def le_neq_implies_less take_all_iff)
qed

lemma option_texts_length:
  assumes "common_ok c" and "common_ok b" and "hostnqn_ok (cs_hostnqn cfg)"
  shows "length (concat (option_texts cfg c b)) \<le> 548"
proof -
  have h: "length (hostnqn_option cfg (cc_hostnqn c)) < 265"
    using assms(1) base_hostnqn_length [OF assms(3)] by (simp add: common_ok_def hostnqn_option_def)
  have id: "length (string_option (cc_hostid c) (cc_hostid b) ''hostid'') < 45"
    using string_option_length [of "cc_hostid c" 37 "cc_hostid b" "''hostid''"] assms(1,2)
    by (simp add: common_ok_def)
  have i: "length (int_option x y n) \<le> length n + 13" if "int32 x" "int32 y" for x y n
    using that by (rule int_option_length)
  show ?thesis
    unfolding option_texts_def
    using assms(1,2) h id i [of "cc_nr_io_queues c" "cc_nr_io_queues b" "''nr_io_queues''"]
      i [of "cc_nr_write_queues c" "cc_nr_write_queues b" "''nr_write_queues''"]
      i [of "cc_nr_poll_queues c" "cc_nr_poll_queues b" "''nr_poll_queues''"]
      i [of "cc_queue_size c" "cc_queue_size b" "''queue_size''"]
      i [of "cc_keep_alive_tmo c" "cc_keep_alive_tmo b" "''keep_alive_tmo''"]
      i [of "cc_reconnect_delay c" "cc_reconnect_delay b" "''reconnect_delay''"]
      i [of "cc_ctrl_loss_tmo c" "cc_ctrl_loss_tmo b" "''ctrl_loss_tmo''"]
      flag_option_length [of "cc_duplicate_connect c" "cc_duplicate_connect b" "''duplicate_connect''"]
      flag_option_length [of "cc_disable_sqflow c" "cc_disable_sqflow b" "''disable_sqflow''"]
      flag_option_length [of "cc_hdr_digest c" "cc_hdr_digest b" "''hdr_digest''"]
      flag_option_length [of "cc_data_digest c" "cc_data_digest b" "''data_digest''"]
    by (simp add: common_ok_def)
qed

lemma ctx_options_length: "ctx_ok ctx \<Longrightarrow> length (ctx_options ctx) \<le> 440"
  by (simp add: ctx_ok_def ctx_options_def)

lemma strstr_append: "strstr (a @ p @ b) p \<noteq> None"
proof (induction a)
  case Nil
  show ?case using strstr_prefix [of p b] by simp
qed simp

text \<open>
  C23: the options of a connection: with fields that fit their arrays and numbers of 32 bits, the text of
  all the options fits the buffer of 1024 bytes, so nothing is cut or written outside it; it is the
  path, then the options in their order, each from the item or else from the base section, and
  always holds a controller loss timeout.
\<close>

theorem snsd_nvme_fill_arg_spec:
  assumes "ctx_ok ctx" and "common_ok c" and "common_ok b" and "hostnqn_ok (cs_hostnqn cfg)"
  shows "\<exists>text. snsd_nvme_fill_arg cfg c b ctx = Some text \<and> length text < SNSD_BUF_SIZE \<and>
    (let opts = ctx_options ctx @ concat (option_texts cfg c b)
     in text = opts @ (if strstr opts ''ctrl_loss_tmo='' = None then '',ctrl_loss_tmo=1800'' else [])) \<and>
    strstr text ''ctrl_loss_tmo='' \<noteq> None"
proof -
  let ?o = "ctx_options ctx" and ?t = "concat (option_texts cfg c b)"
  let ?d = "'',ctrl_loss_tmo=1800''"
  have l: "length ?o \<le> 440" "length ?t \<le> 548"
    using ctx_options_length option_texts_length assms by blast+
  have p: "arg_printf ?o ([], int SNSD_BUF_SIZE) = Some (?o, 1024 - int (length ?o))"
    using l by (subst arg_printf_fits) simp_all
  have s: "run_steps (fill_steps cfg c b) (?o, 1024 - int (length ?o)) =
      Some (?o @ ?t, 1024 - int (length ?o) - int (length ?t))"
    using l by (intro run_steps_print fill_steps_print) simp
  have f: "arg_printf ?d (?o @ ?t, 1024 - int (length ?o) - int (length ?t)) =
      Some ((?o @ ?t) @ ?d, 1024 - int (length ?o) - int (length ?t) - int (length ?d))"
    using l by (intro arg_printf_fits) simp
  have e: "strstr ((?o @ ?t) @ ?d) ''ctrl_loss_tmo='' \<noteq> None"
    using strstr_append [of "(?o @ ?t) @ '',''" "''ctrl_loss_tmo=''" "''1800''"] by simp
  show ?thesis
  proof (cases "strstr (?o @ ?t) ''ctrl_loss_tmo='' = None")
    case True
    then have "snsd_nvme_fill_arg cfg c b ctx = Some ((?o @ ?t) @ ?d)"
      unfolding snsd_nvme_fill_arg_def p using s f by simp
    then show ?thesis using True e l by (intro exI [of _ "(?o @ ?t) @ ?d"]) (simp add: Let_def)
  next
    case False
    then obtain y where y: "strstr (?o @ ?t) ''ctrl_loss_tmo='' = Some y" by auto
    then have "snsd_nvme_fill_arg cfg c b ctx = Some (?o @ ?t)"
      unfolding snsd_nvme_fill_arg_def p using s by simp
    then show ?thesis using y l by (intro exI [of _ "?o @ ?t"]) (simp add: Let_def)
  qed
qed

section \<open>A small kernel\<close>

text \<open>Its state says whether the controller \<open>nvme0\<close> of one path exists.\<close>

definition sample_ctx :: nvme_ctx where
  "sample_ctx = \<lparr>cx_transport = SNSD_NVME_TRANSPORT_RDMA, cx_trsvcid = ''4420'',
    cx_traddr = ''10.0.0.2'', cx_host_traddr = ''10.0.0.1'', cx_subsysnqn = ''nqn.t'',
    cx_protocol = SNSD_PROTOCOL_ROCE, cx_mode = SNSD_MODE_SW, cx_dname = []\<rparr>"

definition sample_attr :: "string \<Rightarrow> string" where
  "sample_attr a = (if a = ''subsysnqn'' then cx_subsysnqn sample_ctx
    else if a = ''transport'' then cx_transport sample_ctx
    else if a = ''address'' then address_text sample_ctx else ''live'')"

definition sample_kernel :: "bool nvme_kernel" where
  "sample_kernel = \<lparr>fb_open = (\<lambda>_. None), fb_write = (\<lambda>s _. (True, int (length s), 0)),
    fb_read = (\<lambda>_ k. (k, Inr (instance_answer 0 1))),
    nk_dir = (\<lambda>k. Some (if k then [''nvme0''] else [])),
    nk_attr = (\<lambda>d a k. Inr (sample_attr a @ [LF])),
    nk_exists = (\<lambda>d k. k \<and> d = ''nvme0''), nk_delete = (\<lambda>_ _. (False, 0)),
    nk_nvme = (\<lambda>_ _. \<lparr>ne_open = Inr 3, ne_calloc = (\<lambda>_. True),
      ne_ioctl = (\<lambda>_ k. (k, 0, \<lparr>dl_genctr = 0, dl_numrec = 0, dl_entries = []\<rparr>))\<rparr>),
    nk_ntop = (\<lambda>_ a. Some ''10.0.0.1''), nk_pton = (\<lambda>_ _. Some (replicate 16 1)), nk_calloc = True\<rparr>"

definition sample_item :: "string \<Rightarrow> cfg_infos" where
  "sample_item host = snsd_init_cfg\<lparr>ci_host_traddr := host, cc_protocol := 1\<rparr>"

definition sample_cfg :: "string \<Rightarrow> unit cfg_sys" where
  "sample_cfg host = (cfg_globals None ())\<lparr>cs_sw_list := [sample_item host], cs_base := snsd_init_base_cfg\<rparr>"

lemma sample_item_ok: "common_ok (sample_item host)"
  using init_cfg_ok by (auto simp: sample_item_def cfg_ok_def common_ok_def int32_def)

theorem snsd_nvme_ctrl_profile_roundtrip_witness:
  "snsd_nvme_ctrl_profile sample_kernel ''nvme0'' True =
    Some (sample_ctx\<lparr>cx_protocol := 0\<rparr>)"
  by (subst snsd_nvme_ctrl_profile_roundtrip [of sample_kernel "''nvme0''" True sample_ctx])
    (simp_all add: sample_kernel_def sample_attr_def sample_ctx_def address_text_def attr_word_def
      comma_or_lf_def SNSD_NVME_TRANSPORT_RDMA_def zero_ctx_def)

theorem snsd_nvme_fill_arg_spec_witness:
  "\<exists>text. snsd_nvme_fill_arg (sample_cfg ''10.0.0.1'') (sample_item ''10.0.0.1'') snsd_init_base_cfg
      sample_ctx = Some text \<and> length text < 1024"
proof -
  have "ctx_ok sample_ctx" by (simp add: ctx_ok_def sample_ctx_def SNSD_NVME_TRANSPORT_RDMA_def)
  moreover have "hostnqn_ok (cs_hostnqn (sample_cfg ''10.0.0.1''))"
    by (simp add: sample_cfg_def cfg_globals_def hostnqn_ok_def)
  ultimately show ?thesis
    using snsd_nvme_fill_arg_spec [OF _ sample_item_ok init_base_ok(1)] by fastforce
qed

section \<open>Connect\<close>

text \<open>A directory entry that does not keep a connection from being made.\<close>

definition no_obstacle :: "('k, 'z) nvme_kernel_scheme \<Rightarrow> nvme_ctx \<Rightarrow> 'k \<Rightarrow> string \<Rightarrow> bool" where
  "no_obstacle env ctx k d = (case snsd_nvme_ctrl_profile env d k of
      None \<Rightarrow> False
    | Some n \<Rightarrow> snsd_nvme_ctrl_is_discovery n \<or> strstr (cx_subsysnqn n) ''null'' \<noteq> None \<or>
        \<not> snsd_nvme_ctrl_match ctx n)"

lemma find_loop_prefix:
  "list_all (no_obstacle env ctx k) pre \<Longrightarrow> find_loop env ctx (pre @ ds) k = find_loop env ctx ds k"
  by (induction pre) (auto simp: no_obstacle_def split: option.splits)

lemma read_state_exists:
  "snsd_nvme_ctrl_read_state env d k \<noteq> SNSD_NVME_CTRL_STATE_NOT_EXIST"
  by (simp add: snsd_nvme_ctrl_read_state_def split: sum.split)

lemma find_loop_not_exist:
  "fst (find_loop env ctx ds k) = SNSD_NVME_CTRL_STATE_NOT_EXIST \<longleftrightarrow> list_all (no_obstacle env ctx k) ds"
  by (induction ds) (auto simp: no_obstacle_def read_state_exists split: option.splits)

lemma find_not_exist:
  "fst (snsd_nvme_ctrl_find env ctx k) = SNSD_NVME_CTRL_STATE_NOT_EXIST \<longleftrightarrow>
    (case nk_dir env k of None \<Rightarrow> False
     | Some names \<Rightarrow> list_all (no_obstacle env ctx k) (List.filter snsd_nvme_ctrl_scan names))"
  by (simp add: snsd_nvme_ctrl_find_def find_loop_not_exist split: option.split)


lemma sample_connect:
  "map_option (\<lambda>(k, c, r). (k, cx_dname c, r))
      (snsd_nvme_connect sample_kernel (sample_cfg ''10.0.0.1'') sample_ctx False) = Some (True, ''nvme0'', 0)"
  by code_simp


text \<open>
  One controller whose attributes cannot be read, for instance because it is being removed, keeps a
  connect task from making its connection: if the controllers before it do not stand for the path,
  the task fails and leaves the kernel as it is.
\<close>

theorem unreadable_controller_blocks_connect:
  assumes "cx_subsysnqn ctx \<noteq> []" and "nk_dir env k = Some names"
    and "List.filter snsd_nvme_ctrl_scan names = pre @ d # post"
    and "list_all (no_obstacle env ctx k) pre" and "snsd_nvme_ctrl_profile env d k = None"
  shows "snsd_nvme_connect env cfg ctx k = Some (k, ctx, - EFAULT_code)"
  using assms by (simp add: snsd_nvme_connect_def snsd_nvme_ctrl_find_def find_loop_prefix)

theorem unreadable_controller_blocks_connect_witness:
  "snsd_nvme_connect (sample_kernel\<lparr>nk_attr := (\<lambda>_ _ _. Inl 2)\<rparr>) (sample_cfg ''10.0.0.1'') sample_ctx True =
    Some (True, sample_ctx, - EFAULT_code)"
  by (rule unreadable_controller_blocks_connect [where pre = "[]" and d = "''nvme0''" and post = "[]" and names = "[''nvme0'']"])
    (simp_all add: sample_ctx_def sample_kernel_def snsd_nvme_ctrl_scan_def SNSD_NVME_PATH_SYSDIR_def
      snsd_nvme_ctrl_profile_def snsd_nvme_ctrl_read_attr_def)

text \<open>
  C25: the item of a connection is looked up by the text of the host address, which the context has in the
  form the library prints.  If the configuration writes the address in another form, there is no
  item, and the code reads its fields through the null pointer.
\<close>

theorem unlisted_host_text_crashes:
  assumes "cx_subsysnqn ctx \<noteq> []" and "fst (snsd_nvme_ctrl_find env ctx k) = SNSD_NVME_CTRL_STATE_NOT_EXIST"
    and "cx_mode ctx = SNSD_MODE_SW" and "cs_anyflag cfg \<noteq> SNSD_ANY_YES"
    and "cx_host_traddr ctx \<notin> ci_host_traddr ` set (cs_sw_list cfg)"
  shows "snsd_nvme_connect env cfg ctx k = None"
proof -
  have "snsd_find_sw_info (cx_host_traddr ctx) p cfg = None" for p
    using assms(4,5) by (auto simp: snsd_find_sw_info_def find_None_iff)
  moreover obtain d where "snsd_nvme_ctrl_find env ctx k = (SNSD_NVME_CTRL_STATE_NOT_EXIST, d)"
    using assms(2) by (metis prod.collapse)
  ultimately show ?thesis
    using assms(1,3) by (simp add: snsd_nvme_connect_def snsd_nvme_do_connect_def snsd_nvme_create_def
        snsd_nvme_build_options_def)
qed

theorem unlisted_host_text_crashes_witness:
  "snsd_nvme_connect sample_kernel (sample_cfg ''FE80::1'') (sample_ctx\<lparr>cx_host_traddr := ''fe80::1''\<rparr>) False = None"
  by (rule unlisted_host_text_crashes)
    (simp_all add: sample_ctx_def sample_cfg_def sample_item_def cfg_globals_def find_not_exist sample_kernel_def)

section \<open>Disconnect\<close>

definition alive_step :: "('k, 'z) nvme_kernel_scheme \<Rightarrow> string \<Rightarrow> 'k \<Rightarrow> 'k" where
  "alive_step env dname k = fst (keep_alive_to env (''/dev/'' @ dname) SNSD_NVME_KEEPALIVE_TIMEO k)"

lemma retry_steps:
  "\<exists>m \<le> n. snsd_nvme_retry_keep_alive env (''/dev/'' @ dname) n k = (alive_step env dname ^^ m) k"
proof (induction n arbitrary: k)
  case 0
  then show ?case by simp
next
  case (Suc n)
  obtain k1 ret where r: "keep_alive_to env (''/dev/'' @ dname) 100 k = (k1, ret)"
    by (cases "keep_alive_to env (''/dev/'' @ dname) 100 k")
  then have k1: "k1 = alive_step env dname k" by (simp add: alive_step_def)
  show ?case
  proof (cases "ret = 0")
    case True
    from Suc obtain m where "m \<le> n"
      "snsd_nvme_retry_keep_alive env (''/dev/'' @ dname) n k1 = (alive_step env dname ^^ m) k1" by blast
    then show ?thesis using r True k1
      by (intro exI [of _ "Suc m"]) (simp add: funpow_Suc_right del: funpow.simps)
  next
    case False
    then show ?thesis using r k1 by (intro exI [of _ 1]) simp
  qed
qed

text \<open>With a live controller, the retries are further keep alives after the first.\<close>

lemma disconnect_live:
  assumes "snsd_nvme_ctrl_find env ctx k = (SNSD_NVME_CTRL_STATE_LIVE, dname)"
    and "snsd_nvme_disconnect env ctx flag k = (k', ret)"
  shows "ret = 0 \<and> ((\<exists>n \<le> 101. k' = (alive_step env dname ^^ n) k) \<or>
    flag AND SNSD_DISCONNECT_FORCEDLY \<noteq> 0 \<and>
    fst (snsd_nvme_ctrl_find env ctx (alive_step env dname k)) = SNSD_NVME_CTRL_STATE_LIVE \<and>
    k' = fst (snsd_nvme_ctrl_remove env dname (alive_step env dname k)))"
proof -
  obtain k1 r where r: "keep_alive_to env (''/dev/'' @ dname) 100 k = (k1, r)"
    by (cases "keep_alive_to env (''/dev/'' @ dname) 100 k")
  then have k1: "k1 = alive_step env dname k" by (simp add: alive_step_def)
  have "\<exists>m \<le> SNSD_NVME_KEEPALIVE_RETRY_TIMES.
      snsd_nvme_retry_keep_alive env (''/dev/'' @ dname) SNSD_NVME_KEEPALIVE_RETRY_TIMES k1 = (alive_step env dname ^^ m) k1"
    by (rule retry_steps)
  then obtain m where m: "m \<le> SNSD_NVME_KEEPALIVE_RETRY_TIMES"
    "snsd_nvme_retry_keep_alive env (''/dev/'' @ dname) SNSD_NVME_KEEPALIVE_RETRY_TIMES k1 = (alive_step env dname ^^ m) k1"
    by (elim exE conjE)
  have "Suc m \<le> 101" using m(1) by (simp add: SNSD_NVME_KEEPALIVE_RETRY_TIMES_def)
  moreover have "(alive_step env dname ^^ m) k1 = (alive_step env dname ^^ Suc m) k"
    by (simp add: k1 funpow_Suc_right del: funpow.simps)
  ultimately have n1: "\<exists>n \<le> 101. (alive_step env dname ^^ m) k1 = (alive_step env dname ^^ n) k" by blast
  have n2: "\<exists>n \<le> 101. k1 = (alive_step env dname ^^ n) k" by (rule exI [of _ 1]) (simp add: k1)
  have d: "(k', ret) = (if flag AND SNSD_DISCONNECT_FORCEDLY \<noteq> 0 \<and>
      fst (snsd_nvme_ctrl_find env ctx k1) = SNSD_NVME_CTRL_STATE_LIVE
    then (fst (snsd_nvme_ctrl_remove env dname k1), 0)
    else if r = 0 then ((alive_step env dname ^^ m) k1, 0) else (k1, 0))" (is "_ = (if ?forced then _ else _)")
    using assms(1) r m(2) by (simp add: assms(2) [symmetric] snsd_nvme_disconnect_def Let_def)
  show ?thesis
  proof (cases ?forced)
    case False
    with d have "ret = 0" "k' = (alive_step env dname ^^ m) k1 \<or> k' = k1" by (simp_all split: if_splits)
    moreover from this(2) have "\<exists>n \<le> 101. k' = (alive_step env dname ^^ n) k"
      by (elim disjE) (simp_all only: n1 n2)
    ultimately show ?thesis by simp
  qed (use d k1 in simp)
qed



section \<open>Discovery\<close>

lemma find_take: "find P (take n es) = Some e \<Longrightarrow> e \<in> set es \<and> P e"
  by (auto simp: find_Some_iff dest: nth_mem [of _ "take n es"] in_set_takeD)

text \<open>
  C24: looking up the name of the subsystem leaves no discovery controller behind: whenever the kernel has
  created one, its removal is the last thing asked of the kernel, whatever the log said.  On success
  the context has the name of an entry that matches the path, and nothing else has changed.
\<close>

theorem snsd_nvme_disc_get_subsysnqn_spec:
  assumes "snsd_nvme_disc_get_subsysnqn env ctx k = (k', ctx', ret)"
    and "snsd_nvme_ctrl_create env (snprintf_text SNSD_BUF_SIZE (disc_address ctx)) k = (k1, inst)"
    and "0 \<le> inst"
  shows "\<exists>k2 r. nvme_discovery_log (nk_nvme env (''/dev/'' @ snprintf_text 32 (''nvme'' @ dec_int inst)) k1) k1 = (k2, r) \<and>
    k' = fst (snsd_nvme_ctrl_remove env (snprintf_text 32 (''nvme'' @ dec_int inst)) k2) \<and>
    (ret = 0 \<longrightarrow> (\<exists>log e. r = Inr log \<and> e \<in> set (snsd_nvme_disc_refurbish_log (dl_entries log)) \<and>
      snsd_nvme_disc_log_entry_match env ctx e \<and>
      ctx' = ctx\<lparr>cx_subsysnqn := take 255 (cstring (de_subnqn e))\<rparr>)) \<and>
    (ret \<noteq> 0 \<longrightarrow> ctx' = ctx)"
proof -
  let ?d = "snprintf_text 32 (''nvme'' @ dec_int inst)"
  obtain k2 r where r: "nvme_discovery_log (nk_nvme env (''/dev/'' @ ?d) k1) k1 = (k2, r)"
    by (cases "nvme_discovery_log (nk_nvme env (''/dev/'' @ ?d) k1) k1")
  have log: "snsd_nvme_disc_get_log env (snprintf_text SNSD_BUF_SIZE (disc_address ctx)) k =
      (fst (snsd_nvme_ctrl_remove env ?d k2), (case r of Inl _ \<Rightarrow> Inl (- EFAULT_code) | Inr log \<Rightarrow> Inr log))"
    using assms(2,3) r by (simp add: snsd_nvme_disc_get_log_def Let_def)
  show ?thesis
    using assms(1) r log
    by (intro exI [of _ k2] exI [of _ r])
      (auto simp: snsd_nvme_disc_get_subsysnqn_def dest: find_take split: sum.splits option.splits)
qed

theorem snsd_nvme_disc_get_subsysnqn_spec_witness:
  "\<exists>ctx ret. snsd_nvme_disc_get_subsysnqn sample_kernel sample_ctx False = (False, ctx, ret)"
proof -
  let ?r = "snsd_nvme_disc_get_subsysnqn sample_kernel sample_ctx False"
  have "snsd_nvme_ctrl_create sample_kernel (snprintf_text SNSD_BUF_SIZE (disc_address sample_ctx)) False = (True, 0)"
    by code_simp
  from snsd_nvme_disc_get_subsysnqn_spec [OF _ this, of "fst ?r" "fst (snd ?r)" "snd (snd ?r)"]
  show ?thesis by (cases ?r) (auto simp: snsd_nvme_ctrl_remove_def sample_kernel_def)
qed

section \<open>Batch disconnect\<close>

text \<open>A request with these parameters and number waits in the disconnect peon or a dynamic one.\<close>

definition disc_queued :: "connect_param \<Rightarrow> u64 \<Rightarrow> ('w, 'c) peon_sys \<Rightarrow> bool" where
  "disc_queued p sn s \<longleftrightarrow> (\<exists>r t. (r = Static PEON_TYPE_DISCONN \<or> (\<exists>a. r = Dyn a)) \<and>
    t \<in> set (wait_list r s) \<and> live t \<and> pt_param t = p \<and> pt_sn t = sn)"

text \<open>The disconnect peon exists and new addresses belong to no dynamic peon.\<close>

definition disc_ready :: "('w, 'c) peon_sys \<Rightarrow> bool" where
  "disc_ready s \<longleftrightarrow> ps_peons s (Static PEON_TYPE_DISCONN) \<noteq> None \<and>
    (\<forall>a \<ge> ps_next_addr s. ps_peons s (Dyn a) = None)"

text \<open>There is memory for the request and its context can be made.\<close>

definition adds_work :: "'w peon_env \<Rightarrow> ('w, 'c) conn_toolbox \<Rightarrow> connect_param \<Rightarrow> u64 \<Rightarrow> bool" where
  "adds_work penv tb p sn \<longleftrightarrow> en_calloc_ok penv \<and>
    (case tb_ctx_init tb of None \<Rightarrow> True | Some f \<Rightarrow> f (en_world penv) p sn \<noteq> None)"

lemma new_task_Inr_iff:
  "(\<exists>task. peon_new_task penv a sn p tb = Inr task) \<longleftrightarrow> adds_work penv tb p sn"
  by (auto simp: adds_work_def peon_new_task_def Let_def split: option.split)

lemma disc_queued_mono:
  assumes "\<And>r. set (wait_list r s) \<subseteq> set (wait_list r s')" and "disc_queued q m s"
  shows "disc_queued q m s'"
proof -
  from assms(2) obtain r t where "r = Static PEON_TYPE_DISCONN \<or> (\<exists>a. r = Dyn a)"
    "t \<in> set (wait_list r s)" "live t \<and> pt_param t = q \<and> pt_sn t = m"
    unfolding disc_queued_def by blast
  moreover from this(2) assms(1) have "t \<in> set (wait_list r s')" by blast
  ultimately show ?thesis unfolding disc_queued_def by blast
qed

text \<open>A task for the disconnect peon goes to its list, or is the task of a new dynamic peon.\<close>

lemma add_disconn_inherit_cases:
  fixes s :: "('w, 'c) peon_sys"
  assumes "ps_peons s (Static PEON_TYPE_DISCONN) = Some pe" and "en_dyn penv \<noteq> DynNoThread"
    and task: "peon_new_task penv (ps_next_addr s) sn p tb = Inr task"
  obtains "peon_add_disconn_task_inherit penv p sn tb s = Done (upd_peon (Static PEON_TYPE_DISCONN)
      (\<lambda>pe. pe\<lparr>pe_wait_list := pe_wait_list pe @ [task], pe_worker_all_count := pe_worker_all_count pe + 1\<rparr>)
      (s\<lparr>ps_next_addr := ps_next_addr s + 1\<rparr>), Inr ())"
  | d where "peon_add_disconn_task_inherit penv p sn tb s =
      Done (s\<lparr>ps_peons := (ps_peons s)(Dyn (ps_next_addr s + 1) := Some d),
        ps_next_addr := ps_next_addr s + 2, ps_dyn_worker_num := ps_dyn_worker_num s + 1\<rparr>, Inr ())"
    "pe_wait_list d = [task]"
proof (cases "all_workers_busy s")
  case True
  with peon_task_add_busy [OF this task] assms(2) that show thesis
    by (cases "en_dyn penv") (auto simp: peon_add_disconn_task_inherit_def)
next
  case False
  with assms(1) task that(1) show thesis
    by (auto simp: peon_add_disconn_task_inherit_def peon_task_add_def all_workers_busy_def Let_def)
qed

lemma add_disconnect_queues:
  fixes s :: "('w, 'c) peon_sys"
  assumes "disc_ready s" and "en_dyn penv \<noteq> DynNoThread"
  obtains s' r where "peon_add_disconn_task_inherit penv p sn tb s = Done (s', r)"
    and "disc_ready s'" and "adds_work penv tb p sn \<Longrightarrow> disc_queued p sn s'"
    and "\<And>q m. disc_queued q m s \<Longrightarrow> disc_queued q m s'"
proof (cases "peon_new_task penv (ps_next_addr s) sn p tb")
  case (Inl e)
  then have "\<not> adds_work penv tb p sn" using new_task_Inr_iff [of penv "ps_next_addr s" sn p tb] by auto
  moreover have "peon_add_disconn_task_inherit penv p sn tb s = Done (s, Inl e)"
    by (simp add: peon_add_disconn_task_inherit_def peon_task_add_def Inl)
  ultimately show thesis using that assms(1) by blast
next
  case task: (Inr task)
  let ?r = "Static PEON_TYPE_DISCONN"
  obtain pe where pe: "ps_peons s ?r = Some pe" using assms(1) by (auto simp: disc_ready_def)
  note new = peon_new_task_Inr [OF task]
  let ?s1 = "s\<lparr>ps_next_addr := ps_next_addr s + 1\<rparr>"
  let ?st = "upd_peon ?r (\<lambda>pe. pe\<lparr>pe_wait_list := pe_wait_list pe @ [task],
      pe_worker_all_count := pe_worker_all_count pe + 1\<rparr>) ?s1"
  let ?dyn = "\<lambda>d. s\<lparr>ps_peons := (ps_peons s)(Dyn (ps_next_addr s + 1) := Some d),
      ps_next_addr := ps_next_addr s + 2, ps_dyn_worker_num := ps_dyn_worker_num s + 1\<rparr>"
  have st: "wait_list q ?st = (if q = ?r then wait_list q s @ [task] else wait_list q s)" for q
    using pe by (auto simp: wait_list_def upd_peon_def)
  show thesis
  proof (cases rule: add_disconn_inherit_cases [OF pe assms(2) task])
    case 1
    show thesis
    proof (rule that [OF 1])
      show "disc_ready ?st" using assms(1) pe by (simp add: disc_ready_def upd_peon_def)
      show "disc_queued p sn ?st" unfolding disc_queued_def st
        using new by (intro exI [of _ ?r] exI [of _ task]) simp
      show "disc_queued q m ?st" if "disc_queued q m s" for q m
        by (rule disc_queued_mono [OF _ that]) (simp only: st, auto)
    qed
  next
    case (2 d)
    have fresh: "wait_list (Dyn (ps_next_addr s + 1)) s = []"
      using assms(1) by (simp add: disc_ready_def wait_list_def)
    have dyn: "wait_list q (?dyn d) = (if q = Dyn (ps_next_addr s + 1) then [task] else wait_list q s)" for q
      using 2(2) by (simp add: wait_list_def)
    show thesis
    proof (rule that [OF 2(1)])
      show "disc_ready (?dyn d)" using assms(1) by (simp add: disc_ready_def)
      show "disc_queued p sn (?dyn d)" unfolding disc_queued_def dyn
        using new by (intro exI [of _ "Dyn (ps_next_addr s + 1)"] exI [of _ task]) simp
      show "disc_queued q m (?dyn d)" if "disc_queued q m s" for q m
        by (rule disc_queued_mono [OF _ that]) (simp only: dyn, auto simp: fresh [simplified])
    qed
  qed
qed

text \<open>The controllers a batch asks for, with the parameters of the request.\<close>

definition batch_target ::
  "('k, 'z) nvme_kernel_scheme \<Rightarrow> nvme_ctx \<Rightarrow> 'k \<Rightarrow> string \<Rightarrow> connect_param option" where
  "batch_target env ctx k d = (case snsd_nvme_ctrl_profile env d k of
      None \<Rightarrow> None
    | Some n \<Rightarrow> if snsd_nvme_ctrl_is_discovery n \<or> \<not> snsd_nvme_ctrl_match_batch ctx n then None
        else disconn_param env n)"

lemma batch_loop_step:
  "batch_loop env penv tb ctx sn (d # ds) k s = (case batch_target env ctx k d of
      None \<Rightarrow> batch_loop env penv tb ctx sn ds k s
    | Some p \<Rightarrow> (case peon_add_disconn_task_inherit penv p sn tb s of
        Stuck \<Rightarrow> Stuck | Done (s, _) \<Rightarrow> batch_loop env penv tb ctx sn ds k s))"
  by (auto simp: batch_target_def snsd_nvme_add_disconnect_def split: option.split)

lemma batch_loop_queues:
  assumes "disc_ready s" and "en_dyn penv \<noteq> DynNoThread"
  shows "\<exists>s'. batch_loop env penv tb ctx sn ds k s = Done s' \<and>
    (\<forall>q m. disc_queued q m s \<longrightarrow> disc_queued q m s') \<and>
    (\<forall>d \<in> set ds. \<forall>p. batch_target env ctx k d = Some p \<and> adds_work penv tb p sn \<longrightarrow> disc_queued p sn s')"
  using assms(1)
proof (induction ds arbitrary: s)
  case Nil
  then show ?case by simp
next
  case (Cons d ds)
  show ?case
  proof (cases "batch_target env ctx k d")
    case None
    with Cons.IH [OF Cons.prems] show ?thesis by (simp del: batch_loop.simps add: batch_loop_step)
  next
    case (Some p)
    obtain s1 r where s1: "peon_add_disconn_task_inherit penv p sn tb s = Done (s1, r)" "disc_ready s1"
      "adds_work penv tb p sn \<Longrightarrow> disc_queued p sn s1" "\<And>q m. disc_queued q m s \<Longrightarrow> disc_queued q m s1"
      by (rule add_disconnect_queues [OF Cons.prems assms(2)]) blast
    have l: "batch_loop env penv tb ctx sn (d # ds) k s = batch_loop env penv tb ctx sn ds k s1"
      using Some s1(1) by (simp del: batch_loop.simps add: batch_loop_step)
    from Cons.IH [OF s1(2)] show ?thesis unfolding l using Some s1(3,4) by auto
  qed
qed

text \<open>
  C14: a batch disconnect asks for every controller of its host port: after it each controller in the
  directory that can be read, is not a discovery controller, and has the transport and the host
  address of the task, has a disconnect request of its own with the number of the batch waiting,
  unless there is no memory for it; and no request that waited before is lost.
\<close>

theorem snsd_nvme_disconnect_batch_complete:
  assumes "disc_ready s" and "en_dyn penv \<noteq> DynNoThread" and "nk_dir env k = Some names"
  shows "\<exists>s'. snsd_nvme_disconnect_batch env penv tb ctx sn k s = Done s' \<and>
    (\<forall>q m. disc_queued q m s \<longrightarrow> disc_queued q m s') \<and>
    (\<forall>d \<in> set names. \<forall>p. snsd_nvme_ctrl_scan d \<and> batch_target env ctx k d = Some p \<and>
      adds_work penv tb p sn \<longrightarrow> disc_queued p sn s')"
  using batch_loop_queues [OF assms(1,2), of env tb ctx sn "List.filter snsd_nvme_ctrl_scan names" k] assms(3)
  by (fastforce simp: snsd_nvme_disconnect_batch_def)

definition sample_batch_env :: "bool peon_env" where
  "sample_batch_env = \<lparr>en_now = 0, en_calloc_ok = True, en_dyn = DynStarted, en_cfg_restrain_time = 0, en_world = True\<rparr>"

definition sample_queues :: "(bool, nvme_ctx) peon_sys" where
  "sample_queues = \<lparr>ps_peons = (\<lambda>r. case r of
      Static _ \<Rightarrow> Some \<lparr>pe_type = PEON_TYPE_DISCONN, pe_dynamic = False, pe_wait_list = [], pe_proc_list = [],
        pe_restrain_time = 0, pe_normal_period = 0, pe_fast_period = 0, pe_worker_num = 1, pe_worker_all_count = 0\<rparr>
    | Dyn _ \<Rightarrow> None),
    ps_sn = 0, ps_dyn_worker_num = 0, ps_next_addr = 0\<rparr>"

theorem snsd_nvme_disconnect_batch_complete_witness:
  "\<exists>s p. snsd_nvme_disconnect_batch sample_kernel sample_batch_env
      (ct_disconn_toolbox (snsd_connect_roce sample_kernel (sample_cfg ''10.0.0.1''))) sample_ctx 7 True sample_queues = Done s \<and>
    cp_portid p = 4420 \<and> disc_queued p 7 s"
proof -
  let ?tb = "ct_disconn_toolbox (snsd_connect_roce sample_kernel (sample_cfg ''10.0.0.1''))"
  let ?p = "the (batch_target sample_kernel sample_ctx True ''nvme0'')"
  have a: "disc_ready sample_queues" "en_dyn sample_batch_env \<noteq> DynNoThread"
    by (simp_all add: disc_ready_def sample_queues_def sample_batch_env_def)
  have b: "nk_dir sample_kernel True = Some [''nvme0'']" by (simp add: sample_kernel_def)
  obtain s where s: "snsd_nvme_disconnect_batch sample_kernel sample_batch_env ?tb sample_ctx 7 True sample_queues = Done s"
      "\<forall>d \<in> set [''nvme0'']. \<forall>p. snsd_nvme_ctrl_scan d \<and> batch_target sample_kernel sample_ctx True d = Some p \<and>
       adds_work sample_batch_env ?tb p 7 \<longrightarrow> disc_queued p 7 s"
    using snsd_nvme_disconnect_batch_complete [OF a b, of ?tb sample_ctx 7] by (elim exE conjE)
  have n: "snsd_nvme_ctrl_scan ''nvme0''" by code_simp
  have t: "batch_target sample_kernel sample_ctx True ''nvme0'' \<noteq> None" by code_simp
  have port: "cp_portid ?p = 4420" by code_simp
  have "cp_protocol ?p = SNSD_PROTOCOL_ROCE" by code_simp
  then have "snsd_nvme_dis_ctx_init sample_kernel True ?p 7 \<noteq> None"
    unfolding snsd_nvme_dis_ctx_init_def snsd_nvme_ctx_nessary_init_def
    by (simp add: sample_kernel_def Let_def split: option.split)
  then have w: "adds_work sample_batch_env ?tb ?p 7"
    by (simp add: adds_work_def sample_batch_env_def snsd_connect_roce_def)
  have "batch_target sample_kernel sample_ctx True ''nvme0'' = Some ?p" using t by (rule option.collapse [symmetric])
  with n w have "disc_queued ?p 7 s" by (intro s(2) [THEN bspec, THEN spec, THEN mp] conjI) simp
  with s(1) port show ?thesis by (intro exI [of _ s] exI [of _ ?p] conjI)
qed

end
