(* ===== verification/Snsd_Mgt.thy ===== *)
theory Snsd_Mgt
  imports Snsd_Lldp Snsd_Cfg_Init
begin

text \<open>
  \<open>src/snsd_mgt.c\<close>: the list of network ports a mode works on.  A poll reads the interfaces
  from the kernel, finds the VLAN of each in \<open>/proc/net/vlan/config\<close> and the slaves of a bonding
  under \<open>/sys/class/net\<close>, keeps the interfaces the configuration names, and checks that their
  devices speak the configured protocol.

  What the outside answers during one poll is a record of functions; the same question has the same
  answer all through a poll.  The name of an interface is a zero padded array in the port and a
  text in a question to the kernel.  The texts of files and names are lists of characters, as in the
  configuration.
\<close>

definition EAGAIN_code :: int where [simp]: "EAGAIN_code = 11"
definition EPERM_code :: int where [simp]: "EPERM_code = 1"
definition SNSD_INVALID_VLAN :: int where [simp]: "SNSD_INVALID_VLAN = - 1"
definition SNSD_MAX_SLAVES :: nat where [simp]: "SNSD_MAX_SLAVES = 32"
definition SNSD_BONDING_SLAVES_FILE_LENGTH :: nat where [simp]: "SNSD_BONDING_SLAVES_FILE_LENGTH = 80"
definition SNSD_DEFAULT_IFS :: nat where [simp]: "SNSD_DEFAULT_IFS = 128"
definition SNSD_SERVICE_TYPE_INFORM :: nat where [simp]: "SNSD_SERVICE_TYPE_INFORM = 7"
definition SNSD_NONE :: u8 where [simp]: "SNSD_NONE = 0"

definition SNSD_BONDING_FILE_PATH :: string where
  "SNSD_BONDING_FILE_PATH = ''/sys/class/net/bonding_masters''"
definition SNSD_VLAN_FILE_PATH :: string where
  "SNSD_VLAN_FILE_PATH = ''/proc/net/vlan/config''"
definition SNSD_IB_PROTOCOL_PATH :: string where
  "SNSD_IB_PROTOCOL_PATH = ''/sys/class/infiniband''"
definition SNSD_NET_PATH :: string where
  "SNSD_NET_PATH = ''/sys/class/net''"

text \<open>An entry of the answer to \<open>SIOCGIFCONF\<close>.\<close>

record ifreq =
  if_name :: "u8 list"
  if_family :: nat
  if_addr :: "u8 list"

text \<open>What an allocation is for; it may fail.\<close>

datatype mgt_alloc =
    For_file nat
  | For_slave string
  | For_slaves_text string
  | For_port "u8 list"
  | For_ifconf nat

text \<open>
  \<open>me_file first path\<close> is what reading an opened file delivers, and whether the stream reports
  an error, for the first pass (to count the bytes) and the second.  \<open>me_ret\<close> is what the
  variable \<open>ret\<close> of \<open>snsd_get_net_info\<close> holds before it is assigned.
\<close>

record mgt_env =
  me_access :: "string \<Rightarrow> bool"
  me_realpath :: "string \<Rightarrow> bool"
  me_file :: "bool \<Rightarrow> string \<Rightarrow> (string \<times> bool) option"
  me_malloc :: "mgt_alloc \<Rightarrow> bool"
  me_ifindex :: "string \<Rightarrow> int option"
  me_hwaddr :: "string \<Rightarrow> u8 list option"
  me_flags :: "string \<Rightarrow> u16 option"
  me_socket :: bool
  me_ifconf :: "nat \<Rightarrow> ifreq list option"
  me_readdir :: "string \<Rightarrow> string list option"
  me_pton :: "string \<Rightarrow> u8 list option"
  me_ret :: int

text \<open>The text in an array of bytes, and the array with a text, zero padded.\<close>

definition name_text :: "u8 list \<Rightarrow> string" where
  "name_text bs = List.map (\<lambda>b. char_of (unat b)) (takeWhile (\<lambda>b. b \<noteq> 0) bs)"

definition name_array :: "string \<Rightarrow> u8 list" where
  "name_array s = take IFNAMSIZ (List.map (\<lambda>c. word_of_nat (of_char c)) s @ replicate IFNAMSIZ 0)"

section \<open>Files\<close>

function file_length_loop :: "string \<Rightarrow> u32 \<Rightarrow> u32" where
  "file_length_loop rest len =
    (if length rest < SNSD_CFG_VALUE_MAX_LEN then len + word_of_nat (length rest)
     else file_length_loop (drop SNSD_CFG_VALUE_MAX_LEN rest) (len + word_of_nat SNSD_CFG_VALUE_MAX_LEN))"
  by pat_completeness auto
termination by (relation "measure (\<lambda>(rest, len). length rest)") auto

declare file_length_loop.simps [simp del]

definition snsd_get_file_length :: "mgt_env \<Rightarrow> string \<Rightarrow> int" where
  "snsd_get_file_length env file_name =
    (if \<not> me_realpath env file_name then - EINVAL_code
     else case me_file env True file_name of
       None \<Rightarrow> - EAGAIN_code
     | Some (content, err) \<Rightarrow>
         if err then - EAGAIN_code else sint (file_length_loop content 0))"

text \<open>\<open>snsd_get_file_info\<close>: the number it returns and the text it allocates, if it does.\<close>

definition snsd_get_file_info :: "mgt_env \<Rightarrow> string \<Rightarrow> int \<times> string option" where
  "snsd_get_file_info env file_name =
    (let file_length = snsd_get_file_length env file_name in
     if file_length \<le> 0 then (file_length, None)
     else if \<not> me_malloc env (For_file (nat (file_length + 1))) then (- EAGAIN_code, None)
     else case me_file env False file_name of
       None \<Rightarrow> (- EAGAIN_code, None)
     | Some (content, err) \<Rightarrow>
         let info = take (nat file_length) content in
         if err \<or> int (length info) \<noteq> file_length then (- EAGAIN_code, None)
         else (file_length, Some info))"

section \<open>The VLAN table\<close>

definition is_bar :: "char \<Rightarrow> bool" where
  "is_bar c \<longleftrightarrow> c = CHR ''|''"

definition isblank :: "char \<Rightarrow> bool" where
  "isblank c \<longleftrightarrow> c = CHR '' '' \<or> c = TAB"

definition isdigit :: "char \<Rightarrow> bool" where
  "isdigit c \<longleftrightarrow> is_digit 10 c"

definition strncmp_eq :: "nat \<Rightarrow> string \<Rightarrow> string \<Rightarrow> bool" where
  "strncmp_eq n a b \<longleftrightarrow> take n (cstring a @ [NUL]) = take n (cstring b @ [NUL])"

text \<open>
  \<open>snsd_match_vlan\<close>; \<open>cur\<close> is the text from the found place to the end of the file.
\<close>

definition snsd_match_vlan :: "string \<Rightarrow> string \<Rightarrow> bool" where
  "snsd_match_vlan cur item_name =
    (let tmp_buff = takeWhile (\<lambda>c. \<not> is_bar c \<and> \<not> is_eol c) (take SNSD_CFG_NAME_MAX_LEN cur);
         index = length tmp_buff in
     if index < SNSD_CFG_NAME_MAX_LEN \<and> index < length cur \<and> is_bar (cur ! index)
     then
       let tmp_buff = rev (dropWhile isblank (rev tmp_buff))
       in strncmp_eq (length tmp_buff) tmp_buff item_name
     else False)"

text \<open>
  \<open>snsd_find_vlan_start\<close>: the place of the name's line in the file.  The search advances by the
  length of the name, so with an empty name it would not end: the outer \<open>None\<close>.
\<close>

partial_function (option) find_vlan_loop :: "string \<Rightarrow> string \<Rightarrow> nat \<Rightarrow> nat option option" where
  "find_vlan_loop item_name vlan_buff next_buf =
    (if next_buf < length vlan_buff then
       case strstr (cstring (drop next_buf vlan_buff)) item_name of
         None \<Rightarrow> Some None
       | Some r \<Rightarrow>
           let cur = next_buf + (length (cstring (drop next_buf vlan_buff)) - length r) in
           if snsd_match_vlan (drop cur vlan_buff) item_name then Some (Some cur)
           else find_vlan_loop item_name vlan_buff (cur + length item_name)
     else Some None)"

declare find_vlan_loop.simps [code]

definition snsd_find_vlan_start :: "string \<Rightarrow> string \<Rightarrow> nat option option" where
  "snsd_find_vlan_start item_name vlan_buff = find_vlan_loop item_name vlan_buff 0"

definition to_int16 :: "int \<Rightarrow> int" where
  "to_int16 i = signed_take_bit 15 i"

text \<open>The VLAN of a name, and the place behind its number (0 where the code does not set it).\<close>

definition snsd_fill_vlan :: "string \<Rightarrow> string \<Rightarrow> (int \<times> nat) option" where
  "snsd_fill_vlan item_name vlan_buff =
    (case snsd_find_vlan_start item_name vlan_buff of
       None \<Rightarrow> None
     | Some None \<Rightarrow> Some (SNSD_INVALID_VLAN, 0)
     | Some (Some offset) \<Rightarrow>
         let cur = drop offset vlan_buff;
             r = dropWhile (\<lambda>c. \<not> is_bar c \<and> \<not> is_eol c) cur in
         if r = [] \<or> \<not> is_bar (hd r) then Some (SNSD_INVALID_VLAN, 0)
         else
           let r = dropWhile (\<lambda>c. \<not> isdigit c) r;
               tmp_buff = take SNSD_CFG_NAME_MAX_LEN (takeWhile isdigit r);
               index = length cur - length r + length tmp_buff in
           if tmp_buff \<noteq> [] then Some (to_int16 (atoi tmp_buff), offset + index)
           else Some (SNSD_INVALID_VLAN, 0))"

text \<open>\<open>snsd_get_phy_ifname\<close>: the name in the last column, or a failure.\<close>

definition snsd_get_phy_ifname :: "string \<Rightarrow> nat \<Rightarrow> string option" where
  "snsd_get_phy_ifname vlan_buff pos =
    (let r = dropWhile (\<lambda>c. \<not> is_bar c \<and> \<not> is_eol c) (drop pos vlan_buff) in
     if r = [] \<or> \<not> is_bar (hd r) then None
     else
       let tmp_buff = take IFNAMSIZ (takeWhile (\<lambda>c. \<not> isspace c) (dropWhile isblank (tl r)))
       in if tmp_buff \<noteq> [] then Some tmp_buff else None)"

section \<open>Slaves of a bonding\<close>

text \<open>
  \<open>snsd_create_slave\<close>: the port's new list of slaves and its length.  Behind the text in
  its array the name of a slave has what \<open>malloc\<close> returned; the array is only ever read as a
  text.
\<close>

definition snsd_create_slave :: "mgt_env \<Rightarrow> string \<Rightarrow> port_info \<Rightarrow> port_info \<times> int" where
  "snsd_create_slave env slave_name info =
    (if length slave_name \<ge> IFNAMSIZ then (info, - EAGAIN_code)
     else case me_ifindex env slave_name of
       None \<Rightarrow> (info, - EAGAIN_code)
     | Some ifindex \<Rightarrow>
         if \<not> me_malloc env (For_slave slave_name) then (info, - EAGAIN_code)
         else
           (info\<lparr>pi_slaves_count := pi_slaves_count info + 1,
              pi_slaves := \<lparr>sl_ifindex = ifindex, sl_fd_index = 0, sl_fd = 0, sl_state = 0,
                sl_name = name_array slave_name\<rparr> # pi_slaves info\<rparr>, 0))"

definition ends_slave :: "char \<Rightarrow> bool" where
  "ends_slave c \<longleftrightarrow> c = CHR '' '' \<or> c = LF"

text \<open>The words a blank or a line feed ends, at most \<open>n\<close> of them.\<close>

definition ended_words :: "nat \<Rightarrow> string \<Rightarrow> string list" where
  "ended_words n s = take n (butlast (pieces ends_slave s))"

definition snsd_seperate_slaves :: "string \<Rightarrow> string list" where
  "snsd_seperate_slaves slaves = ended_words SNSD_MAX_SLAVES (cstring slaves)"

fun create_slaves :: "mgt_env \<Rightarrow> string list \<Rightarrow> port_info \<Rightarrow> port_info \<times> int" where
  "create_slaves env [] info = (info, 0)"
| "create_slaves env (slave_name # names) info =
    (case snsd_create_slave env slave_name info of (info, ret) \<Rightarrow>
       if ret \<noteq> 0 then (info\<lparr>pi_bonding_slaves := None\<rparr>, - EAGAIN_code)
       else create_slaves env names info)"

definition snsd_get_slave :: "mgt_env \<Rightarrow> string option \<Rightarrow> port_info \<Rightarrow> port_info \<times> int" where
  "snsd_get_slave env slaves info =
    (let info = info\<lparr>pi_bonding_states := STATE_BONDING_VALID OR STATE_BONDING_CHANGE\<rparr> in
     case slaves of
       None \<Rightarrow> (info, 0)
     | Some slaves \<Rightarrow>
         if \<not> me_malloc env (For_slaves_text slaves)
         then (info\<lparr>pi_bonding_slaves := None\<rparr>, - EAGAIN_code)
         else create_slaves env (snsd_seperate_slaves slaves)
           (info\<lparr>pi_bonding_slaves := Some (cstring slaves)\<rparr>))"

text \<open>\<open>snsd_need_new_slave\<close>: whether no slave has the name; the first that has it is kept.\<close>

fun snsd_need_new_slave :: "string \<Rightarrow> slave_info list \<Rightarrow> slave_info list \<times> bool" where
  "snsd_need_new_slave slave_name [] = ([], True)"
| "snsd_need_new_slave slave_name (slave # slaves) =
    (if slave_name = name_text (sl_name slave)
     then (slave\<lparr>sl_state := flag_clear (sl_state slave) STATE_SLAVE_DELETED\<rparr> # slaves, False)
     else case snsd_need_new_slave slave_name slaves of (slaves, new) \<Rightarrow> (slave # slaves, new))"

fun verify_slaves :: "mgt_env \<Rightarrow> string list \<Rightarrow> port_info \<Rightarrow> port_info \<times> int" where
  "verify_slaves env [] info = (info, 0)"
| "verify_slaves env (slave_name # names) info =
    (case snsd_need_new_slave slave_name (pi_slaves info) of (slaves, new) \<Rightarrow>
       let info = info\<lparr>pi_slaves := slaves\<rparr> in
       if new then
         (case snsd_create_slave env slave_name info of (info, ret) \<Rightarrow>
            if ret \<noteq> 0 then (info\<lparr>pi_bonding_slaves := None\<rparr>, - EAGAIN_code)
            else verify_slaves env names info)
       else verify_slaves env names info)"

text \<open>
  \<open>snsd_verify_slave\<close>: \<open>None\<close> where it hands a null pointer to \<open>strcmp\<close>, because the file
  with the names of the slaves is empty.
\<close>

definition snsd_verify_slave :: "mgt_env \<Rightarrow> string option \<Rightarrow> port_info \<Rightarrow> (port_info \<times> int) option" where
  "snsd_verify_slave env slaves info =
    (if pi_slaves info \<noteq> [] \<and> pi_bonding_slaves info \<noteq> None \<and> slaves = None then None
     else if pi_slaves info \<noteq> [] \<and> pi_bonding_slaves info \<noteq> None \<and>
       map_option cstring slaves = pi_bonding_slaves info then Some (info, 0)
     else
       let info = info\<lparr>pi_bonding_slaves := None,
             pi_bonding_states := pi_bonding_states info OR STATE_BONDING_CHANGE,
             pi_slaves := List.map (\<lambda>slave. slave\<lparr>sl_state := sl_state slave OR STATE_SLAVE_DELETED\<rparr>)
               (pi_slaves info)\<rparr> in
       case slaves of
         None \<Rightarrow> Some (info, 0)
       | Some slaves \<Rightarrow>
           if \<not> me_malloc env (For_slaves_text slaves) then Some (info, - EAGAIN_code)
           else Some (verify_slaves env (snsd_seperate_slaves slaves)
             (info\<lparr>pi_bonding_slaves := Some (cstring slaves)\<rparr>)))"

definition snsd_is_bonding :: "string list \<Rightarrow> string \<Rightarrow> bool" where
  "snsd_is_bonding bonding_group phy_ifname \<longleftrightarrow> list_ex (\<lambda>temp. temp = phy_ifname) bonding_group"

definition snsd_check_get_slave ::
  "mgt_env \<Rightarrow> string list \<Rightarrow> string \<Rightarrow> port_info \<Rightarrow> (port_info \<times> int) option" where
  "snsd_check_get_slave env bonding_group phy_ifname info =
    (let check_change = flag_set (pi_bonding_states info) STATE_BONDING_VALID in
     if \<not> check_change \<and> \<not> snsd_is_bonding bonding_group phy_ifname then Some (info, 0)
     else
       (case snsd_get_file_info env (snprintf_text SNSD_BONDING_SLAVES_FILE_LENGTH
           (SNSD_NET_PATH @ ''/'' @ phy_ifname @ ''/bonding/slaves'')) of (ret, slaves) \<Rightarrow>
          if ret < 0 then Some (info, - EAGAIN_code)
          else if check_change then snsd_verify_slave env slaves info
          else Some (snsd_get_slave env slaves info)))"

text \<open>\<open>snsd_get_bonding_info\<close>: the names of the bondings.\<close>

definition snsd_get_bonding_info :: "mgt_env \<Rightarrow> int + string list" where
  "snsd_get_bonding_info env =
    (case snsd_get_file_info env SNSD_BONDING_FILE_PATH of (len, bonding_info) \<Rightarrow>
       if len < 0 then Inl (- EAGAIN_code)
       else case bonding_info of
         None \<Rightarrow> Inr []
       | Some text \<Rightarrow> Inr (List.map cstring (ended_words MAX_PHY_PORT text)))"

end
