(* ===== verification/Snsd_Mgt_Ports.thy ===== *)
theory Snsd_Mgt_Ports
  imports Snsd_Mgt
begin

text \<open>
  The rest of \<open>src/snsd_mgt.c\<close>: collecting the ports of a mode and filtering them.  The list of
  ports is a list of records, new ports at its end; \<open>zero\<close> is a port as \<open>memset\<close> leaves it,
  whose mode's member of the union stays what it is.  \<open>None\<close> is a poll that does not return,
  because it dereferences a null pointer or searches forever.
\<close>

section \<open>One port\<close>

text \<open>
  \<open>snsd_get_mix_info\<close>: the physical interface of a port and the slaves of a bonding below it, the
  VLAN, and both together.
\<close>

definition phy_ifname ::
  "mgt_env \<Rightarrow> string list \<Rightarrow> string \<Rightarrow> int \<times> nat \<Rightarrow> port_info \<Rightarrow> (port_info \<times> string \<times> int) option" where
  "phy_ifname env bonds vlan_info found port_info =
    (if fst found = SNSD_INVALID_VLAN then Some (port_info, name_text (pi_name port_info), 0)
     else case snsd_get_phy_ifname vlan_info (snd found) of
       None \<Rightarrow> Some (port_info, [], - EAGAIN_code)
     | Some ifname \<Rightarrow>
         map_option (\<lambda>(port_info, ret).
           if ret \<noteq> 0 then (port_info, ifname, ret)
           else (port_info\<lparr>pi_phy_name := name_array ifname\<rparr>, ifname, 0))
         (snsd_check_get_slave env bonds ifname port_info))"

definition set_vlan :: "int \<Rightarrow> port_info \<Rightarrow> port_info" where
  "set_vlan vlan port_info =
    (if pi_vlan port_info \<noteq> vlan then
       (if pi_vlan port_info \<noteq> SNSD_INVALID_VLAN
        then port_info\<lparr>pi_vlan := vlan, pi_states := pi_states port_info OR STATE_VLAN_CHANGE\<rparr>
        else port_info\<lparr>pi_vlan := vlan\<rparr>)
     else port_info\<lparr>pi_states := flag_clear (pi_states port_info) STATE_VLAN_CHANGE\<rparr>)"

definition snsd_get_mix_info ::
  "mgt_env \<Rightarrow> string list \<Rightarrow> string \<Rightarrow> port_info \<Rightarrow> (port_info \<times> int) option" where
  "snsd_get_mix_info env bonds vlan_info port_info =
    (case snsd_fill_vlan (name_text (pi_name port_info)) vlan_info of
       None \<Rightarrow> None
     | Some found \<Rightarrow>
         (case phy_ifname env bonds vlan_info found port_info of
            None \<Rightarrow> None
          | Some (port_info, ifname, ret) \<Rightarrow>
              if ret \<noteq> 0 then Some (port_info, ret)
              else
                let port_info = set_vlan (fst found) port_info in
                case me_ifindex env ifname of
                  None \<Rightarrow> Some (port_info, - EAGAIN_code)
                | Some ifindex \<Rightarrow> Some (port_info\<lparr>pi_phy_ifindex := ifindex\<rparr>, 0)))"

definition zero_port :: port_info where
  "zero_port = \<lparr>pi_name = replicate IFNAMSIZ 0, pi_name_index = 0, pi_service_type = 0, pi_family = 0,
    pi_ip = replicate IPV6_ADDR_LENGTH 0, pi_tgtip = replicate IPV6_ADDR_LENGTH 0, pi_mac = replicate 6 0,
    pi_protocol = 0, pi_protol_role = 0, pi_ulp_port = 0, pi_vlan = 0, pi_flags = 0, pi_count = 0,
    pi_states = 0, pi_phy_ifindex = 0, pi_phy_name = replicate IFNAMSIZ 0, pi_bonding_states = 0,
    pi_slaves_count = 0, pi_bonding_slaves = None, pi_slaves = []\<rparr>"

definition snsd_get_new ::
  "mgt_env \<Rightarrow> 'p net_info_scheme \<Rightarrow> ifreq \<Rightarrow> 'p net_info_scheme option" where
  "snsd_get_new env zero ifr =
    (if \<not> me_malloc env (For_port (if_name ifr)) then None
     else Some (zero\<lparr>ni_port_info := zero_port\<lparr>pi_name := if_name ifr, pi_family := if_family ifr,
       pi_ip := mem_put 0 (if_addr ifr) (pi_ip zero_port)\<rparr>\<rparr>))"

definition is_port_of :: "ifreq \<Rightarrow> 'p net_info_scheme \<Rightarrow> bool" where
  "is_port_of ifr item \<longleftrightarrow> pi_name (ni_port_info item) = if_name ifr \<and>
    take IPV4_ADDR_LENGTH (pi_ip (ni_port_info item)) = if_addr ifr"

definition upd_port :: "(port_info \<Rightarrow> port_info) \<Rightarrow> 'p net_info_scheme \<Rightarrow> 'p net_info_scheme" where
  "upd_port f item = item\<lparr>ni_port_info := f (ni_port_info item)\<rparr>"

text \<open>\<open>snsd_try_find_old\<close>: the list and the place of the interface's port in it.\<close>

definition snsd_try_find_old ::
  "mgt_env \<Rightarrow> 'p net_info_scheme \<Rightarrow> u32 \<Rightarrow> ifreq \<Rightarrow> 'p net_info_scheme list \<Rightarrow>
    ('p net_info_scheme list \<times> nat) option" where
  "snsd_try_find_old env zero count ifr nets =
    (case first_idx (is_port_of ifr) nets of
       None \<Rightarrow> (case snsd_get_new env zero ifr of
           None \<Rightarrow> None
         | Some item \<Rightarrow> Some (nets @ [upd_port (\<lambda>p. p\<lparr>pi_vlan := SNSD_INVALID_VLAN,
             pi_count := count - 1, pi_states := pi_states p OR STATE_NEW_PORT\<rparr>) item], length nets))
     | Some i \<Rightarrow> Some (nets[i := upd_port (\<lambda>p. p\<lparr>pi_states := flag_clear (pi_states p) STATE_NEW_PORT\<rparr>)
         (nets ! i)], i))"

definition snsd_get_mac_and_flags :: "mgt_env \<Rightarrow> port_info \<Rightarrow> port_info \<times> int" where
  "snsd_get_mac_and_flags env port_info =
    (case me_hwaddr env (name_text (pi_name port_info)) of
       None \<Rightarrow> (port_info, - EAGAIN_code)
     | Some mac \<Rightarrow>
         let port_info = port_info\<lparr>pi_mac := take 6 mac\<rparr> in
         case me_flags env (name_text (pi_name port_info)) of
           None \<Rightarrow> (port_info, - EAGAIN_code)
         | Some flags \<Rightarrow> (port_info\<lparr>pi_flags := flags\<rparr>, 0))"

section \<open>The interfaces of the kernel\<close>

text \<open>The loop of \<open>snsd_get_net_info\<close> over the interfaces; \<open>ret\<close> is its variable.\<close>

fun net_info_loop ::
  "mgt_env \<Rightarrow> 'k cfg_sys \<Rightarrow> 'p net_info_scheme \<Rightarrow> u32 \<Rightarrow> string list \<Rightarrow> string \<Rightarrow> ifreq list \<Rightarrow>
    int \<Rightarrow> 'p net_info_scheme list \<Rightarrow> ('p net_info_scheme list \<times> int) option" where
  "net_info_loop env cfg zero count bonds vlan_info [] ret nets = Some (nets, ret)"
| "net_info_loop env cfg zero count bonds vlan_info (ifr # ifrs) ret nets =
    (if if_family ifr \<noteq> AF_INET then net_info_loop env cfg zero count bonds vlan_info ifrs ret nets
     else case snsd_try_find_old env zero count ifr nets of
       None \<Rightarrow> Some (nets, - EAGAIN_code)
     | Some (nets, i) \<Rightarrow>
         (case snsd_get_mac_and_flags env (ni_port_info (nets ! i)) of (port_info, ret) \<Rightarrow>
            if ret \<noteq> 0 then Some (nets[i := upd_port (\<lambda>_. port_info) (nets ! i)], ret)
            else case snsd_get_mix_info env bonds vlan_info port_info of
              None \<Rightarrow> None
            | Some (port_info, ret) \<Rightarrow>
                let nets = nets[i := upd_port (\<lambda>_. port_info) (nets ! i)] in
                if ret \<noteq> 0 then Some (nets, ret)
                else
                  let nets =
                    (if pi_vlan port_info = SNSD_INVALID_VLAN then
                       (if flag_set (pi_states port_info) STATE_NEW_PORT
                        then take i nets @ drop (Suc i) nets else nets)
                     else nets[i := upd_port (\<lambda>p. p\<lparr>pi_protocol := nat (snsd_get_any_protocol cfg),
                       pi_count := count\<rparr>) (nets ! i)])
                  in net_info_loop env cfg zero count bonds vlan_info ifrs ret nets))"

definition snsd_get_net_info ::
  "mgt_env \<Rightarrow> 'k cfg_sys \<Rightarrow> 'p net_info_scheme \<Rightarrow> u32 \<Rightarrow> ifreq list \<Rightarrow> 'p net_info_scheme list \<Rightarrow>
    ('p net_info_scheme list \<times> int) option" where
  "snsd_get_net_info env cfg zero count ifc nets =
    (case (if me_access env SNSD_BONDING_FILE_PATH
           then (case snsd_get_bonding_info env of Inl ret \<Rightarrow> Inl ret | Inr bonds \<Rightarrow> Inr (bonds, 0))
           else Inr ([], me_ret env)) of
       Inl ret \<Rightarrow> Some (nets, ret)
     | Inr (bonds, ret) \<Rightarrow>
         (case snsd_get_file_info env SNSD_VLAN_FILE_PATH of
            (vlan_length, None) \<Rightarrow> Some (nets, - EAGAIN_code)
          | (vlan_length, Some vlan_info) \<Rightarrow>
              net_info_loop env cfg zero count bonds vlan_info ifc ret nets))"

text \<open>
  \<open>snsd_get_ifconf\<close>: the buffer grows until the kernel does not fill it.  The outer
  \<open>None\<close> is a kernel that always fills it, the inner one a failure.
\<close>

partial_function (option) ifconf_loop :: "mgt_env \<Rightarrow> nat \<Rightarrow> ifreq list option option" where
  "ifconf_loop env numreqs =
    (if \<not> me_malloc env (For_ifconf numreqs) then Some None
     else case me_ifconf env numreqs of
       None \<Rightarrow> Some None
     | Some reqs \<Rightarrow>
         if length reqs = numreqs then ifconf_loop env (numreqs + SNSD_DEFAULT_IFS)
         else Some (Some reqs))"

declare ifconf_loop.simps [code]

definition snsd_get_ifconf :: "mgt_env \<Rightarrow> ifreq list option option" where
  "snsd_get_ifconf env = ifconf_loop env SNSD_DEFAULT_IFS"

definition snsd_all_net_info ::
  "mgt_env \<Rightarrow> 'k cfg_sys \<Rightarrow> 'p net_info_scheme \<Rightarrow> u32 \<Rightarrow> 'p net_info_scheme list \<Rightarrow>
    ('p net_info_scheme list \<times> int) option" where
  "snsd_all_net_info env cfg zero count nets =
    (if \<not> me_socket env then Some (nets, - EAGAIN_code)
     else case snsd_get_ifconf env of
       None \<Rightarrow> None
     | Some None \<Rightarrow> Some (nets, - EAGAIN_code)
     | Some (Some ifc) \<Rightarrow> snsd_get_net_info env cfg zero count ifc nets)"

section \<open>Protocols\<close>

definition snsd_check_bonding_slave :: "slave_info list \<Rightarrow> string \<Rightarrow> bool" where
  "snsd_check_bonding_slave slaves ib_name \<longleftrightarrow> list_ex (\<lambda>slave. ib_name = name_text (sl_name slave)) slaves"

definition is_dot :: "string \<Rightarrow> bool" where
  "is_dot d_name \<longleftrightarrow> d_name = ''.'' \<or> d_name = ''..''"

definition snsd_check_ib_one_port :: "mgt_env \<Rightarrow> port_info \<Rightarrow> string \<Rightarrow> bool" where
  "snsd_check_ib_one_port env cur_net dir_path =
    (case me_readdir env dir_path of
       None \<Rightarrow> False
     | Some names \<Rightarrow> list_ex (\<lambda>d_name.
         if flag_set (pi_bonding_states cur_net) STATE_BONDING_VALID
         then snsd_check_bonding_slave (pi_slaves cur_net) d_name
         else d_name = name_text (pi_phy_name cur_net)) (List.filter (\<lambda>d. \<not> is_dot d) names))"

text \<open>
  \<open>snsd_protocol_ib\<close>: the directories are read only for a new port and for a bonding whose
  slaves have changed.
\<close>

definition snsd_protocol_ib :: "mgt_env \<Rightarrow> port_info \<Rightarrow> bool" where
  "snsd_protocol_ib env cur_net =
    (if \<not> flag_set (pi_states cur_net) STATE_NEW_PORT \<and>
        (\<not> flag_set (pi_bonding_states cur_net) STATE_BONDING_VALID \<or>
         \<not> flag_set (pi_bonding_states cur_net) STATE_BONDING_CHANGE) then True
     else if flag_set (pi_bonding_states cur_net) STATE_BONDING_VALID \<and> pi_slaves_count cur_net = 0 then False
     else case me_readdir env SNSD_IB_PROTOCOL_PATH of
       None \<Rightarrow> False
     | Some names \<Rightarrow> list_ex (\<lambda>d_name. snsd_check_ib_one_port env cur_net
         (snprintf_text SNSD_CFG_VALUE_MAX_LEN (SNSD_IB_PROTOCOL_PATH @ ''/'' @ d_name @ ''/device/net'')))
         (List.filter (\<lambda>d. \<not> is_dot d) names))"

definition snsd_protocol_unsupport :: "mgt_env \<Rightarrow> port_info \<Rightarrow> bool" where
  "snsd_protocol_unsupport env cur_net = False"

definition protocol_options :: "(nat \<times> (mgt_env \<Rightarrow> port_info \<Rightarrow> bool)) list" where
  "protocol_options = [(SNSD_PROTOCOL_ROCE, snsd_protocol_ib), (SNSD_PROTOCOL_TCP, snsd_protocol_unsupport),
    (SNSD_PROTOCOL_ISCSI, snsd_protocol_unsupport)]"

definition protocol_flag :: "mgt_env \<Rightarrow> port_info \<Rightarrow> bool" where
  "protocol_flag env cur_net =
    (case map_of protocol_options (pi_protocol cur_net) of
       None \<Rightarrow> False
     | Some protocol_handle \<Rightarrow> protocol_handle env cur_net)"

fun snsd_protocol_handle ::
  "mgt_env \<Rightarrow> u32 \<Rightarrow> 'p net_info_scheme list \<Rightarrow> 'p net_info_scheme list" where
  "snsd_protocol_handle env count [] = []"
| "snsd_protocol_handle env count (cur_net # nets) =
    (if pi_count (ni_port_info cur_net) \<noteq> count then cur_net # snsd_protocol_handle env count nets
     else
       let cur_net = (if pi_protocol (ni_port_info cur_net) = 0
             then upd_port (\<lambda>p. p\<lparr>pi_protocol := SNSD_PROTOCOL_ROCE\<rparr>) cur_net else cur_net) in
       if \<not> protocol_flag env (ni_port_info cur_net) then
         (if flag_set (pi_states (ni_port_info cur_net)) STATE_NEW_PORT
          then snsd_protocol_handle env count nets
          else upd_port (\<lambda>p. p\<lparr>pi_count := pi_count p - 1\<rparr>) cur_net # snsd_protocol_handle env count nets)
       else cur_net # snsd_protocol_handle env count nets)"

section \<open>The configured ports\<close>

definition snsd_fill_net_info :: "cfg_infos \<Rightarrow> port_info \<Rightarrow> port_info" where
  "snsd_fill_net_info cur_cfg p =
    (let role = word_of_int (cc_protol_role cur_cfg) :: u8 in
     p\<lparr>pi_service_type := pi_service_type p OR push_bit SNSD_SERVICE_TYPE_INFORM 1,
       pi_protocol := nat (cc_protocol cur_cfg),
       pi_protol_role := (if role = SNSD_NONE then SNSD_CLIENT else role),
       pi_ulp_port := (if cc_trsvcid cur_cfg = ''invalid'' then 0 else word_of_int (atoi (cc_trsvcid cur_cfg)))\<rparr>)"

definition snsd_check_and_fill ::
  "mgt_env \<Rightarrow> snsd_any \<Rightarrow> snsd_mode \<Rightarrow> cfg_infos \<Rightarrow> port_info \<Rightarrow> port_info \<times> bool" where
  "snsd_check_and_fill env any_ip mode cur_cfg p =
    (if any_ip = SNSD_ANY_YES \<and> mode = SNSD_MODE_SW then (snsd_fill_net_info cur_cfg p, True)
     else case me_pton env (ci_host_traddr cur_cfg) of
       None \<Rightarrow> (p, False)
     | Some addr2 \<Rightarrow>
         (case (if mode = SNSD_MODE_DC then
              (case me_pton env (ci_traddr cur_cfg) of
                 None \<Rightarrow> None
               | Some target \<Rightarrow> Some (p\<lparr>pi_tgtip := mem_put 0 (take IPV4_ADDR_LENGTH target) (pi_tgtip p)\<rparr>))
              else Some p) of
            None \<Rightarrow> (p, False)
          | Some p \<Rightarrow>
              if take IPV4_ADDR_LENGTH (pi_ip p) = take IPV4_ADDR_LENGTH addr2
              then (snsd_fill_net_info cur_cfg p, True)
              else (p, False)))"

fun fill_first ::
  "mgt_env \<Rightarrow> snsd_any \<Rightarrow> snsd_mode \<Rightarrow> cfg_infos list \<Rightarrow> port_info \<Rightarrow> port_info \<times> bool" where
  "fill_first env any_ip mode [] p = (p, False)"
| "fill_first env any_ip mode (cur_cfg # cfgs) p =
    (case snsd_check_and_fill env any_ip mode cur_cfg p of (p, found) \<Rightarrow>
       if found then (p, True) else fill_first env any_ip mode cfgs p)"

fun snsd_dealwith_cfg ::
  "mgt_env \<Rightarrow> snsd_any \<Rightarrow> snsd_mode \<Rightarrow> cfg_infos list \<Rightarrow> 'p net_info_scheme list \<Rightarrow>
    'p net_info_scheme list" where
  "snsd_dealwith_cfg env any_ip mode cfgs [] = []"
| "snsd_dealwith_cfg env any_ip mode cfgs (cur_net # nets) =
    (case fill_first env any_ip mode cfgs (ni_port_info cur_net) of (p, found) \<Rightarrow>
       if found then upd_port (\<lambda>_. p) cur_net # snsd_dealwith_cfg env any_ip mode cfgs nets
       else snsd_dealwith_cfg env any_ip mode cfgs nets)"

definition snsd_cfg_net_info ::
  "mgt_env \<Rightarrow> 'k cfg_sys \<Rightarrow> 'p net_info_scheme \<Rightarrow> snsd_mode \<Rightarrow> u32 \<Rightarrow> 'p net_info_scheme list \<Rightarrow>
    ('p net_info_scheme list \<times> int) option" where
  "snsd_cfg_net_info env cfg zero mode count nets =
    (let cfg_info = snsd_get_net_cfg mode cfg in
     if snsd_get_any_ip cfg \<noteq> SNSD_ANY_YES \<and> mode = SNSD_MODE_SW \<and> cfg_info = [] \<or>
        mode = SNSD_MODE_DC \<and> cfg_info = [] then Some (nets, - EPERM_code)
     else case snsd_all_net_info env cfg zero count nets of
       None \<Rightarrow> None
     | Some (nets, ret) \<Rightarrow>
         if ret \<noteq> 0 then Some (nets, - EPERM_code)
         else Some (snsd_protocol_handle env count
           (snsd_dealwith_cfg env (snsd_get_any_ip cfg) mode cfg_info nets), 0))"

end
