(* ===== verification/Snsd_Mgt_Props.thy ===== *)
theory Snsd_Mgt_Props
  imports Snsd_Mgt_Ports Snsd_Cfg_Items
begin

text \<open>
  Properties of the VLAN table of \<open>src/snsd_mgt.c\<close>: looking up an interface ends, gives the entry of
  a printed table back, and may find the entry of another interface with a longer name.
\<close>

section \<open>The VLAN table\<close>

lemma strstr_SomeD:
  assumes "strstr s p = Some r"
  shows "\<exists>k \<le> length s. r = drop k s \<and> is_prefix p r \<and> (\<forall>j < k. \<not> is_prefix p (drop j s))"
  using assms
proof (induction s arbitrary: r)
  case Nil
  then show ?case by (simp split: if_splits)
next
  case (Cons c s)
  show ?case
  proof (cases "is_prefix p (c # s)")
    case True
    with Cons.prems show ?thesis by (intro exI [of _ 0]) simp
  next
    case False
    with Cons obtain k where "k \<le> length s" "r = drop k s" "is_prefix p r"
      "\<forall>j < k. \<not> is_prefix p (drop j s)" by auto
    moreover have "\<not> is_prefix p (drop j (c # s))" if "j < Suc k" for j
      using that False calculation(4) by (cases j) simp_all
    ultimately show ?thesis by (intro exI [of _ "Suc k"]) simp
  qed
qed

lemma strstr_NoneD: "strstr s p = None \<Longrightarrow> \<not> is_prefix p (drop k s)"
proof (induction s arbitrary: k)
  case Nil
  then show ?case by (cases p) (simp_all split: if_splits)
next
  case (Cons c s)
  then show ?case by (cases k) (auto split: if_splits)
qed

lemma find_vlan_returns:
  assumes "name \<noteq> []"
  shows "\<exists>r. find_vlan_loop name buf next = Some r"
proof (induction "length buf - next" arbitrary: "next" rule: less_induct)
  case less
  have step: "\<exists>r. find_vlan_loop name buf n = Some r" if "next < length buf" "next < n" for n
    by (rule less) (use that in linarith)
  then have "\<exists>r. find_vlan_loop name buf (k + length name) = Some r"
    if "next < length buf" "next \<le> k" for k
  proof -
    have "0 < length name" using assms by simp
    then have "next < k + length name" using that(2) by linarith
    with step that(1) show ?thesis by blast
  qed
  then show ?case by (subst find_vlan_loop.simps) (auto simp: Let_def split: option.split)
qed

text \<open>
  The search for an interface in the VLAN table ends, whatever the file holds, because every
  interface has a name.
\<close>

theorem snsd_fill_vlan_returns:
  assumes "name \<noteq> []"
  shows "snsd_fill_vlan name buf \<noteq> None"
  using find_vlan_returns [OF assms, of buf 0]
  by (auto simp: snsd_fill_vlan_def snsd_find_vlan_start_def Let_def split: option.splits)

text \<open>A name as it stands in the first column: blanks and a bar follow.\<close>

definition plain_name :: "string \<Rightarrow> bool" where
  "plain_name name \<longleftrightarrow> name \<noteq> [] \<and> (\<forall>c \<in> set name. c \<noteq> NUL \<and> \<not> isspace c \<and> \<not> is_bar c)"

definition in_column :: "string \<Rightarrow> string \<Rightarrow> bool" where
  "in_column name cur \<longleftrightarrow> (\<exists>bl t. cur = name @ bl @ CHR ''|'' # t \<and> (\<forall>c \<in> set bl. isblank c) \<and>
    length name + length bl < SNSD_CFG_NAME_MAX_LEN)"

lemma in_column_prefix: "in_column name cur \<Longrightarrow> is_prefix name cur"
  by (auto simp: in_column_def)

lemma list_all_upt: "list_all P [0..<n] \<longleftrightarrow> (\<forall>j < n. P j)"
  by (auto simp: list_all_iff)

lemma isblank_chars [simp]: "isblank c \<Longrightarrow> \<not> is_bar c \<and> \<not> is_eol c"
  by (auto simp: isblank_def is_bar_def is_eol_def)

lemma isspace_blank: "isblank c \<or> is_eol c \<Longrightarrow> isspace c"
  by (auto simp: isblank_def is_eol_def isspace_def)

lemma plain_nameD:
  assumes "plain_name name" and "c \<in> set name"
  shows "\<not> isblank c" "\<not> is_bar c" "\<not> is_eol c" "c \<noteq> NUL" "c \<noteq> LF"
  using assms isspace_blank [of c] by (auto simp: plain_name_def is_eol_def)

lemma trim_blanks:
  assumes "plain_name name" and "b = [] \<or> \<not> isblank (last b)"
  shows "rev (dropWhile isblank (rev (name @ b))) = name @ b"
proof -
  from assms obtain c r where c: "rev (name @ b) = c # r" "\<not> isblank c"
  proof (cases b rule: rev_cases)
    case Nil
    from assms(1) have "name \<noteq> []" by (simp add: plain_name_def)
    moreover from this have "\<not> isblank (last name)" using plain_nameD(1) [OF assms(1)] by simp
    ultimately show ?thesis using that Nil by (cases name rule: rev_cases) simp_all
  qed (use assms(2) that in simp)
  have "dropWhile isblank (rev (name @ b)) = rev (name @ b)" unfolding c(1) using c(2) by simp
  then show ?thesis by (simp only: rev_rev_ident)
qed

lemma split_blanks: "\<exists>a bl. b = a @ bl \<and> (\<forall>c \<in> set bl. isblank c) \<and> (a = [] \<or> \<not> isblank (last a))"
proof (induction b rule: rev_induct)
  case (snoc c b)
  show ?case
  proof (cases "isblank c")
    case True
    from snoc obtain a bl where "b = a @ bl" "\<forall>c \<in> set bl. isblank c" "a = [] \<or> \<not> isblank (last a)" by blast
    with True show ?thesis by (intro exI [of _ a] exI [of _ "bl @ [c]"]) auto
  next
    case False
    then show ?thesis by (intro exI [of _ "b @ [c]"] exI [of _ "[]"]) simp
  qed
qed simp

lemma trimmed:
  assumes "plain_name name" and "\<forall>c \<in> set bl. isblank c" and "a = [] \<or> \<not> isblank (last a)"
  shows "rev (dropWhile isblank (rev (name @ a @ bl))) = name @ a"
proof -
  have "dropWhile isblank (rev bl @ rev (name @ a)) = dropWhile isblank (rev (name @ a))"
    using assms(2) by (intro dropWhile_append2) simp
  then show ?thesis using trim_blanks [OF assms(1,3)] by simp
qed

lemma column_matches:
  assumes "plain_name name" and "in_column name cur"
  shows "snsd_match_vlan cur name"
proof -
  let ?Q = "\<lambda>c. \<not> is_bar c \<and> \<not> is_eol c"
  have Q: "\<forall>c \<in> set name. ?Q c" using plain_nameD [OF assms(1)] by blast
  from assms(2) obtain bl t where cur: "cur = (name @ bl) @ CHR ''|'' # t" and bl: "\<forall>c \<in> set bl. isblank c"
    and len: "length (name @ bl) < SNSD_CFG_NAME_MAX_LEN" by (auto simp: in_column_def)
  have "take SNSD_CFG_NAME_MAX_LEN cur = (name @ bl) @ CHR ''|'' # take (126 - length (name @ bl)) t"
  proof -
    have "SNSD_CFG_NAME_MAX_LEN - length (name @ bl) = Suc (126 - length (name @ bl))" using len by simp
    then show ?thesis unfolding cur take_append [of _ "name @ bl"] using len by simp
  qed
  moreover have "takeWhile ?Q ((name @ bl) @ CHR ''|'' # u) = name @ bl" for u
  proof -
    have "\<forall>c \<in> set (name @ bl). ?Q c" using Q bl isblank_chars by (metis UnE set_append)
    then have "takeWhile ?Q ((name @ bl) @ CHR ''|'' # u) = (name @ bl) @ takeWhile ?Q (CHR ''|'' # u)"
      by (intro takeWhile_append2) blast
    then show ?thesis by (simp add: is_bar_def)
  qed
  ultimately have w: "takeWhile ?Q (take SNSD_CFG_NAME_MAX_LEN cur) = name @ bl" by simp
  have t: "rev (dropWhile isblank (rev (name @ bl))) = name"
    using trimmed [OF assms(1) bl, of "[]"] by (simp only: append_Nil append_Nil2 simp_thms)
  have "cur ! length (name @ bl) = CHR ''|''" unfolding cur by (rule nth_append_length)
  moreover have "length (name @ bl) < length cur" unfolding cur by simp
  ultimately show ?thesis
    unfolding snsd_match_vlan_def w Let_def t using len by (simp add: is_bar_def strncmp_eq_def)
qed

text \<open>What the code takes for the name starts with the name, if it is shorter than the buffer.\<close>

abbreviation vlan_word :: "string \<Rightarrow> string" where
  "vlan_word cur \<equiv> takeWhile (\<lambda>c. \<not> is_bar c \<and> \<not> is_eol c) (take SNSD_CFG_NAME_MAX_LEN cur)"

lemma vlan_word_starts:
  assumes "plain_name name" and "is_prefix name cur" and "length (vlan_word cur) < SNSD_CFG_NAME_MAX_LEN"
  obtains b where "vlan_word cur = name @ b"
proof -
  let ?Q = "\<lambda>c. \<not> is_bar c \<and> \<not> is_eol c"
  have Q: "\<forall>c \<in> set name. ?Q c" using plain_nameD [OF assms(1)] by blast
  from assms(2) obtain r where r: "cur = name @ r" by (metis append_take_drop_id is_prefix_def)
  show thesis
  proof (cases "length name < SNSD_CFG_NAME_MAX_LEN")
    case True
    then show ?thesis using that Q by (simp add: r takeWhile_append2)
  next
    case False
    then have "take SNSD_CFG_NAME_MAX_LEN cur = take SNSD_CFG_NAME_MAX_LEN name" by (simp add: r)
    moreover have "takeWhile ?Q (take SNSD_CFG_NAME_MAX_LEN name) = take SNSD_CFG_NAME_MAX_LEN name"
      using Q by (auto simp: takeWhile_eq_all_conv dest: in_set_takeD)
    ultimately have "vlan_word cur = take SNSD_CFG_NAME_MAX_LEN name" by (simp only:)
    then have "length (vlan_word cur) = min (length name) SNSD_CFG_NAME_MAX_LEN" by (simp only: length_take)
    with assms(3) False show ?thesis by linarith
  qed
qed

lemma match_in_column:
  assumes "plain_name name" and "is_prefix name cur" and "NUL \<notin> set cur" and "snsd_match_vlan cur name"
  shows "in_column name cur"
proof -
  let ?w = "vlan_word cur"
  have ix: "length ?w < SNSD_CFG_NAME_MAX_LEN" "length ?w < length cur" "is_bar (cur ! length ?w)"
    and eq: "strncmp_eq (length (rev (dropWhile isblank (rev ?w)))) (rev (dropWhile isblank (rev ?w))) name"
    using assms(4) unfolding snsd_match_vlan_def Let_def by (simp_all split: if_splits)
  obtain b where b: "?w = name @ b" using vlan_word_starts [OF assms(1,2) ix(1)] .
  obtain a bl where ab: "b = a @ bl" "\<forall>c \<in> set bl. isblank c" "a = [] \<or> \<not> isblank (last a)"
    using split_blanks by blast
  have t: "rev (dropWhile isblank (rev ?w)) = name @ a"
    unfolding b ab(1) by (rule trimmed [OF assms(1) ab(2,3)])
  have "set ?w \<subseteq> set cur" by (auto dest: set_takeWhileD in_set_takeD)
  then have nul: "NUL \<notin> set name" "NUL \<notin> set a" using assms(3) unfolding b ab(1) by auto
  have "a = []"
  proof (rule ccontr)
    assume "a \<noteq> []"
    then obtain x xs where "a = x # xs" by (cases a) auto
    have "take (length (name @ a)) ((name @ a) @ [NUL]) = take (length (name @ a)) (name @ [NUL])"
      using eq nul unfolding t strncmp_eq_def by (simp only: cstring_plain set_append Un_iff simp_thms)
    then have "name @ a = name @ [NUL]" using \<open>a = x # xs\<close> by simp
    with nul show False by simp
  qed
  let ?n = "length (name @ b)"
  have "?w = take (length ?w) (take SNSD_CFG_NAME_MAX_LEN cur)" by (rule takeWhile_eq_take)
  also have "\<dots> = take (length ?w) cur"
    by (simp only: take_take min.absorb1 [OF less_imp_le [OF ix(1)]])
  finally have "name @ b = take ?n cur" unfolding b .
  moreover have "cur = take ?n cur @ cur ! ?n # drop (Suc ?n) cur"
    by (rule id_take_nth_drop) (use ix(2) in \<open>simp only: b\<close>)
  moreover have "is_bar (cur ! ?n)" using ix(3) unfolding b .
  then have "cur ! ?n = CHR ''|''" by (simp only: is_bar_def)
  ultimately have "cur = (name @ b) @ CHR ''|'' # drop (Suc ?n) cur" by (simp only:)
  moreover have "?n < SNSD_CFG_NAME_MAX_LEN" using ix(1) unfolding b .
  ultimately show ?thesis using ab \<open>a = []\<close> unfolding in_column_def
    by (intro exI [of _ bl] exI [of _ "drop (Suc ?n) cur"]) simp
qed

lemma match_vlan_iff:
  assumes "plain_name name" and "is_prefix name cur" and "NUL \<notin> set cur"
  shows "snsd_match_vlan cur name \<longleftrightarrow> in_column name cur"
  using column_matches match_in_column assms by blast

text \<open>
  The search finds the first place where the name stands in a column, if no occurrence of the name
  in front of it reaches into it.
\<close>

lemma find_vlan_loop_first:
  assumes "plain_name name" and "NUL \<notin> set buf" and "i < length buf"
    and "in_column name (drop i buf)"
    and "\<And>j. j < i \<Longrightarrow> \<not> in_column name (drop j buf)"
    and "\<And>j. j < i \<Longrightarrow> is_prefix name (drop j buf) \<Longrightarrow> j + length name \<le> i"
    and "n \<le> i"
  shows "find_vlan_loop name buf n = Some (Some i)"
  using assms(7)
proof (induction "i - n" arbitrary: n rule: less_induct)
  case less
  have nul: "NUL \<notin> set (drop m buf)" for m using assms(2) by (auto dest: in_set_dropD)
  have n: "n < length buf" using less.prems assms(3) by simp
  have "is_prefix name (drop i buf)" using assms(4) by (auto simp: in_column_def)
  then have "is_prefix name (drop (i - n) (drop n buf))" using less.prems by simp
  then obtain r where r: "strstr (drop n buf) name = Some r"
    using strstr_NoneD [of "drop n buf" name] by (cases "strstr (drop n buf) name") auto
  then obtain k where k: "k \<le> length (drop n buf)" "r = drop k (drop n buf)" "is_prefix name r"
    "\<forall>j < k. \<not> is_prefix name (drop j (drop n buf))" using strstr_SomeD by blast
  have ki: "n + k \<le> i"
    using k(4) \<open>is_prefix name (drop (i - n) (drop n buf))\<close> less.prems by (metis le_diff_conv2 linorder_not_le add.commute)
  have cur: "n + (length (drop n buf) - length r) = n + k" using k(1,2) by simp
  have m: "snsd_match_vlan (drop (n + k) buf) name \<longleftrightarrow> in_column name (drop (n + k) buf)"
    by (rule match_vlan_iff [OF assms(1)]) (use k nul in \<open>simp_all add: add.commute\<close>)
  show ?case
  proof (cases "n + k = i")
    case True
    with m assms(4) show ?thesis using n r cur
      by (subst find_vlan_loop.simps) (simp add: cstring_plain [OF nul] Let_def)
  next
    case False
    then have lt: "n + k < i" using ki by simp
    have "is_prefix name (drop (n + k) buf)" using k(2,3) by (simp add: add.commute)
    from assms(6) [OF lt this] have le: "n + k + length name \<le> i" .
    have "0 < length name" using assms(1) by (simp add: plain_name_def)
    then have "find_vlan_loop name buf (n + k + length name) = Some (Some i)"
      using le lt by (intro less.hyps) linarith+
    moreover have "\<not> snsd_match_vlan (drop (n + k) buf) name" using m assms(5) [OF lt] by simp
    ultimately show ?thesis using n r cur
      by (subst find_vlan_loop.simps) (simp add: cstring_plain [OF nul] Let_def)
  qed
qed

text \<open>A line of the table, as the kernel prints it.\<close>

definition vlan_line :: "string \<Rightarrow> string \<Rightarrow> nat \<Rightarrow> string \<Rightarrow> string" where
  "vlan_line name bl vlan phy = name @ bl @ ''| '' @ dec_nat vlan @ ''  | '' @ phy @ [LF]"

definition plain_row :: "string \<Rightarrow> string \<Rightarrow> nat \<Rightarrow> string \<Rightarrow> bool" where
  "plain_row name bl vlan phy \<longleftrightarrow> plain_name name \<and> (\<forall>c \<in> set bl. isblank c) \<and>
    length name + length bl < SNSD_CFG_NAME_MAX_LEN \<and> vlan < 2 ^ 15 \<and>
    phy \<noteq> [] \<and> length phy \<le> IFNAMSIZ \<and> (\<forall>c \<in> set phy. \<not> isspace c)"

lemma row_in_column:
  "plain_row name bl vlan phy \<Longrightarrow> in_column name (vlan_line name bl vlan phy @ post)"
  unfolding in_column_def plain_row_def vlan_line_def
  by (intro exI [of _ bl] exI [of _ "'' '' @ dec_nat vlan @ ''  | '' @ phy @ [LF] @ post"]) simp

lemma isdigit_dec [simp]: "c \<in> set (dec_nat n) \<Longrightarrow> isdigit c"
  by (simp add: isdigit_def is_digit_dec)

lemma row_fields:
  assumes "plain_row name bl vlan phy" and "snsd_find_vlan_start name buf = Some (Some (length pre))"
    and "buf = pre @ vlan_line name bl vlan phy @ post"
  shows "\<exists>pos. snsd_fill_vlan name buf = Some (int vlan, pos) \<and> snsd_get_phy_ifname buf pos = Some phy"
proof -
  let ?Q = "\<lambda>c. \<not> is_bar c \<and> \<not> is_eol c"
  let ?tail = "''  | '' @ phy @ [LF] @ post"
  note row = assms(1) [unfolded plain_row_def]
  have "\<forall>c \<in> set (name @ bl). ?Q c" using row plain_nameD [of name] isblank_chars by (metis UnE set_append)
  then have "dropWhile ?Q ((name @ bl) @ t) = dropWhile ?Q t" for t by (intro dropWhile_append2) blast
  then have bar: "dropWhile ?Q (drop (length pre) buf) = ''| '' @ dec_nat vlan @ ?tail"
    by (simp add: assms(3) vlan_line_def is_bar_def)
  have digit: "\<not> isdigit (CHR ''|'')" "\<not> isdigit (CHR '' '')" by (simp_all add: isdigit_def is_digit_def digit_val_def)
  have dw: "dropWhile (\<lambda>c. \<not> isdigit c) (''| '' @ dec_nat vlan @ ?tail) = dec_nat vlan @ ?tail"
    using digit isdigit_dec [of _ vlan] by (cases "dec_nat vlan") simp_all
  have "takeWhile isdigit (dec_nat vlan @ ?tail) = dec_nat vlan"
    using digit by (simp add: takeWhile_append2)
  moreover have "length (dec_nat vlan) \<le> 5" using row by (intro dec_nat_length) simp_all
  ultimately have tw: "take SNSD_CFG_NAME_MAX_LEN (takeWhile isdigit (dec_nat vlan @ ?tail)) = dec_nat vlan" by simp
  let ?pos = "length pre + (length (drop (length pre) buf) - length (dec_nat vlan @ ?tail) + length (dec_nat vlan))"
  have "to_int16 (int vlan) = int vlan"
    using row by (simp add: to_int16_def signed_take_bit_int_eq_self)
  moreover have "atoi (dec_nat vlan) = int vlan"
    using atoi_dec [of "int vlan"] row by (simp add: dec_int_def)
  ultimately have fill: "snsd_fill_vlan name buf = Some (int vlan, ?pos)"
    unfolding snsd_fill_vlan_def assms(2) option.case Let_def bar dw tw by (simp add: is_bar_def)
  have "drop ?pos buf = ?tail" by (simp add: assms(3) vlan_line_def)
  then have r: "dropWhile ?Q (drop ?pos buf) = ''| '' @ phy @ [LF] @ post"
    unfolding \<open>drop ?pos buf = ?tail\<close> by (simp add: is_bar_def is_eol_def)
  obtain c t where phy: "phy = c # t" using row by (cases phy) auto
  have "\<not> isblank c" using row isspace_blank [of c] phy by auto
  then have "dropWhile isblank (tl (''| '' @ phy @ [LF] @ post)) = phy @ [LF] @ post"
    by (simp add: phy) (simp add: isblank_def)
  moreover have "takeWhile (\<lambda>c. \<not> isspace c) (phy @ [LF] @ post) = phy"
    using row by (subst takeWhile_append2) (simp_all add: isspace_def)
  ultimately have "snsd_get_phy_ifname buf ?pos = Some phy"
    unfolding snsd_get_phy_ifname_def r Let_def using row by (simp add: is_bar_def)
  with fill show ?thesis by blast
qed


text \<open>
  The search does not ask whether the name it finds begins a row: an interface whose name ends the
  name of an interface above it gets the VLAN and the physical interface of that one, whatever its
  own row (in \<open>post\<close>) says.
\<close>

theorem vlan_of_longer_name:
  assumes "plain_row name bl vlan phy" and "buf = pre @ vlan_line (x @ name) bl vlan phy @ post"
    and "NUL \<notin> set buf" and "\<forall>j < length pre + length x. \<not> is_prefix name (drop j buf)"
  shows "\<exists>pos. snsd_fill_vlan name buf = Some (int vlan, pos) \<and> snsd_get_phy_ifname buf pos = Some phy"
proof -
  have buf: "buf = (pre @ x) @ vlan_line name bl vlan phy @ post" by (simp add: assms(2) vlan_line_def)
  have name: "plain_name name" using assms(1) by (simp add: plain_row_def)
  have "snsd_find_vlan_start name buf = Some (Some (length (pre @ x)))"
    unfolding snsd_find_vlan_start_def using assms(3,4) row_in_column [OF assms(1), of post]
    by (intro find_vlan_loop_first [OF name]) (auto simp: buf vlan_line_def dest: in_column_prefix)
  then show ?thesis by (rule row_fields [OF assms(1) _ buf])
qed

definition vlan_header :: string where
  "vlan_header = ''VLAN Dev name    | VLAN ID'' @ [LF] @
    ''Name-Type: VLAN_NAME_TYPE_RAW_PLUS_VID_NO_PAD'' @ [LF]"

definition sample_vlans :: string where
  "sample_vlans = vlan_header @ vlan_line ''veth1.7'' ''        '' 7 ''veth1'' @ vlan_line ''eth1.7'' ''         '' 9 ''eth1''"

theorem vlan_of_longer_name_witness:
  "\<exists>pos. snsd_fill_vlan ''eth1.7'' sample_vlans = Some (7, pos) \<and>
    snsd_get_phy_ifname sample_vlans pos = Some ''veth1''"
proof -
  have row: "plain_row ''eth1.7'' ''        '' 7 ''veth1''"
    by (simp add: plain_row_def plain_name_def isspace_def is_bar_def isblank_def)
  have buf: "sample_vlans = vlan_header @ vlan_line (''v'' @ ''eth1.7'') ''        '' 7 ''veth1'' @
      vlan_line ''eth1.7'' ''         '' 9 ''eth1''" by (simp only: sample_vlans_def append.simps)
  have nul: "NUL \<notin> set sample_vlans" by code_simp
  have "list_all (\<lambda>j. \<not> is_prefix ''eth1.7'' (drop j sample_vlans)) [0..<length vlan_header + length ''v'']"
    by code_simp
  then have free: "\<forall>j < length vlan_header + length ''v''. \<not> is_prefix ''eth1.7'' (drop j sample_vlans)"
    by (simp only: list_all_upt)
  show ?thesis using vlan_of_longer_name [OF row buf nul free] by (simp only: of_nat_numeral)
qed


theorem snsd_fill_vlan_returns_witness: "snsd_fill_vlan ''eth1.7'' sample_vlans \<noteq> None"
  by (rule snsd_fill_vlan_returns) simp

end
