(* ===== verification/Snsd_Mgt_Slaves.thy ===== *)
theory Snsd_Mgt_Slaves
  imports Snsd_Mgt_Ports
begin

text \<open>
  Properties of the slaves of a bonding, as \<open>src/snsd_mgt.c\<close> reads them from the file system.
\<close>

section \<open>Names\<close>

lemma of_char_256: "of_char c < (256 :: nat)"
  by simp

lemma char_of_byte: "char_of (unat (word_of_nat (of_char c) :: u8)) = c"
  using of_char_256 [of c] by (simp add: unat_of_nat)

lemma byte_not_0:
  assumes "c \<noteq> NUL"
  shows "(word_of_nat (of_char c) :: u8) \<noteq> 0"
proof
  assume "(word_of_nat (of_char c) :: u8) = 0"
  then have "c = char_of (0 :: nat)" using char_of_byte [of c] by simp
  with assms show False by (simp add: char_of_def)
qed

lemma name_text_array:
  assumes "length s < IFNAMSIZ" and "NUL \<notin> set s"
  shows "name_text (name_array s) = s"
proof -
  let ?b = "\<lambda>c. word_of_nat (of_char c) :: u8"
  have nz: "x \<noteq> 0" if "x \<in> set (map ?b s)" for x
  proof -
    from that obtain c where "c \<in> set s" "x = ?b c" by (simp only: set_map image_iff bex_simps) blast
    with assms(2) byte_not_0 [of c] show ?thesis by metis
  qed
  have "takeWhile (\<lambda>x. x \<noteq> 0) (map ?b s @ 0 # t) = map ?b s @ takeWhile (\<lambda>x. x \<noteq> 0) (0 # t)" for t
    by (rule takeWhile_append2) (rule nz)
  then have "takeWhile (\<lambda>x. x \<noteq> 0) (map ?b s @ 0 # t) = map ?b s" for t by simp
  moreover obtain t where "name_array s = map ?b s @ 0 # t"
    using assms(1) by (cases "IFNAMSIZ - length s") (simp_all add: name_array_def)
  ultimately show ?thesis by (simp add: name_text_def comp_def char_of_byte)
qed

section \<open>The words of a file\<close>

text \<open>The slaves as the kernel prints them: a blank behind each but the last, which a line feed ends.\<close>

fun slaves_text :: "string list \<Rightarrow> string" where
  "slaves_text [] = []"
| "slaves_text [w] = w @ [LF]"
| "slaves_text (w # ws) = w @ CHR '' '' # slaves_text ws"

definition plain_slave :: "string \<Rightarrow> bool" where
  "plain_slave w \<longleftrightarrow> (\<forall>c \<in> set w. c \<noteq> NUL \<and> \<not> ends_slave c)"

lemma pieces_slaves_text:
  assumes "\<forall>w \<in> set ws. plain_slave w"
  shows "pieces ends_slave (slaves_text ws) = ws @ [[]]"
  using assms
  by (induction ws rule: slaves_text.induct)
    (simp_all add: plain_slave_def ends_slave_def pieces_append)

lemma slaves_text_NUL: "\<forall>w \<in> set ws. plain_slave w \<Longrightarrow> NUL \<notin> set (slaves_text ws)"
  by (induction ws rule: slaves_text.induct) (auto simp: plain_slave_def)

text \<open>
  The names of the slaves are read back from the file of a bonding, the first 32 of them.
\<close>

theorem snsd_seperate_slaves_roundtrip:
  assumes "\<forall>w \<in> set ws. plain_slave w"
  shows "snsd_seperate_slaves (slaves_text ws) = take SNSD_MAX_SLAVES ws"
proof -
  have "cstring (slaves_text ws) = slaves_text ws"
    using slaves_text_NUL [OF assms] unfolding cstring_def by (simp add: takeWhile_eq_all_conv) metis
  then show ?thesis
    by (simp add: snsd_seperate_slaves_def ended_words_def pieces_slaves_text [OF assms])
qed

theorem snsd_seperate_slaves_roundtrip_witness:
  "snsd_seperate_slaves (slaves_text [''eth0'', ''eth1'']) = [''eth0'', ''eth1'']"
  using snsd_seperate_slaves_roundtrip [of "[''eth0'', ''eth1'']"]
  by (simp add: plain_slave_def ends_slave_def)

lemma pieces_subset: "w \<in> set (pieces sep s) \<Longrightarrow> set w \<subseteq> set s"
  by (induction s arbitrary: w) (fastforce split: if_splits list.splits)+

lemma separate_NUL: "w \<in> set (snsd_seperate_slaves text) \<Longrightarrow> NUL \<notin> set w"
  unfolding snsd_seperate_slaves_def ended_words_def cstring_def
  by (auto dest!: in_set_takeD in_set_butlastD dest: pieces_subset [THEN subsetD] set_takeWhileD)

section \<open>Following the file\<close>

definition slave_name :: "slave_info \<Rightarrow> string" where
  "slave_name s = name_text (sl_name s)"

definition slave_names :: "port_info \<Rightarrow> string list" where
  "slave_names p = map slave_name (pi_slaves p)"

definition deleted :: "slave_info \<Rightarrow> bool" where
  "deleted s \<longleftrightarrow> flag_set (sl_state s) STATE_SLAVE_DELETED"

definition kept_slaves :: "port_info \<Rightarrow> string set" where
  "kept_slaves p = slave_name ` {s \<in> set (pi_slaves p). \<not> deleted s}"

text \<open>A slave is the same device with the same socket; its flags may have changed.\<close>

definition same_slave :: "slave_info \<Rightarrow> slave_info \<Rightarrow> bool" where
  "same_slave s t \<longleftrightarrow> sl_name s = sl_name t \<and> sl_ifindex s = sl_ifindex t \<and> sl_fd s = sl_fd t \<and>
    sl_fd_index s = sl_fd_index t \<and> flag_set (sl_state s) STATE_SLAVE_FD_VALID = flag_set (sl_state t) STATE_SLAVE_FD_VALID"

definition keeps_slaves :: "port_info \<Rightarrow> port_info \<Rightarrow> bool" where
  "keeps_slaves p q \<longleftrightarrow> (\<forall>s \<in> set (pi_slaves p). \<exists>t \<in> set (pi_slaves q). same_slave s t)"

text \<open>The names are different and \<open>slaves_count\<close> counts them.\<close>

definition slaves_ok :: "port_info \<Rightarrow> bool" where
  "slaves_ok p \<longleftrightarrow> distinct (slave_names p) \<and> pi_slaves_count p = int (length (pi_slaves p))"

lemma flag_bits [simp]:
  "flag_set (x OR 2) 2" "\<not> flag_set (flag_clear x 2) 2"
  "flag_set (x OR 2) 1 = flag_set x 1" "flag_set (flag_clear x 2) 1 = flag_set x 1"
  for x :: u32
proof -
  have "flag_set x 1 \<longleftrightarrow> bit x 0" "flag_set x 2 \<longleftrightarrow> bit x 1" for x :: u32
    using and_exp_eq_0_iff_not_bit [of x 0] and_exp_eq_0_iff_not_bit [of x 1] by (simp_all add: flag_set_def)
  moreover have "bit (2 :: u32) n \<longleftrightarrow> n = 1" for n
    using bit_exp_iff [where ?'a = "32 word", of 1 n] by auto
  ultimately show "flag_set (x OR 2) 2" "\<not> flag_set (flag_clear x 2) 2"
    "flag_set (x OR 2) 1 = flag_set x 1" "flag_set (flag_clear x 2) 1 = flag_set x 1"
    by (simp_all add: flag_clear_def bit_or_iff bit_and_iff bit_not_iff)
qed

lemma need_new_slave:
  assumes "snsd_need_new_slave w sl = (sl', new)" and "distinct (map slave_name sl)"
  shows "new \<longleftrightarrow> w \<notin> slave_name ` set sl"
    and "sl' = map (\<lambda>s. if slave_name s = w
      then s\<lparr>sl_state := flag_clear (sl_state s) STATE_SLAVE_DELETED\<rparr> else s) sl"
proof -
  have "(new \<longleftrightarrow> w \<notin> slave_name ` set sl) \<and> sl' = map (\<lambda>s. if slave_name s = w
      then s\<lparr>sl_state := flag_clear (sl_state s) STATE_SLAVE_DELETED\<rparr> else s) sl"
    using assms
  proof (induction sl arbitrary: sl' new)
    case (Cons s sl)
    show ?case
    proof (cases "slave_name s = w")
      case True
      with Cons.prems(2) have "slave_name t \<noteq> w" if "t \<in> set sl" for t
        using imageI [OF that, of slave_name] by auto
      with True Cons.prems(1) show ?thesis by (auto simp: slave_name_def intro!: map_idI [symmetric])
    next
      case False
      with Cons show ?thesis by (auto simp: slave_name_def split: prod.splits)
    qed
  qed simp
  then show "new \<longleftrightarrow> w \<notin> slave_name ` set sl" "sl' = map (\<lambda>s. if slave_name s = w
      then s\<lparr>sl_state := flag_clear (sl_state s) STATE_SLAVE_DELETED\<rparr> else s) sl" by blast+
qed

lemma create_slave:
  assumes "snsd_create_slave env w p = (q, 0)" and "NUL \<notin> set w"
  obtains s where "q = p\<lparr>pi_slaves_count := pi_slaves_count p + 1, pi_slaves := s # pi_slaves p\<rparr>"
    and "slave_name s = w" and "sl_state s = 0"
  using assms
  by (auto simp: snsd_create_slave_def slave_name_def name_text_array split: if_splits option.splits)

lemma same_slave_refl [simp]: "same_slave s s"
  by (simp add: same_slave_def)

lemma keeps_slaves_trans: "keeps_slaves p q \<Longrightarrow> keeps_slaves q r \<Longrightarrow> keeps_slaves p r"
  unfolding keeps_slaves_def same_slave_def by metis

lemma keeps_slaves_map:
  assumes "\<And>s. same_slave s (f s)" and "set (map f (pi_slaves p)) \<subseteq> set (pi_slaves q)"
  shows "keeps_slaves p q"
  using assms unfolding keeps_slaves_def by (metis image_eqI list.set_map subsetD)

lemma kept_map:
  assumes "\<And>s. slave_name (g s) = slave_name s" and "\<And>s. deleted (g s) \<longleftrightarrow> deleted s \<and> slave_name s \<noteq> w"
  shows "slave_name ` {s \<in> g ` A. \<not> deleted s} = slave_name ` {s \<in> A. \<not> deleted s} \<union> (slave_name ` A \<inter> {w})"
proof -
  have "{s \<in> g ` A. \<not> deleted s} = g ` {s \<in> A. \<not> deleted s \<or> slave_name s = w}" using assms(2) by auto
  then have "slave_name ` {s \<in> g ` A. \<not> deleted s} = slave_name ` {s \<in> A. \<not> deleted s \<or> slave_name s = w}"
    by (simp add: image_image assms(1))
  also have "\<dots> = slave_name ` {s \<in> A. \<not> deleted s} \<union> (slave_name ` A \<inter> {w})" by auto
  finally show ?thesis .
qed

lemma verify_slaves_spec:
  assumes "verify_slaves env ws p = (q, 0)" and "\<forall>w \<in> set ws. NUL \<notin> set w" and "slaves_ok p"
  shows "kept_slaves q = kept_slaves p \<union> set ws \<and> slaves_ok q \<and>
    set (slave_names q) = set (slave_names p) \<union> set ws \<and> keeps_slaves p q \<and>
    pi_bonding_slaves q = pi_bonding_slaves p \<and> pi_bonding_states q = pi_bonding_states p"
  using assms
proof (induction ws arbitrary: p)
  case Nil
  then show ?case by (auto simp: keeps_slaves_def intro: same_slave_refl)
next
  case (Cons w ws)
  obtain sl new where n: "snsd_need_new_slave w (pi_slaves p) = (sl, new)"
    by (cases "snsd_need_new_slave w (pi_slaves p)")
  have d: "distinct (map slave_name (pi_slaves p))" using Cons.prems(3) by (simp add: slaves_ok_def slave_names_def)
  let ?f = "\<lambda>s. if slave_name s = w then s\<lparr>sl_state := flag_clear (sl_state s) STATE_SLAVE_DELETED\<rparr> else s"
  note new = need_new_slave [OF n d]
  have f: "slave_name (?f s) = slave_name s" "same_slave s (?f s)"
    "deleted (?f s) \<longleftrightarrow> deleted s \<and> slave_name s \<noteq> w" for s
    by (simp_all add: slave_name_def same_slave_def deleted_def)
  let ?p = "p\<lparr>pi_slaves := sl\<rparr>"
  have ok: "slaves_ok ?p" "set (slave_names ?p) = set (slave_names p)" "keeps_slaves p ?p"
    using Cons.prems(3) f by (auto simp: slaves_ok_def slave_names_def new(2) comp_def intro: keeps_slaves_map [of ?f])
  have "set (pi_slaves ?p) = ?f ` set (pi_slaves p)" by (simp add: new(2))
  then have kept: "kept_slaves ?p = kept_slaves p \<union> (slave_name ` set (pi_slaves p) \<inter> {w})"
    unfolding kept_slaves_def by (simp only:) (rule kept_map, (rule f)+)
  obtain p2 where p2: "verify_slaves env ws p2 = (q, 0)" "kept_slaves p2 = insert w (kept_slaves p)"
    "slaves_ok p2" "set (slave_names p2) = insert w (set (slave_names p))" "keeps_slaves ?p p2"
    "pi_bonding_slaves p2 = pi_bonding_slaves p" "pi_bonding_states p2 = pi_bonding_states p"
  proof (cases new)
    case False
    then have "w \<in> slave_name ` set (pi_slaves p)" using new(1) by simp
    with that [of ?p] False Cons.prems(1) n kept ok show thesis
      by (auto simp: slave_names_def keeps_slaves_def intro: same_slave_refl)
  next
    case True
    obtain p3 r where c: "snsd_create_slave env w ?p = (p3, r)" by (cases "snsd_create_slave env w ?p")
    with Cons.prems(1) n True have r: "r = 0" "verify_slaves env ws p3 = (q, 0)" by (simp_all split: if_splits)
    from c r(1) Cons.prems(2) obtain s where s: "slave_name s = w" "sl_state s = 0"
      "p3 = ?p\<lparr>pi_slaves_count := pi_slaves_count ?p + 1, pi_slaves := s # pi_slaves ?p\<rparr>"
      by (auto elim: create_slave)
    have "w \<notin> set (slave_names ?p)" using True new(1) ok(2) by (simp add: slave_names_def)
    then have "slaves_ok p3" using ok(1) s(1) by (simp add: s(3) slaves_ok_def slave_names_def)
    moreover have "\<not> deleted s" using s(2) by (simp add: deleted_def flag_set_def)
    then have "{x \<in> set (pi_slaves p3). \<not> deleted x} = insert s {x \<in> set (pi_slaves ?p). \<not> deleted x}"
      by (auto simp: s(3))
    then have "kept_slaves p3 = insert w (kept_slaves ?p)" by (simp add: kept_slaves_def s(1))
    then have "kept_slaves p3 = insert w (kept_slaves p)" using kept by auto
    moreover have "keeps_slaves ?p p3" by (rule keeps_slaves_map [of id]) (auto simp: s(3))
    ultimately show thesis using that [OF r(2)] ok(2) s(1) by (simp add: s(3) slave_names_def)
  qed
  from Cons.IH [OF p2(1) _ p2(3)] Cons.prems(2) p2 ok(3) show ?case
    by (auto intro: keeps_slaves_trans)
qed

text \<open>
  C28: when the file of a bonding has changed, a successful check of its slaves makes the slaves that
  are not marked deleted exactly those the file names, keeps every slave known before with its
  socket (so that its socket can be given back), keeps the names apart and the count true, and says
  that the bonding has changed.
\<close>

theorem snsd_verify_slave_follows_file:
  assumes "snsd_verify_slave env (Some text) p = Some (q, 0)"
    and "pi_bonding_slaves p \<noteq> Some (cstring text)" and "slaves_ok p"
  shows "kept_slaves q = set (snsd_seperate_slaves text) \<and> slaves_ok q \<and> keeps_slaves p q \<and>
    pi_bonding_slaves q = Some (cstring text) \<and> flag_set (pi_bonding_states q) STATE_BONDING_CHANGE"
proof -
  let ?f = "\<lambda>s. s\<lparr>sl_state := sl_state s OR STATE_SLAVE_DELETED\<rparr>"
  let ?p = "p\<lparr>pi_bonding_states := pi_bonding_states p OR STATE_BONDING_CHANGE,
    pi_slaves := map ?f (pi_slaves p), pi_bonding_slaves := Some (cstring text)\<rparr>"
  have v: "verify_slaves env (snsd_seperate_slaves text) ?p = (q, 0)"
    using assms(1,2) by (auto simp: snsd_verify_slave_def Let_def split: if_splits)
  have f: "slave_name (?f s) = slave_name s" "deleted (?f s)" "same_slave s (?f s)" for s
    by (simp_all add: slave_name_def deleted_def same_slave_def)
  have ok: "slaves_ok ?p" using assms(3) f(1) by (simp add: slaves_ok_def slave_names_def comp_def)
  have none: "kept_slaves ?p = {}" using f(2) by (auto simp: kept_slaves_def)
  have keeps: "keeps_slaves p ?p" by (rule keeps_slaves_map [of ?f]) (use f(3) in simp_all)
  have nul: "\<forall>w \<in> set (snsd_seperate_slaves text). NUL \<notin> set w"
    using separate_NUL by blast
  from verify_slaves_spec [OF v nul ok] none keeps show ?thesis by (auto intro: keeps_slaves_trans)
qed

text \<open>
  The poll crashes exactly where a bonding whose slaves are known has lost its last slave: its file
  is then empty, no text is read, and the null pointer is compared with the remembered text.
\<close>

theorem snsd_check_get_slave_crashes_iff:
  shows "snsd_check_get_slave env bonds phy p = None \<longleftrightarrow>
    flag_set (pi_bonding_states p) STATE_BONDING_VALID \<and> pi_slaves p \<noteq> [] \<and> pi_bonding_slaves p \<noteq> None \<and>
    snsd_get_file_info env (snprintf_text SNSD_BONDING_SLAVES_FILE_LENGTH
      (SNSD_NET_PATH @ ''/'' @ phy @ ''/bonding/slaves'')) = (0, None)"
proof -
  let ?f = "snprintf_text SNSD_BONDING_SLAVES_FILE_LENGTH (SNSD_NET_PATH @ ''/'' @ phy @ ''/bonding/slaves'')"
  have "snd (snsd_get_file_info env ?f) = None \<Longrightarrow> 0 \<le> fst (snsd_get_file_info env ?f) \<Longrightarrow>
      snsd_get_file_info env ?f = (0, None)"
    by (auto simp: snsd_get_file_info_def Let_def split: if_splits option.splits prod.splits)
  then show ?thesis
    by (auto simp: snsd_check_get_slave_def snsd_verify_slave_def Let_def split: if_splits prod.splits option.splits)
qed

definition bond_port :: "slave_info list \<Rightarrow> string option \<Rightarrow> port_info" where
  "bond_port sl text = zero_port\<lparr>pi_bonding_states := STATE_BONDING_VALID,
    pi_slaves_count := int (length sl), pi_bonding_slaves := text, pi_slaves := sl\<rparr>"

definition sample_slave_info :: "string \<Rightarrow> int \<Rightarrow> slave_info" where
  "sample_slave_info name fd = \<lparr>sl_ifindex = 3, sl_fd_index = 1, sl_fd = fd,
    sl_state = STATE_SLAVE_FD_VALID, sl_name = name_array name\<rparr>"

definition sample_mgt_env :: "(string \<Rightarrow> string option) \<Rightarrow> mgt_env" where
  "sample_mgt_env files = \<lparr>me_access = (\<lambda>f. files f \<noteq> None), me_realpath = (\<lambda>f. files f \<noteq> None),
    me_file = (\<lambda>_ f. map_option (\<lambda>t. (t, False)) (files f)), me_malloc = (\<lambda>_. True),
    me_ifindex = (\<lambda>_. Some 3), me_hwaddr = (\<lambda>_. Some [2, 0, 0, 0, 0, 9]), me_flags = (\<lambda>_. Some IFF_RUNNING),
    me_socket = True, me_ifconf = (\<lambda>_. Some []), me_readdir = (\<lambda>_. None), me_pton = (\<lambda>_. None), me_ret = 0\<rparr>"

theorem snsd_verify_slave_follows_file_witness:
  "kept_slaves (fst (the (snsd_verify_slave (sample_mgt_env (\<lambda>_. None)) (Some ''eth1 eth2 '')
    (bond_port [sample_slave_info ''eth0'' 7] (Some ''eth0 ''))))) = {''eth1'', ''eth2''}"
proof -
  let ?r = "snsd_verify_slave (sample_mgt_env (\<lambda>_. None)) (Some ''eth1 eth2 '')
    (bond_port [sample_slave_info ''eth0'' 7] (Some ''eth0 ''))"
  have "?r \<noteq> None" "snd (the ?r) = 0" by code_simp+
  then have r: "?r = Some (fst (the ?r), 0)" by (metis option.collapse prod.collapse)
  have "cstring ''eth1 eth2 '' = ''eth1 eth2 ''" by code_simp
  moreover have "slaves_ok (bond_port [sample_slave_info ''eth0'' 7] (Some ''eth0 ''))"
    by (simp add: slaves_ok_def slave_names_def bond_port_def)
  moreover have "set (snsd_seperate_slaves ''eth1 eth2 '') = {''eth1'', ''eth2''}" by code_simp
  ultimately show ?thesis using snsd_verify_slave_follows_file [OF r] by (simp add: bond_port_def)
qed


end
