(* ===== verification/Snsd_Mgt_List.thy ===== *)
theory Snsd_Mgt_List
  imports Snsd_Mgt_Slaves Snsd_Mgt_Props
begin

text \<open>
  Properties of the list of ports that a poll of \<open>src/snsd_mgt.c\<close> leaves: which ports count as
  seen, and that the poll ends.
\<close>

section \<open>The answer of the kernel\<close>

text \<open>
  Growing the buffer ends and brings every interface, if the kernel fills the buffer as far as it
  has interfaces and there is memory.
\<close>

lemma ifconf_loop_all:
  assumes "\<And>n. me_malloc env (For_ifconf n)" and "\<And>n. me_ifconf env n = Some (take n ifs)"
  shows "ifconf_loop env n = Some (Some ifs)"
proof (induction "Suc (length ifs) - n" arbitrary: n rule: less_induct)
  case less
  show ?case
  proof (cases "length ifs < n")
    case True
    then show ?thesis by (subst ifconf_loop.simps) (simp add: assms)
  next
    case False
    then have "ifconf_loop env (n + SNSD_DEFAULT_IFS) = Some (Some ifs)" by (intro less) simp
    with False show ?thesis by (subst ifconf_loop.simps) (simp add: assms)
  qed
qed

theorem snsd_get_ifconf_returns_all:
  assumes "\<forall>n. me_malloc env (For_ifconf n)" and "\<forall>n. me_ifconf env n = Some (take n ifs)"
  shows "snsd_get_ifconf env = Some (Some ifs)"
  unfolding snsd_get_ifconf_def by (rule ifconf_loop_all) (use assms in simp_all)

definition sample_ifreq :: "string \<Rightarrow> u8 \<Rightarrow> ifreq" where
  "sample_ifreq name x = \<lparr>if_name = name_array name, if_family = AF_INET, if_addr = [10, 0, 0, x]\<rparr>"

theorem snsd_get_ifconf_returns_all_witness:
  "snsd_get_ifconf ((sample_mgt_env (\<lambda>_. None))\<lparr>me_ifconf := \<lambda>n. Some (take n (replicate 300 (sample_ifreq ''eth0'' 1)))\<rparr>) =
    Some (Some (replicate 300 (sample_ifreq ''eth0'' 1)))"
  by (rule snsd_get_ifconf_returns_all) (simp_all add: sample_mgt_env_def)

section \<open>One port\<close>

definition port_key :: "'p net_info_scheme \<Rightarrow> u8 list \<times> u8 list" where
  "port_key n = (pi_name (ni_port_info n), take IPV4_ADDR_LENGTH (pi_ip (ni_port_info n)))"

lemma is_port_of_key: "is_port_of ifr n \<longleftrightarrow> port_key n = (if_name ifr, if_addr ifr)"
  by (auto simp: is_port_of_def port_key_def)

text \<open>What collecting the facts about a port does not touch.\<close>

definition same_port :: "port_info \<Rightarrow> port_info \<Rightarrow> bool" where
  "same_port p q \<longleftrightarrow> pi_name p = pi_name q \<and> pi_ip p = pi_ip q \<and> pi_count p = pi_count q \<and>
    flag_set (pi_states p) STATE_NEW_PORT = flag_set (pi_states q) STATE_NEW_PORT"

lemma same_port_refl [simp]: "same_port p p"
  by (simp add: same_port_def)

lemma create_slave_same: "snsd_create_slave env w p = (q, r) \<Longrightarrow> same_port p q \<and> pi_flags q = pi_flags p"
  by (auto simp: snsd_create_slave_def same_port_def split: if_splits option.splits)

lemma create_slaves_same: "create_slaves env ws p = (q, r) \<Longrightarrow> same_port p q \<and> pi_flags q = pi_flags p"
proof (induction ws arbitrary: p)
  case (Cons w ws)
  then show ?case using create_slave_same [of env w p]
    by (fastforce simp: same_port_def split: prod.splits if_splits)
qed simp

lemma verify_slaves_same: "verify_slaves env ws p = (q, r) \<Longrightarrow> same_port p q \<and> pi_flags q = pi_flags p"
proof (induction ws arbitrary: p)
  case (Cons w ws)
  obtain sl new where n: "snsd_need_new_slave w (pi_slaves p) = (sl, new)"
    by (cases "snsd_need_new_slave w (pi_slaves p)")
  obtain p2 r2 where c: "snsd_create_slave env w (p\<lparr>pi_slaves := sl\<rparr>) = (p2, r2)"
    by (cases "snsd_create_slave env w (p\<lparr>pi_slaves := sl\<rparr>)")
  note s = create_slave_same [OF c]
  show ?case
  proof (cases new)
    case True
    with Cons.prems n c s Cons.IH [of p2] show ?thesis by (auto simp: same_port_def split: if_splits)
  next
    case False
    with Cons.prems n Cons.IH [of "p\<lparr>pi_slaves := sl\<rparr>"] show ?thesis by (simp add: same_port_def)
  qed
qed simp

lemma check_get_slave_same:
  "snsd_check_get_slave env bonds phy p = Some (q, r) \<Longrightarrow> same_port p q \<and> pi_flags q = pi_flags p"
  by (auto simp: snsd_check_get_slave_def snsd_get_slave_def snsd_verify_slave_def Let_def same_port_def
      split: if_splits prod.splits option.splits dest!: create_slaves_same verify_slaves_same)

text \<open>The VLAN a name has in the table.\<close>

definition vlan_of :: "string \<Rightarrow> u8 list \<Rightarrow> int" where
  "vlan_of vlan_info name = fst (the (snsd_fill_vlan (name_text name) vlan_info))"

lemma flag_vlan_change [simp]:
  "flag_set (x OR 1) 2 = flag_set x 2" "flag_set (flag_clear x 1) 2 = flag_set x 2" for x :: u32
proof -
  have "flag_set x 2 \<longleftrightarrow> bit x 1" for x :: u32
    using and_exp_eq_0_iff_not_bit [of x 1] by (simp add: flag_set_def)
  moreover have "\<not> bit (1 :: u32) 1" by simp
  ultimately show "flag_set (x OR 1) 2 = flag_set x 2" "flag_set (flag_clear x 1) 2 = flag_set x 2"
    by (simp_all add: flag_clear_def bit_or_iff bit_and_iff bit_not_iff)
qed

lemma phy_ifname_same:
  assumes "phy_ifname env bonds vlan_info v p = Some (q, ifname, r)"
  shows "same_port p q \<and> pi_flags q = pi_flags p"
proof (cases "fst v = SNSD_INVALID_VLAN \<or> snsd_get_phy_ifname vlan_info (snd v) = None")
  case True
  with assms show ?thesis by (auto simp: phy_ifname_def same_port_def split: if_splits)
next
  case False
  then obtain nm where nm: "snsd_get_phy_ifname vlan_info (snd v) = Some nm" by blast
  with assms False obtain q1 r1 where c: "snsd_check_get_slave env bonds nm p = Some (q1, r1)"
    by (auto simp: phy_ifname_def)
  from check_get_slave_same [OF c] assms False nm c show ?thesis
    by (auto simp: phy_ifname_def same_port_def split: if_splits)
qed

lemma get_mix_info_same:
  assumes "snsd_get_mix_info env bonds vlan_info p = Some (q, r)"
  shows "same_port p q \<and> pi_flags q = pi_flags p \<and> (r = 0 \<longrightarrow> pi_vlan q = vlan_of vlan_info (pi_name p))"
proof -
  let ?s = "\<lambda>q. same_port p q \<and> pi_flags q = pi_flags p"
  obtain v where v: "snsd_fill_vlan (name_text (pi_name p)) vlan_info = Some v"
    using assms by (cases "snsd_fill_vlan (name_text (pi_name p)) vlan_info") (simp_all add: snsd_get_mix_info_def)
  obtain p1 ifname r1 where p1: "phy_ifname env bonds vlan_info v p = Some (p1, ifname, r1)"
    using assms v by (cases "phy_ifname env bonds vlan_info v p") (auto simp: snsd_get_mix_info_def)
  then have s1: "?s p1" by (rule phy_ifname_same)
  have s2: "same_port p1 (set_vlan (fst v) p1) \<and> pi_flags (set_vlan (fst v) p1) = pi_flags p1 \<and>
      pi_vlan (set_vlan (fst v) p1) = fst v"
    by (simp add: set_vlan_def same_port_def)
  have "vlan_of vlan_info (pi_name p) = fst v" by (simp add: vlan_of_def v)
  with assms v p1 s1 s2 show ?thesis
    by (auto simp: snsd_get_mix_info_def same_port_def Let_def split: if_splits option.splits)
qed

lemma get_mac_and_flags_same:
  assumes "snsd_get_mac_and_flags env p = (q, r)"
  shows "same_port p q \<and> (r = 0 \<longrightarrow> me_flags env (name_text (pi_name p)) = Some (pi_flags q))"
  using assms by (auto simp: snsd_get_mac_and_flags_def same_port_def Let_def split: option.splits)


section \<open>The list\<close>

text \<open>A port of this poll, with what the kernel and the table say about its name.\<close>

definition polled :: "mgt_env \<Rightarrow> string \<Rightarrow> u32 \<Rightarrow> port_info \<Rightarrow> bool" where
  "polled env vlan_info count p \<longleftrightarrow> pi_count p = count \<and> pi_vlan p = vlan_of vlan_info (pi_name p) \<and>
    pi_vlan p \<noteq> SNSD_INVALID_VLAN \<and> me_flags env (name_text (pi_name p)) = Some (pi_flags p)"

text \<open>
  What one interface does to the list: without a VLAN nothing is seen (its old port, if it has one,
  stays behind), else its old port or a new one at the end is a port of this poll.
\<close>

definition list_step ::
  "mgt_env \<Rightarrow> string \<Rightarrow> u32 \<Rightarrow> ifreq \<Rightarrow> 'p net_info_scheme list \<Rightarrow> 'p net_info_scheme list \<Rightarrow> bool" where
  "list_step env vlan_info count ifr nets nets2 \<longleftrightarrow>
    (if vlan_of vlan_info (if_name ifr) = SNSD_INVALID_VLAN
     then nets2 = nets \<or> (\<exists>i n. first_idx (is_port_of ifr) nets = Some i \<and> nets2 = nets[i := n] \<and>
       is_port_of ifr n \<and> pi_count (ni_port_info n) = pi_count (ni_port_info (nets ! i)))
     else \<exists>n. is_port_of ifr n \<and> polled env vlan_info count (ni_port_info n) \<and>
       (first_idx (is_port_of ifr) nets = None \<and> nets2 = nets @ [n] \<or>
        (\<exists>i. first_idx (is_port_of ifr) nets = Some i \<and> nets2 = nets[i := n])))"

text \<open>The kernel gives four bytes of address.\<close>

definition ifreq_ok :: "ifreq \<Rightarrow> bool" where
  "ifreq_ok ifr \<longleftrightarrow> length (if_addr ifr) = IPV4_ADDR_LENGTH"

lemma find_old:
  assumes "snsd_try_find_old env zero count ifr nets = Some (nets1, i)" and "ifreq_ok ifr"
  shows "i < length nets1 \<and> is_port_of ifr (nets1 ! i) \<and>
    (first_idx (is_port_of ifr) nets = Some i \<and> nets1 = nets[i := nets1 ! i] \<and>
       \<not> flag_set (pi_states (ni_port_info (nets1 ! i))) STATE_NEW_PORT \<and>
       pi_count (ni_port_info (nets1 ! i)) = pi_count (ni_port_info (nets ! i)) \<or>
     first_idx (is_port_of ifr) nets = None \<and> i = length nets \<and> take i nets1 = nets \<and> length nets1 = Suc i \<and>
       flag_set (pi_states (ni_port_info (nets1 ! i))) STATE_NEW_PORT)"
proof (cases "first_idx (is_port_of ifr) nets")
  case None
  have "flag_set 2 2" by (simp add: flag_set_def)
  moreover obtain item where "snsd_get_new env zero ifr = Some item"
    "nets1 = nets @ [upd_port (\<lambda>p. p\<lparr>pi_vlan := SNSD_INVALID_VLAN, pi_count := count - 1,
       pi_states := pi_states p OR STATE_NEW_PORT\<rparr>) item]" "i = length nets"
    using assms(1) unfolding snsd_try_find_old_def None option.case by (auto split: option.splits)
  ultimately show ?thesis using None assms(2)
    by (auto simp: snsd_get_new_def upd_port_def is_port_of_def zero_port_def
        mem_put_def ifreq_ok_def split: if_splits)
next
  case (Some j)
  from first_idx_SomeD [OF Some] have j: "j < length nets" "is_port_of ifr (nets ! j)" by simp_all
  have "\<not> flag_set (flag_clear x 2) 2" for x :: u32 by simp
  with Some assms j show ?thesis
    by (auto simp: snsd_try_find_old_def upd_port_def is_port_of_def)
qed

lemma net_info_loop_step:
  assumes "net_info_loop env cfg zero count bonds vlan_info (ifr # ifrs) ret nets = Some (nets', 0)"
    and "if_family ifr = AF_INET" and "ifreq_ok ifr"
  obtains nets2 where "net_info_loop env cfg zero count bonds vlan_info ifrs 0 nets2 = Some (nets', 0)"
    and "list_step env vlan_info count ifr nets nets2"
proof -
  obtain nets1 i where f: "snsd_try_find_old env zero count ifr nets = Some (nets1, i)"
    using assms(1,2) by (auto split: option.splits)
  from find_old [OF f assms(3)] have i: "i < length nets1" "is_port_of ifr (nets1 ! i)" by auto
  let ?p = "ni_port_info (nets1 ! i)"
  obtain p1 where p1: "snsd_get_mac_and_flags env ?p = (p1, 0)"
    using assms(1,2) f by (cases "snsd_get_mac_and_flags env ?p") (auto split: if_splits)
  obtain p2 where p2: "snsd_get_mix_info env bonds vlan_info p1 = Some (p2, 0)"
    using assms(1,2) f p1 by (auto simp: Let_def split: if_splits option.splits prod.splits)
  let ?nets = "nets1[i := upd_port (\<lambda>_. p2) (nets1 ! i)]"
  let ?nets2 = "if pi_vlan p2 = SNSD_INVALID_VLAN then
      (if flag_set (pi_states p2) STATE_NEW_PORT then take i ?nets @ drop (Suc i) ?nets else ?nets)
    else ?nets[i := upd_port (\<lambda>p. p\<lparr>pi_protocol := nat (snsd_get_any_protocol cfg), pi_count := count\<rparr>) (?nets ! i)]"
  have "net_info_loop env cfg zero count bonds vlan_info ifrs 0 ?nets2 = Some (nets', 0)"
    using assms(1,2) f p1 p2 by (simp add: Let_def)
  moreover have "list_step env vlan_info count ifr nets ?nets2"
  proof -
    let ?q = "p2\<lparr>pi_protocol := nat (snsd_get_any_protocol cfg), pi_count := count\<rparr>"
    let ?n = "upd_port (\<lambda>_. p2) (nets1 ! i)" and ?m = "upd_port (\<lambda>_. ?q) (nets1 ! i)"
    have s: "same_port ?p p2" "pi_vlan p2 = vlan_of vlan_info (if_name ifr)" "pi_name p2 = if_name ifr"
      "me_flags env (name_text (if_name ifr)) = Some (pi_flags p2)"
      using get_mac_and_flags_same [OF p1] get_mix_info_same [OF p2] i(2)
      by (auto simp: same_port_def is_port_of_def)
    have n: "is_port_of ifr ?n" "is_port_of ifr ?m" "pi_count (ni_port_info ?n) = pi_count ?p"
      using s(1) i(2) by (auto simp: same_port_def is_port_of_def upd_port_def)
    have seen: "polled env vlan_info count (ni_port_info ?m)" if "pi_vlan p2 \<noteq> SNSD_INVALID_VLAN"
      using s that by (simp add: polled_def upd_port_def)
    have nets2: "?nets2 = (if pi_vlan p2 = SNSD_INVALID_VLAN then
        (if flag_set (pi_states p2) STATE_NEW_PORT then take i nets1 @ drop (Suc i) nets1 else nets1[i := ?n])
        else nets1[i := ?m])" using i(1) by (simp add: upd_port_def)
    from find_old [OF f assms(3)] consider
      (old) "first_idx (is_port_of ifr) nets = Some i" "nets1 = nets[i := nets1 ! i]"
        "\<not> flag_set (pi_states p2) STATE_NEW_PORT" "pi_count ?p = pi_count (ni_port_info (nets ! i))"
    | (new) "first_idx (is_port_of ifr) nets = None" "i = length nets" "take i nets1 = nets"
        "length nets1 = Suc i" "flag_set (pi_states p2) STATE_NEW_PORT"
      using s(1) by (auto simp: same_port_def)
    then show ?thesis
    proof cases
      case old
      have "nets1[i := x] = nets[i := x]" for x by (subst old(2)) simp
      then show ?thesis unfolding nets2 list_step_def s(2) [symmetric]
        using old n seen by auto
    next
      case new
      then have "nets1[i := x] = nets @ [x]" for x using i(1)
        by (simp add: upd_conv_take_nth_drop)
      moreover have "take i nets1 @ drop (Suc i) nets1 = nets" using new by simp
      ultimately show ?thesis unfolding nets2 list_step_def s(2) [symmetric]
        using new n seen by auto
    qed
  qed
  ultimately show thesis using that by blast
qed


text \<open>
  The invariant of the loop after some interfaces: no two ports have the same name and address,
  every port of this poll belongs to one of them, and each of them that has a VLAN has one.
\<close>

definition list_inv ::
  "mgt_env \<Rightarrow> string \<Rightarrow> u32 \<Rightarrow> ifreq list \<Rightarrow> 'p net_info_scheme list \<Rightarrow> bool" where
  "list_inv env vlan_info count seen nets \<longleftrightarrow> distinct (map port_key nets) \<and>
    (\<forall>n \<in> set nets. pi_count (ni_port_info n) = count \<longrightarrow> polled env vlan_info count (ni_port_info n) \<and>
      (\<exists>ifr \<in> set seen. if_family ifr = AF_INET \<and> is_port_of ifr n)) \<and>
    (\<forall>ifr \<in> set seen. if_family ifr = AF_INET \<longrightarrow> vlan_of vlan_info (if_name ifr) \<noteq> SNSD_INVALID_VLAN \<longrightarrow>
      (\<exists>n \<in> set nets. is_port_of ifr n \<and> pi_count (ni_port_info n) = count))"

lemma list_inv_skip:
  assumes "list_inv env vlan_info count seen nets"
    and "if_family ifr = AF_INET \<Longrightarrow> vlan_of vlan_info (if_name ifr) = SNSD_INVALID_VLAN"
  shows "list_inv env vlan_info count (ifr # seen) nets"
  using assms unfolding list_inv_def by auto

lemma list_inv_add:
  assumes "list_inv env vlan_info count seen nets" and "if_family ifr = AF_INET"
    and "is_port_of ifr n" and "polled env vlan_info count (ni_port_info n)"
    and "first_idx (is_port_of ifr) nets = None"
  shows "list_inv env vlan_info count (ifr # seen) (nets @ [n])"
proof -
  have "port_key n \<notin> port_key ` set nets"
    using assms(3,5) by (auto simp: is_port_of_key)
  moreover have "pi_count (ni_port_info n) = count" using assms(4) by (simp add: polled_def)
  ultimately show ?thesis using assms(1-4) unfolding list_inv_def by auto
qed

lemma list_inv_update:
  assumes inv: "list_inv env vlan_info count seen nets" and "if_family ifr = AF_INET"
    and "first_idx (is_port_of ifr) nets = Some i" and "is_port_of ifr n"
    and n: "pi_count (ni_port_info n) = count \<Longrightarrow> polled env vlan_info count (ni_port_info n)"
    and c: "pi_count (ni_port_info (nets ! i)) = count \<Longrightarrow> pi_count (ni_port_info n) = count"
    and v: "vlan_of vlan_info (if_name ifr) \<noteq> SNSD_INVALID_VLAN \<Longrightarrow> pi_count (ni_port_info n) = count"
  shows "list_inv env vlan_info count (ifr # seen) (nets[i := n])"
proof -
  from first_idx_SomeD [OF assms(3)] have i: "i < length nets" "is_port_of ifr (nets ! i)" by simp_all
  then have key: "port_key n = port_key (nets ! i)" using assms(4) by (simp add: is_port_of_key)
  then have "map port_key (nets[i := n]) = map port_key nets" using i(1) by (simp add: map_update list_update_same_conv)
  then have "distinct (map port_key (nets[i := n]))" using inv by (simp add: list_inv_def)
  moreover have old: "\<exists>m \<in> set (nets[i := n]). is_port_of f m \<and> pi_count (ni_port_info m) = count"
    if "m \<in> set nets" "is_port_of f m" "pi_count (ni_port_info m) = count" for f m
  proof -
    from that(1) obtain j where j: "j < length nets" "m = nets ! j" by (auto simp: in_set_conv_nth)
    show ?thesis
    proof (cases "j = i")
      case True
      then show ?thesis using that j c key i(1) by (intro bexI [of _ n]) (simp_all add: is_port_of_key set_update_memI)
    next
      case False
      then have "nets[i := n] ! j = m" using j by simp
      then show ?thesis using that j by (metis length_list_update nth_mem)
    qed
  qed
  moreover have "polled env vlan_info count (ni_port_info m) \<and>
      (\<exists>f \<in> set (ifr # seen). if_family f = AF_INET \<and> is_port_of f m)"
    if "m \<in> set (nets[i := n])" "pi_count (ni_port_info m) = count" for m
  proof -
    have "m = n \<or> m \<in> set nets" using that(1) set_update_subset_insert [of nets i n] by auto
    with that(2) inv assms(2,4) n show ?thesis by (auto simp: list_inv_def)
  qed
  moreover have "\<exists>m \<in> set (nets[i := n]). is_port_of f m \<and> pi_count (ni_port_info m) = count"
    if "f \<in> set (ifr # seen)" "if_family f = AF_INET" "vlan_of vlan_info (if_name f) \<noteq> SNSD_INVALID_VLAN" for f
  proof (cases "f = ifr")
    case True
    with that(3) v assms(4) i(1) show ?thesis by (intro bexI [of _ n]) (simp_all add: set_update_memI)
  next
    case False
    with that inv obtain m where "m \<in> set nets" "is_port_of f m" "pi_count (ni_port_info m) = count"
      by (auto simp: list_inv_def)
    then show ?thesis by (rule old)
  qed
  ultimately show ?thesis unfolding list_inv_def by blast
qed

lemma list_step_inv:
  assumes "list_step env vlan_info count ifr nets nets2" and "if_family ifr = AF_INET"
    and "list_inv env vlan_info count seen nets"
  shows "list_inv env vlan_info count (ifr # seen) nets2"
proof (cases "vlan_of vlan_info (if_name ifr) = SNSD_INVALID_VLAN")
  case True
  with assms(1) consider "nets2 = nets"
    | i n where "first_idx (is_port_of ifr) nets = Some i" "nets2 = nets[i := n]" "is_port_of ifr n"
        "pi_count (ni_port_info n) = pi_count (ni_port_info (nets ! i))"
    by (auto simp: list_step_def)
  then show ?thesis
  proof cases
    case 1
    with assms(3) True show ?thesis by (simp add: list_inv_skip)
  next
    case (2 i n)
    from first_idx_SomeD [OF 2(1)] have i: "nets ! i \<in> set nets" "is_port_of ifr (nets ! i)" by simp_all
    with assms(3) have "polled env vlan_info count (ni_port_info (nets ! i))"
      if "pi_count (ni_port_info (nets ! i)) = count" using that by (auto simp: list_inv_def)
    with i(2) True have "pi_count (ni_port_info (nets ! i)) \<noteq> count" by (auto simp: polled_def is_port_of_def)
    with 2 assms(2,3) True show ?thesis by (auto intro!: list_inv_update)
  qed
next
  case False
  with assms(1) obtain n where n: "is_port_of ifr n" "polled env vlan_info count (ni_port_info n)"
    "first_idx (is_port_of ifr) nets = None \<and> nets2 = nets @ [n] \<or>
     (\<exists>i. first_idx (is_port_of ifr) nets = Some i \<and> nets2 = nets[i := n])"
    unfolding list_step_def by auto
  moreover have "pi_count (ni_port_info n) = count" using n(2) by (simp add: polled_def)
  ultimately show ?thesis using assms(2,3) by (auto intro: list_inv_add list_inv_update simp del: first_idx_None)
qed

lemma net_info_loop_inv:
  assumes "net_info_loop env cfg zero count bonds vlan_info ifrs ret nets = Some (nets', 0)"
    and "\<forall>ifr \<in> set ifrs. ifreq_ok ifr" and "list_inv env vlan_info count seen nets"
  shows "list_inv env vlan_info count (rev ifrs @ seen) nets'"
  using assms
proof (induction ifrs arbitrary: ret nets seen)
  case (Cons ifr ifrs)
  show ?case
  proof (cases "if_family ifr = AF_INET")
    case True
    have "ifreq_ok ifr" using Cons.prems(2) by simp
    then obtain nets2 where n2:
      "net_info_loop env cfg zero count bonds vlan_info ifrs 0 nets2 = Some (nets', 0)"
      "list_step env vlan_info count ifr nets nets2"
      by (rule net_info_loop_step [OF Cons.prems(1) True])
    have "list_inv env vlan_info count (ifr # seen) nets2" by (rule list_step_inv [OF n2(2) True Cons.prems(3)])
    from Cons.IH [OF n2(1) _ this] Cons.prems(2) show ?thesis by simp
  next
    case False
    then have "net_info_loop env cfg zero count bonds vlan_info ifrs ret nets = Some (nets', 0)"
      using Cons.prems(1) by simp
    with Cons.IH [of ret nets "ifr # seen"] Cons.prems(2,3) False show ?thesis by (simp add: list_inv_skip)
  qed
qed simp


text \<open>
  A successful look at the interfaces leaves one port per name and address; an IPv4 interface is
  seen exactly if the VLAN table has its name, and no other port counts as seen.
\<close>

definition no_port_seen :: "u32 \<Rightarrow> 'p net_info_scheme list \<Rightarrow> bool" where
  "no_port_seen count nets \<longleftrightarrow> distinct (map port_key nets) \<and> (\<forall>n \<in> set nets. pi_count (ni_port_info n) \<noteq> count)"

lemma get_net_info_inv:
  assumes "snsd_get_net_info env cfg zero count ifc nets = Some (nets', 0)"
    and "\<forall>ifr \<in> set ifc. ifreq_ok ifr" and "no_port_seen count nets"
    and "snsd_get_file_info env SNSD_VLAN_FILE_PATH = (len, Some vlan_info)"
  shows "list_inv env vlan_info count (rev ifc) nets'"
proof -
  obtain bonds ret where "net_info_loop env cfg zero count bonds vlan_info ifc ret nets = Some (nets', 0)"
    using assms(1,4) by (auto simp: snsd_get_net_info_def snsd_get_bonding_info_def
        split: if_splits sum.splits prod.splits option.splits)
  moreover have "list_inv env vlan_info count [] nets" using assms(3) by (simp add: list_inv_def no_port_seen_def)
  ultimately show ?thesis using net_info_loop_inv [OF _ assms(2)] by fastforce
qed

theorem snsd_get_net_info_sees:
  assumes "snsd_get_net_info env cfg zero count ifc nets = Some (nets', 0)"
    and "\<forall>ifr \<in> set ifc. ifreq_ok ifr" and "no_port_seen count nets"
    and "snsd_get_file_info env SNSD_VLAN_FILE_PATH = (len, Some vlan_info)"
  shows "distinct (map port_key nets') \<and>
    (\<forall>ifr \<in> set ifc. if_family ifr = AF_INET \<longrightarrow>
      ((\<exists>n \<in> set nets'. is_port_of ifr n \<and> pi_count (ni_port_info n) = count) \<longleftrightarrow>
       vlan_of vlan_info (if_name ifr) \<noteq> SNSD_INVALID_VLAN)) \<and>
    (\<forall>n \<in> set nets'. pi_count (ni_port_info n) = count \<longrightarrow>
      (\<exists>ifr \<in> set ifc. if_family ifr = AF_INET \<and> is_port_of ifr n))"
proof -
  note inv = get_net_info_inv [OF assms]
  have "vlan_of vlan_info (if_name ifr) \<noteq> SNSD_INVALID_VLAN"
    if "n \<in> set nets'" "is_port_of ifr n" "pi_count (ni_port_info n) = count" for ifr n
    using inv that by (auto simp: list_inv_def polled_def is_port_of_def)
  with inv show ?thesis unfolding list_inv_def by auto
qed

section \<open>The configuration and the protocol\<close>

text \<open>Some item of the configuration is for the address of the port.\<close>

definition cfg_names :: "mgt_env \<Rightarrow> snsd_any \<Rightarrow> snsd_mode \<Rightarrow> u8 list \<Rightarrow> cfg_infos \<Rightarrow> bool" where
  "cfg_names env any_ip mode ip c \<longleftrightarrow>
    (if any_ip = SNSD_ANY_YES \<and> mode = SNSD_MODE_SW then True
     else (\<exists>a. me_pton env (ci_host_traddr c) = Some a \<and> take IPV4_ADDR_LENGTH a = take IPV4_ADDR_LENGTH ip) \<and>
       (mode = SNSD_MODE_DC \<longrightarrow> me_pton env (ci_traddr c) \<noteq> None))"

lemma check_and_fill_names:
  assumes "snsd_check_and_fill env any_ip mode c p = (q, found)"
  shows "found \<longleftrightarrow> cfg_names env any_ip mode (pi_ip p) c"
    and "pi_ip q = pi_ip p" and "pi_name q = pi_name p" and "pi_count q = pi_count p" and "pi_vlan q = pi_vlan p"
    and "pi_flags q = pi_flags p" and "pi_states q = pi_states p"
  using assms
  by (auto simp: snsd_check_and_fill_def cfg_names_def snsd_fill_net_info_def Let_def
      split: if_splits option.splits)

lemma fill_first_names:
  assumes "fill_first env any_ip mode cs p = (q, found)"
  shows "(found \<longleftrightarrow> (\<exists>c \<in> set cs. cfg_names env any_ip mode (pi_ip p) c)) \<and>
    pi_ip q = pi_ip p \<and> pi_name q = pi_name p \<and> pi_count q = pi_count p \<and> pi_vlan q = pi_vlan p \<and>
    pi_flags q = pi_flags p \<and> pi_states q = pi_states p"
  using assms
proof (induction cs arbitrary: p)
  case (Cons c cs)
  obtain p1 f1 where c: "snsd_check_and_fill env any_ip mode c p = (p1, f1)"
    by (cases "snsd_check_and_fill env any_ip mode c p")
  note n = check_and_fill_names [OF c]
  show ?case
  proof (cases f1)
    case True
    with Cons.prems c n show ?thesis by auto
  next
    case False
    with Cons.prems c have "fill_first env any_ip mode cs p1 = (q, found)" by simp
    from Cons.IH [OF this] n False show ?thesis by auto
  qed
qed simp


definition port_facts :: "'p net_info_scheme \<Rightarrow> (u8 list \<times> u8 list) \<times> u32 \<times> int \<times> u16 \<times> u8 list" where
  "port_facts n = (port_key n, pi_count (ni_port_info n), pi_vlan (ni_port_info n), pi_flags (ni_port_info n),
    pi_ip (ni_port_info n))"

definition configured :: "mgt_env \<Rightarrow> snsd_any \<Rightarrow> snsd_mode \<Rightarrow> cfg_infos list \<Rightarrow> 'p net_info_scheme \<Rightarrow> bool" where
  "configured env any_ip mode cs n \<longleftrightarrow> (\<exists>c \<in> set cs. cfg_names env any_ip mode (pi_ip (ni_port_info n)) c)"

text \<open>The ports without an item are dropped; the facts about the others stay as they are.\<close>

lemma dealwith_cfg_filter:
  "map port_facts (snsd_dealwith_cfg env any_ip mode cs nets) =
    map port_facts (filter (configured env any_ip mode cs) nets)"
proof (induction nets)
  case (Cons n nets)
  obtain p found where "fill_first env any_ip mode cs (ni_port_info n) = (p, found)"
    by (cases "fill_first env any_ip mode cs (ni_port_info n)")
  with fill_first_names [OF this] Cons show ?case
    by (simp add: configured_def port_facts_def port_key_def upd_port_def)
qed simp

definition refused :: "mgt_env \<Rightarrow> u32 \<Rightarrow> 'p net_info_scheme \<Rightarrow> bool" where
  "refused env count n \<longleftrightarrow> pi_count (ni_port_info n) = count \<and> flag_set (pi_states (ni_port_info n)) STATE_NEW_PORT \<and>
    \<not> protocol_flag env ((ni_port_info n)\<lparr>pi_protocol :=
      (if pi_protocol (ni_port_info n) = 0 then SNSD_PROTOCOL_ROCE else pi_protocol (ni_port_info n))\<rparr>)"

lemma protocol_handle_keys:
  "map port_key (snsd_protocol_handle env count nets) = map port_key (filter (\<lambda>n. \<not> refused env count n) nets)"
  by (induction nets) (auto simp: refused_def port_key_def upd_port_def Let_def)

lemma protocol_flag_roce: "protocol_flag env p \<Longrightarrow> pi_protocol p = SNSD_PROTOCOL_ROCE"
  by (auto simp: protocol_flag_def protocol_options_def snsd_protocol_unsupport_def split: option.splits if_splits)

lemma protocol_handle_seen:
  assumes "n' \<in> set (snsd_protocol_handle env count nets)" and "pi_count (ni_port_info n') = count"
  shows "pi_protocol (ni_port_info n') = SNSD_PROTOCOL_ROCE \<and> (\<exists>n \<in> set nets. port_facts n' = port_facts n)"
  using assms(1)
proof (induction nets)
  case (Cons n nets)
  let ?m = "if pi_protocol (ni_port_info n) = 0
    then upd_port (\<lambda>p. p\<lparr>pi_protocol := SNSD_PROTOCOL_ROCE\<rparr>) n else n"
  have facts: "port_facts ?m = port_facts n" by (simp add: port_facts_def port_key_def upd_port_def)
  consider "n' \<in> set (snsd_protocol_handle env count nets)" | "n' = n" "pi_count (ni_port_info n) \<noteq> count"
    | "n' = ?m" "protocol_flag env (ni_port_info ?m)"
    | "n' = upd_port (\<lambda>p. p\<lparr>pi_count := pi_count p - 1\<rparr>) ?m" "pi_count (ni_port_info n) = count"
    using Cons.prems by (auto simp: Let_def split: if_splits)
  then show ?case
  proof cases
    case 3
    with facts protocol_flag_roce [OF 3(2)] show ?thesis by (metis list.set_intros(1))
  next
    case 4
    then have "pi_count (ni_port_info n') = count - 1" by (simp add: upd_port_def)
    with assms(2) show ?thesis by simp
  qed (use Cons.IH assms(2) in auto)
qed simp

lemma cfg_net_info_seen:
  assumes "snsd_cfg_net_info env cfg zero mode count nets = Some (nets', 0)"
    and "snsd_get_ifconf env = Some (Some ifc)" and "\<forall>ifr \<in> set ifc. ifreq_ok ifr"
    and "snsd_get_file_info env SNSD_VLAN_FILE_PATH = (len, Some vlan_info)" and "no_port_seen count nets"
  shows "distinct (map port_key nets') \<and>
    (\<forall>n \<in> set nets'. pi_count (ni_port_info n) = count \<longrightarrow>
      (\<exists>ifr \<in> set ifc. if_family ifr = AF_INET \<and> is_port_of ifr n) \<and>
      polled env vlan_info count (ni_port_info n) \<and>
      configured env (snsd_get_any_ip cfg) mode (snsd_get_net_cfg mode cfg) n \<and>
      pi_protocol (ni_port_info n) = SNSD_PROTOCOL_ROCE)"
proof -
  let ?cs = "snsd_get_net_cfg mode cfg" and ?any = "snsd_get_any_ip cfg"
  from assms(1,2) obtain nets1 where n1: "snsd_get_net_info env cfg zero count ifc nets = Some (nets1, 0)"
    and n': "nets' = snsd_protocol_handle env count (snsd_dealwith_cfg env ?any mode ?cs nets1)"
    by (auto simp: snsd_cfg_net_info_def snsd_all_net_info_def Let_def split: if_splits option.splits prod.splits)
  note inv = get_net_info_inv [OF n1 assms(3,5,4)]
  let ?nets2 = "snsd_dealwith_cfg env ?any mode ?cs nets1"
  have "map port_key ?nets2 = map port_key (filter (configured env ?any mode ?cs) nets1)"
    using arg_cong [OF dealwith_cfg_filter, of "map fst" env ?any mode ?cs nets1]
    by (simp add: comp_def port_facts_def)
  then have "distinct (map port_key ?nets2)" using inv by (simp add: list_inv_def distinct_map_filter)
  then have d: "distinct (map port_key nets')" unfolding n' protocol_handle_keys by (rule distinct_map_filter)
  have "(\<exists>ifr \<in> set ifc. if_family ifr = AF_INET \<and> is_port_of ifr n) \<and> polled env vlan_info count (ni_port_info n) \<and>
      configured env ?any mode ?cs n \<and> pi_protocol (ni_port_info n) = SNSD_PROTOCOL_ROCE"
    if n: "n \<in> set nets'" "pi_count (ni_port_info n) = count" for n
  proof -
    obtain n2 where n2: "n2 \<in> set ?nets2" "port_facts n = port_facts n2"
      and roce: "pi_protocol (ni_port_info n) = SNSD_PROTOCOL_ROCE"
      using protocol_handle_seen [OF n(1) [unfolded n'] n(2)] by blast
    then have "port_facts n2 \<in> port_facts ` set (filter (configured env ?any mode ?cs) nets1)"
      using dealwith_cfg_filter [of env ?any mode ?cs nets1, THEN arg_cong, of set] by (simp only: set_map) blast
    then obtain m where m: "m \<in> set nets1" "configured env ?any mode ?cs m" "port_facts n = port_facts m"
      using n2(2) by auto
    then have "pi_count (ni_port_info m) = count" using n(2) by (simp add: port_facts_def)
    with inv m(1) have "polled env vlan_info count (ni_port_info m)"
      "\<exists>ifr \<in> set ifc. if_family ifr = AF_INET \<and> is_port_of ifr m" by (auto simp: list_inv_def)
    with m(2,3) roce show ?thesis
      by (simp add: port_facts_def port_key_def polled_def is_port_of_def configured_def)
  qed
  with d show ?thesis by blast
qed

text \<open>
  C26: a successful poll leaves one port per name and address, and every port that counts as seen is an
  IPv4 interface of the kernel with the VLAN its name has in the table and the link state of this
  poll, is named by the configuration, and has a device that speaks RoCE.
\<close>

theorem snsd_cfg_net_info_ports:
  assumes "snsd_cfg_net_info env cfg zero mode count nets = Some (nets', 0)"
    and "snsd_get_ifconf env = Some (Some ifc)" and "\<forall>ifr \<in> set ifc. ifreq_ok ifr"
    and "snsd_get_file_info env SNSD_VLAN_FILE_PATH = (len, Some vlan_info)" and "no_port_seen count nets"
  shows "distinct (map port_key nets') \<and>
    (\<forall>n \<in> set nets'. pi_count (ni_port_info n) = count \<longrightarrow>
      (\<exists>ifr \<in> set ifc. if_family ifr = AF_INET \<and> is_port_of ifr n) \<and>
      polled env vlan_info count (ni_port_info n) \<and>
      configured env (snsd_get_any_ip cfg) mode (snsd_get_net_cfg mode cfg) n \<and>
      pi_protocol (ni_port_info n) = SNSD_PROTOCOL_ROCE)"
  by (rule cfg_net_info_seen [OF assms])

definition sample_vlan_file :: string where
  "sample_vlan_file = vlan_line ''v'' '' '' 1 ''e''"

definition sample_poll_env :: mgt_env where
  "sample_poll_env = (sample_mgt_env (\<lambda>f. if f = SNSD_VLAN_FILE_PATH then Some sample_vlan_file else None))
    \<lparr>me_ifconf := \<lambda>n. Some (take n [sample_ifreq ''v'' 1]),
     me_readdir := \<lambda>d. Some (if d = SNSD_IB_PROTOCOL_PATH then [''m''] else [''e'']),
     me_pton := \<lambda>s. Some [10, 0, 0, 1]\<rparr>"

definition sample_poll_cfg :: "unit cfg_sys" where
  "sample_poll_cfg = (cfg_globals None ())\<lparr>cs_sw_list := [snsd_init_cfg\<lparr>ci_host_traddr := ''10.0.0.1'', cc_protocol := 1\<rparr>]\<rparr>"

definition sample_poll :: "(net_info list \<times> int) option" where
  "sample_poll = snsd_cfg_net_info sample_poll_env sample_poll_cfg \<lparr>ni_port_info = zero_port\<rparr> SNSD_MODE_SW 5 []"

lemma sample_poll_answers:
  "snsd_get_ifconf sample_poll_env = Some (Some [sample_ifreq ''v'' 1])"
  "snsd_get_file_info sample_poll_env SNSD_VLAN_FILE_PATH = (int (length sample_vlan_file), Some sample_vlan_file)"
  by code_simp+

lemma sample_ifreqs_ok: "\<forall>ifr \<in> set [sample_ifreq ''v'' 1]. ifreq_ok ifr"
  by (simp add: ifreq_ok_def sample_ifreq_def)

lemma no_port_seen_Nil: "no_port_seen count []"
  by (simp add: no_port_seen_def)

theorem snsd_cfg_net_info_ports_witness:
  "\<exists>n. sample_poll = Some ([n], 0) \<and> pi_protocol (ni_port_info n) = SNSD_PROTOCOL_ROCE"
proof -
  let ?nets = "fst (the sample_poll)"
  have s: "sample_poll \<noteq> None \<and> snd (the sample_poll) = 0 \<and> length ?nets = 1" by code_simp
  then have r: "sample_poll = Some (?nets, 0)" by (metis option.collapse prod.collapse)
  obtain n where n: "?nets = [n]" using s by (cases ?nets) auto
  have "pi_count (ni_port_info (hd ?nets)) = 5" by code_simp
  then have c: "pi_count (ni_port_info n) = 5" by (simp only: n list.sel)
  have "snsd_cfg_net_info sample_poll_env sample_poll_cfg \<lparr>ni_port_info = zero_port\<rparr> SNSD_MODE_SW 5 [] = Some (?nets, 0)"
    using r unfolding sample_poll_def .
  from snsd_cfg_net_info_ports [OF this sample_poll_answers(1) sample_ifreqs_ok sample_poll_answers(2) no_port_seen_Nil]
  have "pi_protocol (ni_port_info n) = SNSD_PROTOCOL_ROCE" using n c by (metis list.set_intros(1))
  with r n show ?thesis by metis
qed

definition sample_look :: "(net_info list \<times> int) option" where
  "sample_look = snsd_get_net_info sample_poll_env sample_poll_cfg \<lparr>ni_port_info = zero_port\<rparr> 5
    [sample_ifreq ''v'' 1] []"

theorem snsd_get_net_info_sees_witness:
  "\<exists>nets. sample_look = Some (nets, 0) \<and>
    (\<exists>n \<in> set nets. is_port_of (sample_ifreq ''v'' 1) n \<and> pi_count (ni_port_info n) = 5)"
proof -
  let ?nets = "fst (the sample_look)" and ?i = "sample_ifreq ''v'' 1"
  have "sample_look \<noteq> None \<and> snd (the sample_look) = 0" by code_simp
  then have r: "sample_look = Some (?nets, 0)" by (metis option.collapse prod.collapse)
  then have "snsd_get_net_info sample_poll_env sample_poll_cfg \<lparr>ni_port_info = zero_port\<rparr> 5
    [?i] [] = Some (?nets, 0)" unfolding sample_look_def .
  note sees = snsd_get_net_info_sees [OF this sample_ifreqs_ok no_port_seen_Nil sample_poll_answers(2)]
  have v: "vlan_of sample_vlan_file (if_name ?i) \<noteq> SNSD_INVALID_VLAN" by code_simp
  have "?i \<in> set [?i]" "if_family ?i = AF_INET" by (simp_all add: sample_ifreq_def)
  with sees v have "\<exists>n \<in> set ?nets. is_port_of ?i n \<and> pi_count (ni_port_info n) = 5" by blast
  with r show ?thesis by metis
qed

text \<open>
  Without a bonding file and without an IPv4 interface the result is whatever the variable
  \<open>ret\<close> held before: the poll may fail or succeed.
\<close>

theorem snsd_get_net_info_uninitialised:
  assumes "\<not> me_access env SNSD_BONDING_FILE_PATH"
    and "snsd_get_file_info env SNSD_VLAN_FILE_PATH = (len, Some vlan_info)"
    and "\<forall>ifr \<in> set ifc. if_family ifr \<noteq> AF_INET"
  shows "snsd_get_net_info env cfg zero count ifc nets = Some (nets, me_ret env)"
proof -
  have "net_info_loop env cfg zero count bonds vlan_info ifc ret nets = Some (nets, ret)" for bonds ret
    using assms(3) by (induction ifc) simp_all
  with assms(1,2) show ?thesis by (simp add: snsd_get_net_info_def)
qed

theorem snsd_get_net_info_uninitialised_witness:
  "snsd_get_net_info (sample_poll_env\<lparr>me_ret := - 7\<rparr>) sample_poll_cfg \<lparr>ni_port_info = zero_port\<rparr> 5 [] [] = Some ([], - 7)"
proof -
  have "\<not> me_access (sample_poll_env\<lparr>me_ret := - 7\<rparr>) SNSD_BONDING_FILE_PATH" by code_simp
  moreover have "snsd_get_file_info (sample_poll_env\<lparr>me_ret := - 7\<rparr>) SNSD_VLAN_FILE_PATH =
    (int (length sample_vlan_file), Some sample_vlan_file)" by code_simp
  ultimately show ?thesis using snsd_get_net_info_uninitialised
    [of "sample_poll_env\<lparr>me_ret := - 7\<rparr>" _ _ "[]" sample_poll_cfg "\<lparr>ni_port_info = zero_port\<rparr>" 5 "[]"] by simp
qed

end
