(* ===== verification/Snsd_Poll.thy ===== *)
theory Snsd_Poll
  imports Snsd_Mgt_List Snsd_Direct "HOL-Library.Sublist"
begin

text \<open>
  The main loop of \<open>src/snsd_main.c\<close>: a round collects the ports of the switched network and
  handles them, then those of the direct network, and counts.  The collection of
  \<open>src/snsd_mgt.c\<close>, the handlers of \<open>src/snsd_switch.c\<close> and \<open>src/snsd_direct.c\<close> and the
  task scheduler are put together here.  \<open>snsd_help_run\<close> always answers no, so the loop does not
  end.
\<close>

section \<open>Start\<close>

datatype main_op =
    Show_help | Show_version | Unrecognized
  | Log_init | Cfg_init | Peon_init | Switch_port_init | Server_run | Port_handle
  | Server_exit | Peon_exit | Cfg_exit | Log_exit

definition special_process :: "string \<Rightarrow> main_op" where
  "special_process argv =
    (case map_of [(''--help'', Show_help), (''-h'', Show_help), (''--version'', Show_version),
        (''-v'', Show_version)] argv of
       Some cmd \<Rightarrow> cmd
     | None \<Rightarrow> Unrecognized)"

text \<open>
  \<open>main\<close>: what it does and returns, given the words of the command line (without the program's
  name) and the results of the three starts.
\<close>

definition snsd_main :: "string list \<Rightarrow> int \<Rightarrow> int \<Rightarrow> int \<Rightarrow> main_op list \<times> int" where
  "snsd_main args cfg_ret peon_ret server_ret =
    (if length args > 1 then ([], - EINVAL_code)
     else if length args = 1 then ([special_process (hd args)], - EINVAL_code)
     else if cfg_ret \<noteq> 0 then ([Log_init, Cfg_init], cfg_ret)
     else if peon_ret \<noteq> 0 then ([Log_init, Cfg_init, Peon_init, Cfg_exit], peon_ret)
     else if server_ret \<noteq> 0 then
       ([Log_init, Cfg_init, Peon_init, Switch_port_init, Server_run, Peon_exit, Cfg_exit, Log_exit], server_ret)
     else ([Log_init, Cfg_init, Peon_init, Switch_port_init, Server_run, Port_handle,
       Server_exit, Peon_exit, Cfg_exit, Log_exit], 0))"

section \<open>A round\<close>

record ('w, 'c) poll_sys =
  po_switch_list :: "sw_net_info list"
  po_direct_list :: "dc_net_info list"
  po_sys :: "('w, 'c) switch_sys"
  po_count :: u32

record ('w, 'c) poll_env =
  pl_switch_mgt :: mgt_env
  pl_direct_mgt :: mgt_env
  pl_cfg :: "unit cfg_sys"
  pl_switch :: "('w, 'c) switch_env"
  pl_direct :: "port_info \<Rightarrow> 'w peon_env"

definition zero_sw :: sw_net_info where
  "zero_sw = \<lparr>ni_port_info = zero_port, ni_lldp_info = \<lparr>lr_valid = False, lr_fd = 0, lr_expires = 0,
    lr_interval_clock = 0, lr_index = 0, lr_flags = 0\<rparr>\<rparr>"

definition zero_dc :: dc_net_info where
  "zero_dc = \<lparr>ni_port_info = zero_port, ni_direct_state = SNSD_CONNECT_INI\<rparr>"

text \<open>The switched network's part of a round, with the collection of its ports.\<close>

definition switch_poll ::
  "('w, 'c) poll_env \<Rightarrow> u32 \<Rightarrow> sw_net_info list \<Rightarrow> ('w, 'c) switch_sys \<Rightarrow>
    (('w, 'c) switch_sys \<times> sw_net_info list) call" where
  "switch_poll env count nets s =
    (case snsd_cfg_net_info (pl_switch_mgt env) (pl_cfg env) zero_sw SNSD_MODE_SW count nets of
       None \<Rightarrow> Stuck
     | Some (nets, ret) \<Rightarrow>
         (case switch_port_handle (pl_switch env) count (if ret = 0 then Some nets else None) s of
            Stuck \<Rightarrow> Stuck
          | Done (s, None) \<Rightarrow> Done (s, nets)
          | Done (s, Some nets) \<Rightarrow> Done (s, nets)))"

definition direct_poll ::
  "('w, 'c) poll_env \<Rightarrow> u32 \<Rightarrow> dc_net_info list \<Rightarrow> ('w, 'c) switch_sys \<Rightarrow>
    (('w, 'c) switch_sys \<times> dc_net_info list) call" where
  "direct_poll env count nets s =
    (case snsd_cfg_net_info (pl_direct_mgt env) (pl_cfg env) zero_dc SNSD_MODE_DC count nets of
       None \<Rightarrow> Stuck
     | Some (nets, ret) \<Rightarrow>
         (case direct_port_handle (sw_templates (pl_switch env)) (pl_direct env) count
             (if ret = 0 then Some nets else None) (ss_peons s) of
            Stuck \<Rightarrow> Stuck
          | Done (peons, None) \<Rightarrow> Done (s\<lparr>ss_peons := peons\<rparr>, nets)
          | Done (peons, Some nets) \<Rightarrow> Done (s\<lparr>ss_peons := peons\<rparr>, nets)))"

definition snsd_help_run :: bool where
  "snsd_help_run = False"

definition port_handle_round ::
  "('w, 'c) poll_env \<Rightarrow> ('w, 'c) poll_sys \<Rightarrow> ('w, 'c) poll_sys call" where
  "port_handle_round env m =
    (case switch_poll env (po_count m) (po_switch_list m) (po_sys m) of
       Stuck \<Rightarrow> Stuck
     | Done (s, sw) \<Rightarrow>
         (case direct_poll env (po_count m) (po_direct_list m) s of
            Stuck \<Rightarrow> Stuck
          | Done (s, dc) \<Rightarrow>
              Done \<lparr>po_switch_list = sw, po_direct_list = dc, po_sys = s, po_count = po_count m + 1\<rparr>))"

text \<open>
  The state after a number of rounds, each with its own answers of the outside (out of \<open>E\<close>).  Between two rounds
  the other threads may have changed the scheduler's queues and the server's state in any way.
\<close>

inductive port_handle ::
  "('w, 'c) poll_env set \<Rightarrow> ('w, 'c) switch_sys \<Rightarrow> nat \<Rightarrow> ('w, 'c) poll_sys \<Rightarrow> bool" for E s where
  start: "port_handle E s 0 \<lparr>po_switch_list = [], po_direct_list = [], po_sys = s, po_count = SWITCH_POLL_INTEVAL\<rparr>"
| round: "port_handle E s k m \<Longrightarrow> env \<in> E \<Longrightarrow> port_handle_round env m = Done m' \<Longrightarrow>
    \<not> snsd_help_run \<Longrightarrow> port_handle E s (Suc k) m'"
| others: "port_handle E s k m \<Longrightarrow>
    port_handle E s k (m\<lparr>po_sys := (po_sys m)\<lparr>ss_peons := peons, ss_server := server\<rparr>\<rparr>)"

section \<open>The lists between rounds\<close>

text \<open>One port per name and address, and no port is from a later round.\<close>

definition counts_up_to :: "nat \<Rightarrow> 'p net_info_scheme list \<Rightarrow> bool" where
  "counts_up_to c nets \<longleftrightarrow> distinct (map port_key nets) \<and> (\<forall>n \<in> set nets. unat (pi_count (ni_port_info n)) \<le> c)"

lemma unat_count_pred: "0 < unat count \<Longrightarrow> unat (count - 1) \<le> unat count" for count :: u32
  by (metis One_nat_def diff_le_self unat_1 unat_minus_one unsigned_0 less_irrefl)

lemma counts_update:
  assumes "counts_up_to c nets" and "i < length nets" and "port_key n = port_key (nets ! i)"
    and "unat (pi_count (ni_port_info n)) \<le> c"
  shows "counts_up_to c (nets[i := n])"
proof -
  have "map port_key (nets[i := n]) = map port_key nets" using assms(2,3) by (simp add: map_update list_update_same_conv)
  then show ?thesis using assms(1,4) set_update_subset_insert [of nets i n] unfolding counts_up_to_def by fastforce
qed

lemma counts_remove: "counts_up_to c nets \<Longrightarrow> counts_up_to c (take i nets @ drop (Suc i) nets)"
proof -
  assume a: "counts_up_to c nets"
  have "distinct (map port_key (take i nets @ drop (Suc i) nets))"
  proof (cases "i < length nets")
    case True
    with a have "distinct (map port_key (take i nets @ nets ! i # drop (Suc i) nets))"
      by (simp add: counts_up_to_def id_take_nth_drop [OF True, symmetric])
    then show ?thesis by simp
  next
    case False
    with a show ?thesis by (simp add: counts_up_to_def)
  qed
  with a show ?thesis by (auto simp: counts_up_to_def dest: in_set_takeD in_set_dropD)
qed

lemma counts_find_old:
  assumes "snsd_try_find_old env zero count ifr nets = Some (nets1, i)" and "ifreq_ok ifr"
    and "counts_up_to (unat count) nets" and "0 < unat count"
  shows "counts_up_to (unat count) nets1 \<and> i < length nets1"
proof (cases "first_idx (is_port_of ifr) nets")
  case None
  then obtain item where "snsd_get_new env zero ifr = Some item"
    "nets1 = nets @ [upd_port (\<lambda>p. p\<lparr>pi_vlan := SNSD_INVALID_VLAN, pi_count := count - 1,
       pi_states := pi_states p OR STATE_NEW_PORT\<rparr>) item]" "i = length nets"
    using assms(1) unfolding snsd_try_find_old_def None option.case by (auto split: option.splits)
  moreover have "is_port_of ifr (nets1 ! i)" using find_old [OF assms(1,2)] by blast
  then have "port_key (nets1 ! i) \<notin> port_key ` set nets" using None by (auto simp: is_port_of_key)
  ultimately show ?thesis using assms(3) unat_count_pred [OF assms(4)]
    by (auto simp: counts_up_to_def upd_port_def nth_append)
next
  case (Some j)
  from first_idx_SomeD [OF Some] have j: "j < length nets" by simp
  with assms Some have "unat (pi_count (ni_port_info (nets ! j))) \<le> unat count" by (simp add: counts_up_to_def)
  with assms Some j show ?thesis
    by (auto simp: snsd_try_find_old_def upd_port_def port_key_def intro!: counts_update)
qed

lemma counts_same_port:
  assumes "counts_up_to c nets" and "i < length nets" and "same_port (ni_port_info (nets ! i)) p"
  shows "counts_up_to c (nets[i := upd_port (\<lambda>_. p) (nets ! i)])"
proof -
  have "unat (pi_count (ni_port_info (nets ! i))) \<le> c" using assms(1,2) by (simp add: counts_up_to_def)
  with assms show ?thesis by (intro counts_update) (simp_all add: same_port_def upd_port_def port_key_def)
qed


lemma counts_seen:
  assumes "counts_up_to (unat count) nets" and "i < length nets"
  shows "counts_up_to (unat count) (nets[i := upd_port (\<lambda>p. p\<lparr>pi_protocol := x, pi_count := count\<rparr>) (nets ! i)])"
  by (rule counts_update [OF assms]) (simp_all add: upd_port_def port_key_def)

lemma counts_net_info_loop:
  assumes "net_info_loop env cfg zero count bonds vlan_info ifrs ret nets = Some (nets', r)"
    and "\<forall>ifr \<in> set ifrs. ifreq_ok ifr" and "counts_up_to (unat count) nets" and "0 < unat count"
  shows "counts_up_to (unat count) nets'"
  using assms(1-3)
proof (induction ifrs arbitrary: ret nets)
  case (Cons ifr ifrs)
  show ?case
  proof (cases "if_family ifr = AF_INET")
    case False
    with Cons show ?thesis by simp
  next
    case True
    show ?thesis
    proof (cases "snsd_try_find_old env zero count ifr nets")
      case None
      with True Cons.prems show ?thesis by simp
    next
      case (Some a)
      then obtain nets1 i where f: "snsd_try_find_old env zero count ifr nets = Some (nets1, i)" by (cases a) simp
      have n1: "counts_up_to (unat count) nets1" "i < length nets1"
        using counts_find_old [OF f] Cons.prems(2,3) assms(4) by simp_all
      obtain p1 r1 where p1: "snsd_get_mac_and_flags env (ni_port_info (nets1 ! i)) = (p1, r1)"
        by (cases "snsd_get_mac_and_flags env (ni_port_info (nets1 ! i))")
      have s1: "same_port (ni_port_info (nets1 ! i)) p1" using get_mac_and_flags_same [OF p1] by simp
      show ?thesis
      proof (cases "r1 = 0")
        case False
        with True f p1 Cons.prems(1) counts_same_port [OF n1 s1] show ?thesis by simp
      next
        case r1: True
        obtain p2 r2 where p2: "snsd_get_mix_info env bonds vlan_info p1 = Some (p2, r2)"
          using True f p1 r1 Cons.prems(1) by (cases "snsd_get_mix_info env bonds vlan_info p1") auto
        have s2: "same_port (ni_port_info (nets1 ! i)) p2"
          using s1 get_mix_info_same [OF p2] by (simp add: same_port_def)
        let ?n2 = "nets1[i := upd_port (\<lambda>_. p2) (nets1 ! i)]"
        let ?n3 = "if pi_vlan p2 = SNSD_INVALID_VLAN then
            (if flag_set (pi_states p2) STATE_NEW_PORT then take i ?n2 @ drop (Suc i) ?n2 else ?n2)
          else ?n2[i := upd_port (\<lambda>p. p\<lparr>pi_protocol := nat (snsd_get_any_protocol cfg), pi_count := count\<rparr>) (?n2 ! i)]"
        have c2: "counts_up_to (unat count) ?n2" by (rule counts_same_port [OF n1 s2])
        have "i < length ?n2" using n1(2) by simp
        then have "counts_up_to (unat count) ?n3"
          using c2 counts_remove [OF c2] counts_seen [OF c2]
          by (cases "pi_vlan p2 = SNSD_INVALID_VLAN"; cases "flag_set (pi_states p2) STATE_NEW_PORT")
            (simp_all only: if_True if_False simp_thms)
        moreover have "r2 = 0 \<Longrightarrow> net_info_loop env cfg zero count bonds vlan_info ifrs 0 ?n3 = Some (nets', r)"
          "r2 \<noteq> 0 \<Longrightarrow> nets' = ?n2" using True f p1 r1 p2 Cons.prems(1) by (simp_all add: Let_def)
        ultimately show ?thesis using Cons.IH Cons.prems(2) c2 by (cases "r2 = 0") auto
      qed
    qed
  qed
qed simp

text \<open>The kernel's answers to \<open>SIOCGIFCONF\<close> are well formed.\<close>

definition ifconf_ok :: "mgt_env \<Rightarrow> bool" where
  "ifconf_ok env \<longleftrightarrow> (\<forall>n reqs. me_ifconf env n = Some reqs \<longrightarrow> (\<forall>ifr \<in> set reqs. ifreq_ok ifr))"

lemma ifconf_loop_ok:
  assumes "ifconf_loop env n = Some y"
  shows "ifconf_ok env \<longrightarrow> (\<forall>ifc. y = Some ifc \<longrightarrow> (\<forall>ifr \<in> set ifc. ifreq_ok ifr))"
proof (rule ifconf_loop.raw_induct [rotated, OF assms])
  fix loop :: "mgt_env \<Rightarrow> nat \<Rightarrow> ifreq list option option" and env n y
  assume "\<And>env n y. loop env n = Some y \<Longrightarrow>
      ifconf_ok env \<longrightarrow> (\<forall>ifc. y = Some ifc \<longrightarrow> (\<forall>ifr \<in> set ifc. ifreq_ok ifr))"
    and "(if \<not> me_malloc env (For_ifconf n) then Some None else case me_ifconf env n of None \<Rightarrow> Some None
      | Some reqs \<Rightarrow> if length reqs = n then loop env (n + SNSD_DEFAULT_IFS) else Some (Some reqs)) = Some y"
  then show "ifconf_ok env \<longrightarrow> (\<forall>ifc. y = Some ifc \<longrightarrow> (\<forall>ifr \<in> set ifc. ifreq_ok ifr))"
    unfolding ifconf_ok_def by (auto split: if_splits option.splits) 
qed

lemma counts_all_net_info:
  assumes "snsd_all_net_info env cfg zero count nets = Some (nets', r)" and "ifconf_ok env"
    and "counts_up_to (unat count) nets" and "0 < unat count"
  shows "counts_up_to (unat count) nets'"
proof -
  consider "nets' = nets" | ifc bonds vlan_info ret where "snsd_get_ifconf env = Some (Some ifc)"
      "net_info_loop env cfg zero count bonds vlan_info ifc ret nets = Some (nets', r)"
    using assms(1) by (auto simp: snsd_all_net_info_def snsd_get_net_info_def
        split: if_splits option.splits sum.splits prod.splits)
  then show ?thesis
  proof cases
    case 2
    have "\<forall>ifr \<in> set ifc. ifreq_ok ifr"
      using ifconf_loop_ok 2(1) assms(2) unfolding snsd_get_ifconf_def by blast
    from counts_net_info_loop [OF 2(2) this assms(3,4)] show ?thesis .
  qed (simp add: assms(3))
qed

lemma counts_cong:
  assumes "map port_key nets2 = map port_key (filter P nets)"
    and "\<And>n. n \<in> set nets2 \<Longrightarrow> unat (pi_count (ni_port_info n)) \<le> c" and "counts_up_to c nets"
  shows "counts_up_to c nets2"
  using assms by (auto simp: counts_up_to_def distinct_map_filter)

lemma protocol_handle_counts:
  assumes "n' \<in> set (snsd_protocol_handle env count nets)" and "0 < unat count"
    and "\<forall>n \<in> set nets. unat (pi_count (ni_port_info n)) \<le> unat count"
  shows "unat (pi_count (ni_port_info n')) \<le> unat count"
  using assms unat_count_pred [OF assms(2)]
  by (induction nets) (auto simp: Let_def upd_port_def split: if_splits)

lemma counts_cfg_net_info:
  assumes "snsd_cfg_net_info env cfg zero mode count nets = Some (nets', r)" and "ifconf_ok env"
    and "counts_up_to (unat count) nets" and "0 < unat count"
  shows "counts_up_to (unat count) nets'"
proof -
  let ?cs = "snsd_get_net_cfg mode cfg" and ?any = "snsd_get_any_ip cfg"
  consider "nets' = nets" | r1 where "snsd_all_net_info env cfg zero count nets = Some (nets', r1)"
    | nets1 where "snsd_all_net_info env cfg zero count nets = Some (nets1, 0)"
      "nets' = snsd_protocol_handle env count (snsd_dealwith_cfg env ?any mode ?cs nets1)"
    using assms(1) by (auto simp: snsd_cfg_net_info_def Let_def split: if_splits option.splits prod.splits)
  then show ?thesis
  proof cases
    case (3 nets1)
    note c1 = counts_all_net_info [OF 3(1) assms(2-4)]
    let ?nets2 = "snsd_dealwith_cfg env ?any mode ?cs nets1"
    have keys: "map port_key ?nets2 = map port_key (filter (configured env ?any mode ?cs) nets1)"
      using arg_cong [OF dealwith_cfg_filter, of "map fst" env ?any mode ?cs nets1]
      by (simp add: comp_def port_facts_def)
    have "set (map port_facts ?nets2) \<subseteq> set (map port_facts nets1)" unfolding dealwith_cfg_filter by auto
    then have "port_facts n \<in> port_facts ` set nets1" if "n \<in> set ?nets2" for n using that by auto
    then have "unat (pi_count (ni_port_info n)) \<le> unat count" if "n \<in> set ?nets2" for n
      using that c1 unfolding counts_up_to_def by (fastforce simp: port_facts_def)
    with keys have "counts_up_to (unat count) ?nets2" using c1 by (rule counts_cong)
    moreover from this have "unat (pi_count (ni_port_info n)) \<le> unat count" if "n \<in> set nets'" for n
      using that protocol_handle_counts [OF _ assms(4)] unfolding 3(2) counts_up_to_def by blast
    ultimately show ?thesis unfolding 3(2) by (intro counts_cong [OF protocol_handle_keys]) (simp_all only: 3(2))
  qed (use assms counts_all_net_info in auto)
qed


text \<open>The handlers keep the order of the ports, their names, addresses and counts.\<close>

definition port_row :: "'p net_info_scheme \<Rightarrow> (u8 list \<times> u8 list) \<times> u32" where
  "port_row n = (port_ident n, pi_count (ni_port_info n))"

lemma port_key_row: "port_row n = port_row m \<Longrightarrow> port_key n = port_key m"
  by (simp add: port_row_def port_ident_def port_key_def)

lemma handle_disconnect_port:
  "switch_port_handle_disconnect env n s = Done (s', n') \<Longrightarrow> ni_port_info n' = ni_port_info n"
  by (auto simp: switch_port_handle_disconnect_def Let_def split: if_splits call.splits prod.splits)

lemma switch_ports_loop_rows:
  assumes "switch_ports_loop env count check nets s = Done (s', nets')"
  shows "subseq (map port_row nets') (map port_row nets)"
  using assms
proof (induction nets arbitrary: s s' nets')
  case (Cons n nets)
  show ?case
  proof (cases "pi_count (ni_port_info n) = count")
    case True
    obtain s1 n1 where h: "(if check then switch_port_exist_handle env n s else (s, n)) = (s1, n1)" by fastforce
    have r1: "port_row n1 = port_row n"
      using exist_handle_frame [of env n s] h by (cases check) (auto simp: port_row_def port_ident_def)
    obtain s2 n2 where d: "switch_port_handle_disconnect env n1 s1 = Done (s2, n2)"
      using Cons.prems True h by (auto split: call.splits)
    then obtain nets2 where "switch_ports_loop env count check nets s2 = Done (s', nets2)" "nets' = n2 # nets2"
      using Cons.prems True h by (auto split: call.splits)
    moreover from this(1) have "subseq (map port_row nets2) (map port_row nets)" by (rule Cons.IH)
    moreover have "port_row n2 = port_row n"
      using r1 handle_disconnect_port [OF d] by (simp add: port_row_def port_ident_def)
    ultimately show ?thesis by simp
  next
    case False
    then obtain s1 ret where d: "disconnect_host env (ni_port_info n) s = Done (s1, ret)"
      using Cons.prems by (auto split: call.splits)
    show ?thesis
    proof (cases "ret = Inr ()")
      case True
      then have "switch_ports_loop env count check nets (switch_port_delete (sw_now env) n s1) = Done (s', nets')"
        using Cons.prems False d by simp
      from Cons.IH [OF this] show ?thesis by (simp only: list.map) (rule list_emb_Cons)
    next
      case ret: False
      then obtain nets2 where "switch_ports_loop env count check nets s1 = Done (s', nets2)" "nets' = n # nets2"
        using Cons.prems False d by (auto split: call.splits)
      with Cons.IH show ?thesis by simp
    qed
  qed
qed simp

definition row_key :: "(u8 list \<times> u8 list) \<times> u32 \<Rightarrow> u8 list \<times> u8 list" where
  "row_key r = (fst (fst r), take IPV4_ADDR_LENGTH (snd (fst r)))"

lemma port_key_of_row: "map port_key nets = map row_key (map port_row nets)"
  by (simp add: port_key_def port_row_def port_ident_def row_key_def)

lemma subseq_distinct: "subseq xs ys \<Longrightarrow> distinct ys \<Longrightarrow> distinct xs"
  by (rule subseqs_distinctD) (simp_all only: in_set_subseqs)

lemma counts_rows:
  assumes "subseq (map port_row nets') (map port_row nets)" and "counts_up_to c nets"
  shows "counts_up_to c nets'"
proof -
  have "distinct (map port_key nets')"
    using subseq_map [OF assms(1), of row_key] assms(2) subseq_distinct
    unfolding port_key_of_row counts_up_to_def by blast
  moreover have "unat (pi_count (ni_port_info n)) \<le> c" if n: "n \<in> set nets'" for n
  proof -
    from n have "port_row n \<in> set (map port_row nets')" by simp
    with assms(1) obtain r where "r \<in> set (map port_row nets)" "port_row n = r" by (rule list_emb_set)
    then obtain m where "m \<in> set nets" "port_row n = port_row m" by auto
    with assms(2) show ?thesis by (simp add: counts_up_to_def port_row_def)
  qed
  ultimately show ?thesis by (simp add: counts_up_to_def)
qed

lemma counts_mono: "counts_up_to c nets \<Longrightarrow> c \<le> d \<Longrightarrow> counts_up_to d nets"
  by (auto simp: counts_up_to_def)

lemma counts_switch_poll:
  assumes "switch_poll env count nets s = Done (s', nets')" and "ifconf_ok (pl_switch_mgt env)"
    and "counts_up_to (unat count) nets" and "0 < unat count"
  shows "counts_up_to (unat count) nets'"
proof -
  obtain nets1 ret where c: "snsd_cfg_net_info (pl_switch_mgt env) (pl_cfg env) zero_sw SNSD_MODE_SW count nets =
      Some (nets1, ret)" using assms(1) by (auto simp: switch_poll_def split: option.splits)
  have c1: "counts_up_to (unat count) nets1" by (rule counts_cfg_net_info [OF c assms(2-4)])
  from assms(1) c consider "nets' = nets1"
    | check s1 s2 where "switch_ports_loop (pl_switch env) count check nets1 s1 = Done (s2, nets')"
    by (auto simp: switch_poll_def switch_port_handle_def Let_def split: call.splits option.splits if_splits prod.splits)
  then show ?thesis using c1 by cases (simp, blast intro: counts_rows switch_ports_loop_rows)
qed

lemma direct_ports_loop_rows:
  assumes "direct_ports_loop ts env_of count nets s = Done (s', nets')"
  shows "subseq (map port_row nets') (map port_row nets)"
proof -
  have row: "map port_row ns = map ((\<lambda>p. ((pi_name p, pi_ip p), pi_count p)) \<circ> ni_port_info) ns"
    for ns :: "dc_net_info list" by (simp add: port_row_def port_ident_def)
  have "map port_row nets' = map port_row (filter (seen_now count) nets)"
    unfolding row map_map [symmetric] direct_ports_loop_ports [OF assms] ..
  then show ?thesis by (simp add: subseq_map)
qed

lemma counts_direct_poll:
  assumes "direct_poll env count nets s = Done (s', nets')" and "ifconf_ok (pl_direct_mgt env)"
    and "counts_up_to (unat count) nets" and "0 < unat count"
  shows "counts_up_to (unat count) nets'"
proof -
  obtain nets1 ret where c: "snsd_cfg_net_info (pl_direct_mgt env) (pl_cfg env) zero_dc SNSD_MODE_DC count nets =
      Some (nets1, ret)" using assms(1) by (auto simp: direct_poll_def split: option.splits)
  have c1: "counts_up_to (unat count) nets1" by (rule counts_cfg_net_info [OF c assms(2-4)])
  from assms(1) c consider "nets' = nets1"
    | s2 where "direct_ports_loop (sw_templates (pl_switch env)) (pl_direct env) count nets1 (ss_peons s) =
        Done (s2, nets')"
    by (auto simp: direct_poll_def direct_port_handle_def split: call.splits option.splits if_splits prod.splits)
  then show ?thesis using c1 by cases (simp, blast intro: counts_rows direct_ports_loop_rows)
qed

text \<open>What holds of the lists before round \<open>k\<close>.\<close>

definition lists_inv :: "nat \<Rightarrow> ('w, 'c) poll_sys \<Rightarrow> bool" where
  "lists_inv k m \<longleftrightarrow> unat (po_count m) = 100 + k \<and>
    counts_up_to (99 + k) (po_switch_list m) \<and> counts_up_to (99 + k) (po_direct_list m)"

lemma port_handle_inv:
  assumes "port_handle E s k m" and "\<forall>env \<in> E. ifconf_ok (pl_switch_mgt env) \<and> ifconf_ok (pl_direct_mgt env)"
    and "100 + k < 2 ^ 32"
  shows "lists_inv k m"
  using assms(1,3)
proof (induction rule: port_handle.induct)
  case start
  show ?case by (simp add: lists_inv_def counts_up_to_def)
next
  case (round k m env m')
  then have inv: "lists_inv k m" by simp
  then have count: "unat (po_count m) = 100 + k" by (simp add: lists_inv_def)
  have ok: "ifconf_ok (pl_switch_mgt env)" "ifconf_ok (pl_direct_mgt env)" using assms(2) round.hyps(2) by auto
  obtain s1 sw s2 dc where r: "switch_poll env (po_count m) (po_switch_list m) (po_sys m) = Done (s1, sw)"
    "direct_poll env (po_count m) (po_direct_list m) s1 = Done (s2, dc)"
    "m' = \<lparr>po_switch_list = sw, po_direct_list = dc, po_sys = s2, po_count = po_count m + 1\<rparr>"
    using round.hyps(3) by (auto simp: port_handle_round_def split: call.splits)
  have "counts_up_to (unat (po_count m)) (po_switch_list m)" "counts_up_to (unat (po_count m)) (po_direct_list m)"
    using inv by (auto simp: lists_inv_def intro: counts_mono)
  then have "counts_up_to (100 + k) sw" "counts_up_to (100 + k) dc"
    using counts_switch_poll [OF r(1) ok(1)] counts_direct_poll [OF r(2) ok(2)] count by simp_all
  moreover have "unat (po_count m + 1) = 100 + Suc k"
    using count round.prems by (simp add: unat_word_ariths(1))
  ultimately show ?case by (simp add: r(3) lists_inv_def)
next
  case (others k m peons server)
  then show ?case by (simp add: lists_inv_def)
qed

lemma lists_inv_unseen:
  assumes "lists_inv k m"
  shows "no_port_seen (po_count m) (po_switch_list m)" and "no_port_seen (po_count m) (po_direct_list m)"
  using assms by (fastforce simp: lists_inv_def counts_up_to_def no_port_seen_def)+

text \<open>
  C29: before every round of the main loop the round counter is a hundred plus the number of rounds, and
  both lists hold one port per name and address, none of which counts as seen in the round to come:
  what the last rounds saw can never pass for what this one sees.  (The counter is 32 bits wide; at
  one round a second it wraps after 136 years.)
\<close>

theorem port_handle_lists:
  assumes "port_handle E s k m" and "\<forall>env \<in> E. ifconf_ok (pl_switch_mgt env) \<and> ifconf_ok (pl_direct_mgt env)"
    and "100 + k < 2 ^ 32"
  shows "unat (po_count m) = 100 + k \<and> no_port_seen (po_count m) (po_switch_list m) \<and>
    no_port_seen (po_count m) (po_direct_list m)"
  using port_handle_inv [OF assms] lists_inv_unseen [OF port_handle_inv [OF assms]] by (simp add: lists_inv_def)

text \<open>
  C3: the switched part of a round, in any state the main loop reaches: if the collection succeeds and
  the batch peon is up, the round ends; what is left in the list are the collected ports, each one an
  IPv4 interface the kernel lists now, with a VLAN, and named by the configuration.  Everything else
  was deleted, with a disconnect request for it.
\<close>

theorem switch_poll_ports:
  assumes "port_handle E s k m" and "\<forall>env \<in> E. ifconf_ok (pl_switch_mgt env) \<and> ifconf_ok (pl_direct_mgt env)"
    and "100 + k < 2 ^ 32"
    and "snsd_cfg_net_info (pl_switch_mgt env) (pl_cfg env) zero_sw SNSD_MODE_SW (po_count m) (po_switch_list m) =
      Some (nets, 0)"
    and "snsd_get_ifconf (pl_switch_mgt env) = Some (Some ifc)" and "\<forall>ifr \<in> set ifc. ifreq_ok ifr"
    and "snsd_get_file_info (pl_switch_mgt env) SNSD_VLAN_FILE_PATH = (len, Some vlan_info)"
    and "batch_peon_up (pl_switch env) (po_sys m)"
  shows "\<exists>s' nets'. switch_poll env (po_count m) (po_switch_list m) (po_sys m) = Done (s', nets') \<and>
    map port_ident nets' = map port_ident (filter (seen_in (po_count m)) nets) \<and>
    (\<forall>n \<in> set nets'. (\<exists>ifr \<in> set ifc. if_family ifr = AF_INET \<and> is_port_of ifr n) \<and>
      vlan_of vlan_info (pi_name (ni_port_info n)) \<noteq> SNSD_INVALID_VLAN \<and>
      configured (pl_switch_mgt env) (snsd_get_any_ip (pl_cfg env)) SNSD_MODE_SW
        (snsd_get_net_cfg SNSD_MODE_SW (pl_cfg env)) n)"
proof -
  let ?check = "switch_need_check_lldp (ss_count (po_sys m)) (po_count m)"
  note unseen = lists_inv_unseen(1) [OF port_handle_inv [OF assms(1-3)]]
  note seen = cfg_net_info_seen [OF assms(4-7) unseen]
  obtain s1 nets' where l: "switch_ports_loop (pl_switch env) (po_count m) ?check nets (po_sys m) = Done (s1, nets')"
    "map port_ident nets' = map port_ident (filter (seen_in (po_count m)) nets)"
    using switch_ports_loop_up [OF assms(8)] by metis
  then obtain s' where "switch_poll env (po_count m) (po_switch_list m) (po_sys m) = Done (s', nets')"
    using assms(4) by (simp add: switch_poll_def switch_port_handle_def Let_def)
  moreover have "(\<exists>ifr \<in> set ifc. if_family ifr = AF_INET \<and> is_port_of ifr n') \<and>
      vlan_of vlan_info (pi_name (ni_port_info n')) \<noteq> SNSD_INVALID_VLAN \<and>
      configured (pl_switch_mgt env) (snsd_get_any_ip (pl_cfg env)) SNSD_MODE_SW
        (snsd_get_net_cfg SNSD_MODE_SW (pl_cfg env)) n'" if "n' \<in> set nets'" for n'
  proof -
    have "port_ident n' \<in> set (map port_ident (filter (seen_in (po_count m)) nets))"
      using that unfolding l(2) [symmetric] by simp
    then obtain n where "n \<in> set nets" "seen_in (po_count m) n" and id: "port_ident n' = port_ident n" by auto
    with seen show ?thesis
      by (auto simp: seen_in_def port_ident_def is_port_of_def polled_def configured_def)
  qed
  ultimately show ?thesis using l(2) by blast
qed

section \<open>A round that runs\<close>

definition sample_poll_round :: "(unit, unit) poll_env" where
  "sample_poll_round = \<lparr>pl_switch_mgt = sample_poll_env, pl_direct_mgt = sample_poll_env\<lparr>me_ifconf := \<lambda>_. None\<rparr>,
    pl_cfg = sample_poll_cfg, pl_switch = sample_switch_env 10, pl_direct = \<lambda>_. no_memory_env\<rparr>"

definition sample_collected :: "(sw_net_info list \<times> int) option" where
  "sample_collected = snsd_cfg_net_info sample_poll_env sample_poll_cfg zero_sw SNSD_MODE_SW SWITCH_POLL_INTEVAL []"

definition sample_found :: "sw_net_info list" where
  "sample_found = fst (the sample_collected)"

abbreviation sample_start :: "(unit, unit) poll_sys" where
  "sample_start \<equiv> \<lparr>po_switch_list = [], po_direct_list = [], po_sys = sample_switch_sys other_port_slots,
    po_count = SWITCH_POLL_INTEVAL\<rparr>"

lemma sample_collects:
  "snsd_cfg_net_info sample_poll_env sample_poll_cfg zero_sw SNSD_MODE_SW SWITCH_POLL_INTEVAL [] = Some (sample_found, 0)"
  "filter (seen_in SWITCH_POLL_INTEVAL) sample_found = sample_found" "length sample_found = 1"
proof -
  have c: "sample_collected \<noteq> None \<and> snd (the sample_collected) = 0 \<and> length sample_found = 1" by code_simp
  then have "sample_collected = Some (sample_found, 0)" unfolding sample_found_def by (metis option.collapse prod.collapse)
  then show "snsd_cfg_net_info sample_poll_env sample_poll_cfg zero_sw SNSD_MODE_SW SWITCH_POLL_INTEVAL [] =
      Some (sample_found, 0)" unfolding sample_collected_def .
  have "pi_count (ni_port_info (hd sample_found)) = SWITCH_POLL_INTEVAL" by code_simp
  moreover have "length ns = 1 \<Longrightarrow> pi_count (ni_port_info (hd ns)) = SWITCH_POLL_INTEVAL \<Longrightarrow>
      filter (seen_in SWITCH_POLL_INTEVAL) ns = ns" for ns
    by (cases ns) (auto simp: seen_in_def)
  ultimately show "filter (seen_in SWITCH_POLL_INTEVAL) sample_found = sample_found" using c by blast
  from c show "length sample_found = 1" by blast
qed

lemma sample_ifconfs_ok:
  "\<forall>env \<in> {sample_poll_round}. ifconf_ok (pl_switch_mgt env) \<and> ifconf_ok (pl_direct_mgt env)"
  using sample_ifreqs_ok by (auto simp: sample_poll_round_def ifconf_ok_def sample_poll_env_def dest: in_set_takeD)

lemma sample_first_round:
  obtains m sw where "port_handle {sample_poll_round} (sample_switch_sys other_port_slots) 1 m"
    "po_switch_list m = sw" "length sw = 1"
proof -
  obtain s1 sw where l: "switch_ports_loop (sample_switch_env 10) SWITCH_POLL_INTEVAL
      (switch_need_check_lldp (ss_count (sample_switch_sys other_port_slots)) SWITCH_POLL_INTEVAL)
      sample_found (sample_switch_sys other_port_slots) = Done (s1, sw)"
    "map port_ident sw = map port_ident (filter (seen_in SWITCH_POLL_INTEVAL) sample_found)"
    using switch_ports_loop_up [OF sample_batch_peon_up] by metis
  then obtain s2 where "switch_poll sample_poll_round SWITCH_POLL_INTEVAL [] (sample_switch_sys other_port_slots) =
      Done (s2, sw)"
    using sample_collects(1) by (simp add: switch_poll_def switch_port_handle_def sample_poll_round_def Let_def)
  moreover have "snsd_get_ifconf (sample_poll_env\<lparr>me_ifconf := \<lambda>_. None\<rparr>) = Some None"
    by (simp add: snsd_get_ifconf_def) (subst ifconf_loop.simps, simp)
  then have "\<exists>r. snsd_cfg_net_info (sample_poll_env\<lparr>me_ifconf := \<lambda>_. None\<rparr>) sample_poll_cfg zero_dc
      SNSD_MODE_DC SWITCH_POLL_INTEVAL [] = Some ([], r) \<and> r \<noteq> 0"
    by (simp add: snsd_cfg_net_info_def snsd_all_net_info_def Let_def)
  then have "direct_poll sample_poll_round SWITCH_POLL_INTEVAL [] s2 = Done (s2, [])"
    by (auto simp: direct_poll_def direct_port_handle_def sample_poll_round_def)
  ultimately have "port_handle_round sample_poll_round sample_start =
      Done \<lparr>po_switch_list = sw, po_direct_list = [], po_sys = s2, po_count = SWITCH_POLL_INTEVAL + 1\<rparr>"
    by (simp add: port_handle_round_def)
  from port_handle.round [OF port_handle.start _ this, of "{sample_poll_round}"]
  have p: "port_handle {sample_poll_round} (sample_switch_sys other_port_slots) 1
      \<lparr>po_switch_list = sw, po_direct_list = [], po_sys = s2, po_count = SWITCH_POLL_INTEVAL + 1\<rparr>"
    by (simp add: snsd_help_run_def)
  have "length sw = 1" using arg_cong [OF l(2), of length] sample_collects(2,3) by simp
  then show thesis by (intro that [OF p]) (simp_all only: poll_sys.simps)
qed

theorem port_handle_lists_witness:
  "\<exists>m n. port_handle {sample_poll_round} (sample_switch_sys other_port_slots) 1 m \<and> po_switch_list m = [n] \<and>
    unat (po_count m) = 101 \<and> pi_count (ni_port_info n) \<noteq> po_count m"
proof -
  obtain m sw where m: "port_handle {sample_poll_round} (sample_switch_sys other_port_slots) 1 m"
    "po_switch_list m = sw" "length sw = 1" by (rule sample_first_round)
  then obtain n where n: "po_switch_list m = [n]" by (cases sw) auto
  have "(100 :: nat) + 1 < 2 ^ 32" by simp
  from port_handle_lists [OF m(1) sample_ifconfs_ok this] n
  have "unat (po_count m) = 101 \<and> pi_count (ni_port_info n) \<noteq> po_count m" by (simp add: no_port_seen_def)
  with m(1) n show ?thesis by blast
qed

theorem switch_poll_ports_witness:
  "\<exists>s' n. switch_poll sample_poll_round SWITCH_POLL_INTEVAL [] (sample_switch_sys other_port_slots) = Done (s', [n]) \<and>
    is_port_of (sample_ifreq ''v'' 1) n"
proof -
  let ?s = "sample_switch_sys other_port_slots"
  have sel: "pl_switch_mgt sample_poll_round = sample_poll_env" "pl_cfg sample_poll_round = sample_poll_cfg"
    "pl_switch sample_poll_round = sample_switch_env 10" by (simp_all add: sample_poll_round_def)
  have "(100 :: nat) + 0 < 2 ^ 32" by simp
  from switch_poll_ports [OF port_handle.start [of "{sample_poll_round}" ?s] sample_ifconfs_ok this,
      of sample_poll_round, unfolded sel poll_sys.simps, OF sample_collects(1) sample_poll_answers(1)
      sample_ifreqs_ok sample_poll_answers(2) sample_batch_peon_up]
  obtain s' nets' where r: "switch_poll sample_poll_round SWITCH_POLL_INTEVAL [] ?s = Done (s', nets')"
    "map port_ident nets' = map port_ident (filter (seen_in SWITCH_POLL_INTEVAL) sample_found)"
    "\<forall>n \<in> set nets'. \<exists>ifr \<in> set [sample_ifreq ''v'' 1]. if_family ifr = AF_INET \<and> is_port_of ifr n" by blast
  have "length nets' = 1" using arg_cong [OF r(2), of length] sample_collects(2,3) by simp
  then obtain n where "nets' = [n]" by (cases nets') auto
  with r show ?thesis by auto
qed

end
