(* ===== verification/Snsd_Server_Run.thy ===== *)
theory Snsd_Server_Run
  imports Snsd_Server_Props
begin

text \<open>
  The life of the notification server (\<open>src/snsd_server.c\<close>): start, the two threads, and the end.
  \<open>snsd_msg_rcv\<close> hands what arrives to \<open>snsd_client_notify\<close>, \<open>snsd_msg_handle\<close> dispatches the posted
  messages and watches the rates; the main thread creates and counts them, waits for them and frees
  the messages.  The steps of the three threads interleave in any order; a critical section, or what
  touches one thread's data only, is one step.
\<close>

section \<open>Start\<close>

definition snsd_set_nonblock :: "int \<Rightarrow> (int \<Rightarrow> int) \<Rightarrow> unit result" where
  "snsd_set_nonblock f_getfd f_setfl =
    (if f_getfd = - 1 then Inl EPERM
     else if f_setfl f_getfd = - 1 then Inl EPERM
     else Inr ())"

text \<open>The answers of the two \<open>setsockopt\<close> and the two \<open>fcntl\<close>; their failure, - 1, is - EPERM.\<close>

definition snsd_set_sock_options :: "int \<Rightarrow> int \<Rightarrow> int \<Rightarrow> (int \<Rightarrow> int) \<Rightarrow> unit result" where
  "snsd_set_sock_options add_membership set_priority f_getfd f_setfl =
    (if add_membership < 0 then Inl EPERM
     else if set_priority < 0 then Inl EPERM
     else snsd_set_nonblock f_getfd f_setfl)"

text \<open>\<open>malloc_ok\<close>, \<open>now\<close> and \<open>epoll_ok\<close> are the answers of the allocator, the clock and \<open>epoll_create\<close>.\<close>

definition snsd_server_init :: "(nat \<Rightarrow> bool) \<Rightarrow> int \<Rightarrow> bool \<Rightarrow> (server \<times> unit result) option" where
  "snsd_server_init malloc_ok now epoll_ok =
    (case snsd_init_sds_resource malloc_ok now of
       None \<Rightarrow> None
     | Some (s, Inl e) \<Rightarrow> Some (s, Inl e)
     | Some (s, Inr _) \<Rightarrow>
         if epoll_ok then Some (s, Inr ())
         else map_option (\<lambda>(s, freed). (s, Inl EPERM)) (snsd_free_msg_resource s))"

section \<open>The threads\<close>

datatype thread_at = Not_created | In_loop | Left_loop | Ended

datatype main_at =
    Create_rcv | Count_rcv | Create_handle | Count_handle
  | Serving | Joining "unit result" | Finished "unit result"

record run_sys =
  rs_server :: server
  rs_stop :: bool
  rs_worker_num :: int
  rs_rcv :: thread_at
  rs_handle :: thread_at
  rs_main :: main_at
  rs_freed :: "addr list"

text \<open>An event of \<open>epoll_wait\<close>: its descriptor, whether it can be read, and what is read from it.\<close>

definition rcv_event :: "int \<Rightarrow> bool \<Rightarrow> u8 list option \<Rightarrow> server \<Rightarrow> server option" where
  "rcv_event fd readable received s =
    (if fd < 0 then Some s
     else if readable then map_option fst (snsd_client_notify fd received s)
     else Some s)"

text \<open>The receiving thread leaves its loop at the stop flag, or when \<open>epoll_wait\<close> fails.\<close>

inductive snsd_msg_rcv :: "run_sys \<Rightarrow> run_sys \<Rightarrow> bool" where
  event: "rs_rcv r = In_loop \<Longrightarrow> rcv_event fd readable received (rs_server r) = Some s \<Longrightarrow>
    snsd_msg_rcv r (r\<lparr>rs_server := s\<rparr>)"
| leave: "rs_rcv r = In_loop \<Longrightarrow> rs_stop r \<or> epoll_failed \<Longrightarrow> snsd_msg_rcv r (r\<lparr>rs_rcv := Left_loop\<rparr>)"
| ends: "rs_rcv r = Left_loop \<Longrightarrow>
    snsd_msg_rcv r (r\<lparr>rs_worker_num := rs_worker_num r - 1, rs_rcv := Ended\<rparr>)"

text \<open>A round of the other thread; the scheduler it makes requests of is that of the moment.\<close>

inductive snsd_msg_handle :: "('w, 'c) templates \<Rightarrow> run_sys \<Rightarrow> run_sys \<Rightarrow> bool" for ts where
  dispatch: "rs_handle r = In_loop \<Longrightarrow> \<not> rs_stop r \<Longrightarrow>
    snsd_msg_dispatch ts envs (rs_server r) peons = Some (Done (s, peons')) \<Longrightarrow>
    snsd_msg_handle ts r (r\<lparr>rs_server := snsd_attack_detect now s\<rparr>)"
| leave: "rs_handle r = In_loop \<Longrightarrow> rs_stop r \<Longrightarrow> snsd_msg_handle ts r (r\<lparr>rs_handle := Left_loop\<rparr>)"
| ends: "rs_handle r = Left_loop \<Longrightarrow>
    snsd_msg_handle ts r (r\<lparr>rs_worker_num := rs_worker_num r - 1, rs_handle := Ended\<rparr>)"

text \<open>\<open>snsd_create_worker\<close>, with \<open>pthread_create\<close> giving \<open>created\<close>.\<close>

inductive snsd_create_worker :: "run_sys \<Rightarrow> run_sys \<Rightarrow> bool" where
  rcv: "rs_main r = Create_rcv \<Longrightarrow> created \<Longrightarrow>
    snsd_create_worker r (r\<lparr>rs_stop := False, rs_rcv := In_loop, rs_main := Count_rcv\<rparr>)"
| rcv_fails: "rs_main r = Create_rcv \<Longrightarrow> \<not> created \<Longrightarrow>
    snsd_free_msg_resource (snsd_server_remove_all (rs_server r)) = Some (s, freed) \<Longrightarrow>
    snsd_create_worker r (r\<lparr>rs_stop := False, rs_server := s, rs_main := Finished (Inl EPERM), rs_freed := freed\<rparr>)"
| count_rcv: "rs_main r = Count_rcv \<Longrightarrow>
    snsd_create_worker r (r\<lparr>rs_worker_num := rs_worker_num r + 1, rs_main := Create_handle\<rparr>)"
| handle: "rs_main r = Create_handle \<Longrightarrow> created \<Longrightarrow>
    snsd_create_worker r (r\<lparr>rs_handle := In_loop, rs_main := Count_handle\<rparr>)"
| handle_fails: "rs_main r = Create_handle \<Longrightarrow> \<not> created \<Longrightarrow>
    snsd_create_worker r (r\<lparr>rs_stop := True, rs_main := Joining (Inl EPERM)\<rparr>)"
| count_handle: "rs_main r = Count_handle \<Longrightarrow>
    snsd_create_worker r (r\<lparr>rs_worker_num := rs_worker_num r + 1, rs_main := Serving\<rparr>)"

text \<open>
  The main thread after that: while the server runs it registers sockets and addresses, in
  \<open>snsd_server_exit\<close> it sets the stop flag, \<open>snsd_join_worker\<close> returns when no worker is counted, and
  then everything is freed.
\<close>

definition snsd_join_worker :: "run_sys \<Rightarrow> bool" where
  "snsd_join_worker r \<longleftrightarrow> \<not> rs_worker_num r > 0"

inductive snsd_server_exit :: "run_sys \<Rightarrow> run_sys \<Rightarrow> bool" where
  register: "rs_main r = Serving \<Longrightarrow>
    snsd_update_server (snsd_set_sock_options add_membership set_priority f_getfd f_setfl) epoll_ok fd port ev
      (rs_server r) = (s, ret) \<Longrightarrow>
    snsd_server_exit r (r\<lparr>rs_server := s\<rparr>)"
| stop: "rs_main r = Serving \<Longrightarrow> snsd_server_exit r (r\<lparr>rs_stop := True, rs_main := Joining (Inr ())\<rparr>)"
| cleanup: "rs_main r = Joining ret \<Longrightarrow> snsd_join_worker r \<Longrightarrow>
    snsd_free_msg_resource (snsd_server_remove_all (rs_server r)) = Some (s, freed) \<Longrightarrow>
    snsd_server_exit r (r\<lparr>rs_server := s, rs_main := Finished ret, rs_freed := freed\<rparr>)"

definition server_step :: "('w, 'c) templates \<Rightarrow> run_sys \<Rightarrow> run_sys \<Rightarrow> bool" where
  "server_step ts r t \<longleftrightarrow>
    snsd_msg_rcv r t \<or> snsd_msg_handle ts r t \<or> snsd_create_worker r t \<or> snsd_server_exit r t"

text \<open>\<open>snsd_server_run\<close>: the server is initialised, then the workers are created.\<close>

definition snsd_server_run :: "run_sys \<Rightarrow> bool" where
  "snsd_server_run r \<longleftrightarrow> (\<exists>malloc_ok now s. snsd_server_init malloc_ok now True = Some (s, Inr ()) \<and>
    r = \<lparr>rs_server = s, rs_stop = True, rs_worker_num = 0, rs_rcv = Not_created, rs_handle = Not_created,
      rs_main = Create_rcv, rs_freed = []\<rparr>)"

section \<open>The message pool in every interleaving\<close>

text \<open>All thousand messages are in one of the two queues, none twice.\<close>

definition all_nodes :: "addr set" where
  "all_nodes = set [2..<SNSD_MAX_MSG_NUM + 2]"

definition pool_full :: "server \<Rightarrow> bool" where
  "pool_full s \<longleftrightarrow> (\<exists>xs ys. pool s xs ys \<and> set (xs @ ys) = all_nodes)"

lemma pool_full_cong: "pool_full s \<Longrightarrow> sv_heap s' = sv_heap s \<Longrightarrow> pool_full s'"
  by (simp add: pool_full_def pool_def)

lemma pool_full_post: "pool_full s \<Longrightarrow> pool_full (fst (snsd_post_one_msg msg s))"
proof -
  assume "pool_full s"
  then obtain xs ys where p: "pool s xs ys" "set (xs @ ys) = all_nodes"
    by (auto simp: pool_full_def)
  show ?thesis
  proof (cases "ad_role_type msg = SNSD_CLIENT \<or> xs = []")
    case True
    then show ?thesis using \<open>pool_full s\<close> post_one_msg_pool [OF p(1), of msg]
      by (cases "ad_role_type msg = SNSD_CLIENT") (simp_all add: snsd_post_one_msg_def)
  next
    case False
    then obtain x xs' where xs: "xs = x # xs'" by (cases xs) auto
    with False post_one_msg_pool [OF p(1), of msg]
    have "pool (fst (snsd_post_one_msg msg s)) xs' (ys @ [x])" by simp
    moreover have "set (xs' @ ys @ [x]) = set (xs @ ys)" by (auto simp: xs)
    ultimately show ?thesis unfolding pool_full_def using p(2) by metis
  qed
qed

lemma pool_full_deal: "pool_full s \<Longrightarrow> snsd_deal_one_msg host_ip msg s = Some s' \<Longrightarrow> pool_full s'"
proof -
  assume s: "pool_full s" and d: "snsd_deal_one_msg host_ip msg s = Some s'"
  obtain s1 posted where post: "snsd_post_one_msg msg s = (s1, posted)" by fastforce
  with pool_full_post [OF s, of msg] have "pool_full s1" by simp
  moreover have "s' = s \<or> sv_heap s' = sv_heap s1"
    using d post by (auto simp: snsd_deal_one_msg_def split: if_splits)
  ultimately show ?thesis using s pool_full_cong by blast
qed

lemma pool_full_nt_tlv_loop: "pool_full s \<Longrightarrow> nt_tlv_loop buf host_ip ver pos s = Some s' \<Longrightarrow> pool_full s'"
proof (induction "length buf - pos" arbitrary: pos s rule: less_induct)
  case less
  show ?case
  proof (cases rule: nt_tlv_loop_step [of buf host_ip ver pos s])
    case stop
    with less.prems show ?thesis by simp
  next
    case (round n m)
    then obtain s1 where s1: "snsd_deal_one_msg host_ip m s = Some s1"
      "nt_tlv_loop buf host_ip ver (pos + 3 + n) s1 = Some s'" using less.prems(2) by (auto split: option.splits)
    have "length buf - (pos + 3 + n) < length buf - pos" using round(1) by simp
    from less.hyps [OF this pool_full_deal [OF less.prems(1) s1(1)] s1(2)] show ?thesis .
  qed
qed

lemma heap_frames [simp]:
  "sv_heap (snsd_drop_msg_inc s) = sv_heap s" "sv_heap (snsd_listener_msg_inc fd s) = sv_heap s"
  "sv_heap (snsd_build_ack_header mac s) = sv_heap s" "sv_heap (snsd_attack_detect now s) = sv_heap s"
  "sv_heap (snsd_server_remove_all s) = sv_heap s"
  by (simp_all add: snsd_drop_msg_inc_def snsd_listener_msg_inc_def snsd_build_ack_header_def
      snsd_attack_detect_def snsd_listener_monitor_def snsd_server_remove_all_def Let_def split: option.split)

lemma pool_full_notify:
  assumes "pool_full s" and "snsd_client_notify fd received s = Some (s', ack)"
  shows "pool_full s'"
proof -
  have tlv: "pool_full t" if "snsd_process_nt_msg buf n host_ip s1 = Some t" "sv_heap s1 = sv_heap s"
    for buf n host_ip s1 t
  proof -
    have s1: "pool_full s1" using assms(1) that(2) by (rule pool_full_cong)
    show ?thesis
    proof (cases "snsd_get_msg_header buf n")
      case (Inl e)
      with that(1) have "t = snsd_drop_msg_inc s1" unfolding snsd_process_nt_msg_def by simp
      then show ?thesis using pool_full_cong [OF s1] by simp
    next
      case (Inr a)
      then obtain tlv_len ver where "snsd_get_msg_header buf n = Inr (tlv_len, ver)" by (cases a) simp
      with that(1) have "snsd_decode_nt_tlv
          (mem_get (sizeof_nt_msg_header + sizeof_ethhdr) tlv_len buf) host_ip ver s1 = Some t"
        unfolding snsd_process_nt_msg_def by (simp only: sum.case prod.case)
      then show ?thesis unfolding snsd_decode_nt_tlv_def by (rule pool_full_nt_tlv_loop [OF s1])
    qed
  qed
  from assms(2) have "sv_heap s' = sv_heap s \<or>
      (\<exists>buf n host_ip s1. snsd_process_nt_msg buf n host_ip s1 = Some s' \<and> sv_heap s1 = sv_heap s)"
    by (fastforce simp: snsd_client_notify_def Let_def bind_eq_Some_conv split: option.splits if_splits)
  with tlv pool_full_cong [OF assms(1)] show ?thesis by blast
qed

lemma pool_full_rcv_event: "pool_full s \<Longrightarrow> rcv_event fd readable received s = Some s' \<Longrightarrow> pool_full s'"
  by (auto simp: rcv_event_def split: if_splits intro: pool_full_notify)

lemma pool_full_dispatch:
  assumes "pool_full s" and "snsd_msg_dispatch ts envs s ps = Some (Done (s', ps'))"
  shows "pool_full s'"
proof -
  obtain xs ys where p: "pool s xs ys" "set (xs @ ys) = all_nodes"
    using assms(1) by (auto simp: pool_full_def)
  with dispatch_loop_pool [OF p(1), of ts envs ps] assms(2) have "pool s' (xs @ ys) []"
    unfolding snsd_msg_dispatch_def msg_active_list_def by (auto split: call.splits)
  with p(2) show ?thesis unfolding pool_full_def by (metis append_Nil2)
qed

lemma update_server_heap: "snsd_update_server opts epoll_ok fd port ev s = (s', ret) \<Longrightarrow> sv_heap s' = sv_heap s"
  by (cases ev)
    (auto simp: snsd_update_server_def snsd_add_server_def snsd_remove_server_def snsd_add_server_ip_def
      snsd_remove_server_ip_def snsd_update_server_sock_def snsd_lookup_listener_id_def Let_def
      split: sum.splits prod.splits option.splits if_splits)

text \<open>At the end every message is freed, once.\<close>

lemma pool_full_cleanup:
  assumes "pool_full s"
  shows "\<exists>s' freed. snsd_free_msg_resource (snsd_server_remove_all s) = Some (s', freed) \<and>
    distinct freed \<and> set freed = all_nodes"
proof -
  have "pool_full (snsd_server_remove_all s)" using assms by (rule pool_full_cong) simp
  then obtain xs ys where p: "pool (snsd_server_remove_all s) xs ys" "set (xs @ ys) = all_nodes"
    by (auto simp: pool_full_def)
  from free_msg_resource_pool [OF p(1)] obtain s' where
    "snsd_free_msg_resource (snsd_server_remove_all s) = Some (s', ys @ xs)" by blast
  moreover have "distinct (ys @ xs)" using poolD(4) [OF p(1)] by auto
  moreover have "set (ys @ xs) = all_nodes" using p(2) by auto
  ultimately show ?thesis by blast
qed

section \<open>The end of the server\<close>

definition ended :: "thread_at \<Rightarrow> int" where
  "ended t = (if t = Ended then 1 else 0)"

text \<open>The threads and their count, by where the main thread is.\<close>

definition threads_inv :: "run_sys \<Rightarrow> bool" where
  "threads_inv r \<longleftrightarrow>
    (let n = rs_worker_num r; rcv = rs_rcv r; handle = rs_handle r in
     case rs_main r of
       Create_rcv \<Rightarrow> rcv = Not_created \<and> handle = Not_created \<and> n = 0
     | Count_rcv \<Rightarrow> rcv \<noteq> Not_created \<and> handle = Not_created \<and> n = - ended rcv
     | Create_handle \<Rightarrow> rcv \<noteq> Not_created \<and> handle = Not_created \<and> n = 1 - ended rcv
     | Count_handle \<Rightarrow> rcv \<noteq> Not_created \<and> handle \<noteq> Not_created \<and> n = 1 - ended rcv - ended handle
     | Serving \<Rightarrow> rcv \<noteq> Not_created \<and> handle \<noteq> Not_created \<and> n = 2 - ended rcv - ended handle
     | Joining (Inl e) \<Rightarrow> rs_stop r \<and> rcv \<noteq> Not_created \<and> handle = Not_created \<and> n = 1 - ended rcv
     | Joining (Inr _) \<Rightarrow> rs_stop r \<and> rcv \<noteq> Not_created \<and> handle \<noteq> Not_created \<and>
         n = 2 - ended rcv - ended handle
     | Finished ret \<Rightarrow> rcv \<in> {Not_created, Ended} \<and> handle \<in> {Not_created, Ended})"

definition pool_inv :: "run_sys \<Rightarrow> bool" where
  "pool_inv r \<longleftrightarrow>
    (case rs_main r of
       Finished ret \<Rightarrow> distinct (rs_freed r) \<and> set (rs_freed r) = all_nodes
     | _ \<Rightarrow> pool_full (rs_server r))"

definition run_inv :: "run_sys \<Rightarrow> bool" where
  "run_inv r \<longleftrightarrow> threads_inv r \<and> pool_inv r"

lemmas run_inv_simps = run_inv_def threads_inv_def pool_inv_def Let_def ended_def

lemma pool_inv_live: "pool_inv r \<Longrightarrow> (\<And>ret. rs_main r \<noteq> Finished ret) \<Longrightarrow> pool_full (rs_server r)"
  by (auto simp: pool_inv_def split: main_at.splits)

lemma threads_inv_server [simp]: "threads_inv (r\<lparr>rs_server := s\<rparr>) = threads_inv r"
  by (simp add: threads_inv_def Let_def split: main_at.split sum.split)

lemma pool_inv_server: "pool_inv r \<Longrightarrow> pool_full s \<Longrightarrow> pool_inv (r\<lparr>rs_server := s\<rparr>)"
  by (auto simp: pool_inv_def split: main_at.splits)

lemma running_not_finished:
  "threads_inv r \<Longrightarrow> rs_rcv r = In_loop \<or> rs_handle r = In_loop \<Longrightarrow> rs_main r \<noteq> Finished ret"
  by (auto simp: threads_inv_def Let_def)

lemma run_inv_rcv:
  assumes "snsd_msg_rcv r t" and "run_inv r"
  shows "run_inv t"
  using assms(1)
proof cases
  case (event fd readable received s)
  have inv: "threads_inv r" "pool_inv r" using assms(2) by (simp_all add: run_inv_def)
  have "pool_full (rs_server r)" using running_not_finished [OF inv(1)] event(2) by (intro pool_inv_live [OF inv(2)]) auto
  then have "pool_full s" using event(3) by (rule pool_full_rcv_event)
  then have "pool_inv t" using pool_inv_server [OF inv(2)] event(1) by simp
  moreover have "threads_inv t" using inv(1) event(1) by simp
  ultimately show ?thesis by (simp add: run_inv_def)
qed (use assms(2) in \<open>auto simp: run_inv_simps split: main_at.splits sum.splits\<close>)

lemma run_inv_handle:
  assumes "snsd_msg_handle ts r t" and "run_inv r"
  shows "run_inv t"
  using assms(1)
proof cases
  case (dispatch envs peons s peons' now)
  have inv: "threads_inv r" "pool_inv r" using assms(2) by (simp_all add: run_inv_def)
  have "pool_full (rs_server r)" using running_not_finished [OF inv(1)] dispatch(2) by (intro pool_inv_live [OF inv(2)]) auto
  then have "pool_full s" using dispatch(4) by (rule pool_full_dispatch)
  then have "pool_full (snsd_attack_detect now s)" by (rule pool_full_cong) simp
  then have "pool_inv t" using pool_inv_server [OF inv(2)] dispatch(1) by simp
  moreover have "threads_inv t" using inv(1) dispatch(1) by simp
  ultimately show ?thesis by (simp add: run_inv_def)
qed (use assms(2) in \<open>auto simp: run_inv_simps split: main_at.splits sum.splits\<close>)

lemma freed_all:
  assumes "pool_full s" and "snsd_free_msg_resource (snsd_server_remove_all s) = Some (s', freed)"
  shows "distinct freed \<and> set freed = all_nodes"
  using pool_full_cleanup [OF assms(1)] assms(2) by auto

lemma run_inv_create:
  assumes "snsd_create_worker r t" and "run_inv r"
  shows "run_inv t"
  using assms(1)
proof cases
  case (rcv_fails created s freed)
  have "pool_full (rs_server r)" using assms(2) rcv_fails(2) by (intro pool_inv_live) (auto simp: run_inv_def)
  from freed_all [OF this rcv_fails(4)] assms(2) rcv_fails(1,2) show ?thesis by (simp add: run_inv_simps)
qed (use assms(2) in \<open>auto simp: run_inv_simps\<close>)

lemma run_inv_exit:
  assumes "snsd_server_exit r t" and "run_inv r"
  shows "run_inv t"
  using assms(1)
proof cases
  case (register add_membership set_priority f_getfd f_setfl epoll_ok fd port ev s ret)
  have "pool_full (rs_server r)" using assms(2) register(2) by (intro pool_inv_live) (auto simp: run_inv_def)
  then have "pool_full s" using update_server_heap [OF register(3)] by (rule pool_full_cong)
  with assms(2) register(1,2) show ?thesis by (simp add: run_inv_simps)
next
  case stop
  with assms(2) show ?thesis by (simp add: run_inv_simps)
next
  case (cleanup ret s freed)
  have "pool_full (rs_server r)" using assms(2) cleanup(2) by (intro pool_inv_live) (auto simp: run_inv_def)
  from freed_all [OF this cleanup(4)] have "pool_inv t" using cleanup(1) by (simp add: pool_inv_def)
  moreover have "threads_inv t" using assms(2) cleanup(1-3)
    by (cases ret) (auto simp: run_inv_simps snsd_join_worker_def split: if_splits)
  ultimately show ?thesis by (simp add: run_inv_def)
qed

lemma run_inv_start:
  assumes "snsd_server_run r"
  shows "run_inv r"
proof -
  obtain malloc_ok now s where init: "snsd_server_init malloc_ok now True = Some (s, Inr ())"
    and r: "r = \<lparr>rs_server = s, rs_stop = True, rs_worker_num = 0, rs_rcv = Not_created, rs_handle = Not_created,
      rs_main = Create_rcv, rs_freed = []\<rparr>"
    using assms by (auto simp: snsd_server_run_def)
  have "snsd_init_sds_resource malloc_ok now = Some (s, Inr ())"
    using init unfolding snsd_server_init_def by (simp split: option.splits prod.splits sum.splits)
  with snsd_init_sds_resource_spec [of malloc_ok now] have "pool s [2..<SNSD_MAX_MSG_NUM + 2] []"
    by (auto split: if_splits)
  then have "pool_full s" unfolding pool_full_def all_nodes_def by (metis append_Nil2)
  then show ?thesis unfolding r by (simp add: run_inv_simps)
qed

interpretation server_run: inv_system snsd_server_run "server_step ts" run_inv for ts :: "('w, 'c) templates"
  by unfold_locales
    (auto simp: server_step_def intro: run_inv_start run_inv_rcv run_inv_handle run_inv_create run_inv_exit)


text \<open>A thread that sees the stop flag ends, whatever the other one does.\<close>

lemma rcv_ends:
  assumes "rs_stop r" and "rs_rcv r \<noteq> Not_created"
  shows "\<exists>u. (server_step ts)\<^sup>*\<^sup>* r u \<and> rs_rcv u = Ended \<and> rs_handle u = rs_handle r \<and>
    rs_main u = rs_main r \<and> rs_stop u"
proof -
  have left: "\<exists>u. (server_step ts)\<^sup>*\<^sup>* v u \<and> rs_rcv u = Ended \<and> rs_handle u = rs_handle v \<and>
    rs_main u = rs_main v \<and> rs_stop u" if "rs_rcv v = Left_loop" "rs_stop v" for v
  proof -
    have "server_step ts v (v\<lparr>rs_worker_num := rs_worker_num v - 1, rs_rcv := Ended\<rparr>)"
      using snsd_msg_rcv.ends [OF that(1)] by (simp add: server_step_def)
    then show ?thesis using that(2) by (intro exI conjI) (rule r_into_rtranclp, assumption, simp_all)
  qed
  show ?thesis
  proof (cases "rs_rcv r")
    case In_loop
    let ?v = "r\<lparr>rs_rcv := Left_loop\<rparr>"
    have "server_step ts r ?v" using snsd_msg_rcv.leave [OF In_loop] assms(1) by (simp add: server_step_def)
    moreover obtain u where "(server_step ts)\<^sup>*\<^sup>* ?v u" "rs_rcv u = Ended" "rs_handle u = rs_handle r"
      "rs_main u = rs_main r" "rs_stop u" using left [of ?v] assms(1) by auto
    ultimately show ?thesis by (blast intro: converse_rtranclp_into_rtranclp)
  next
    case Left_loop
    from left [OF this assms(1)] show ?thesis .
  qed (use assms in blast)+
qed

lemma handle_ends:
  assumes "rs_stop r" and "rs_handle r \<noteq> Not_created"
  shows "\<exists>u. (server_step ts)\<^sup>*\<^sup>* r u \<and> rs_handle u = Ended \<and> rs_rcv u = rs_rcv r \<and>
    rs_main u = rs_main r \<and> rs_stop u"
proof -
  have left: "\<exists>u. (server_step ts)\<^sup>*\<^sup>* v u \<and> rs_handle u = Ended \<and> rs_rcv u = rs_rcv v \<and>
    rs_main u = rs_main v \<and> rs_stop u" if "rs_handle v = Left_loop" "rs_stop v" for v
  proof -
    have "server_step ts v (v\<lparr>rs_worker_num := rs_worker_num v - 1, rs_handle := Ended\<rparr>)"
      using snsd_msg_handle.ends [OF that(1), of ts] by (simp add: server_step_def)
    then show ?thesis using that(2) by (intro exI conjI) (rule r_into_rtranclp, assumption, simp_all)
  qed
  show ?thesis
  proof (cases "rs_handle r")
    case In_loop
    let ?v = "r\<lparr>rs_handle := Left_loop\<rparr>"
    have "server_step ts r ?v" using snsd_msg_handle.leave [OF In_loop, of ts] assms(1) by (simp add: server_step_def)
    moreover obtain u where "(server_step ts)\<^sup>*\<^sup>* ?v u" "rs_handle u = Ended" "rs_rcv u = rs_rcv r"
      "rs_main u = rs_main r" "rs_stop u" using left [of ?v] assms(1) by auto
    ultimately show ?thesis by (blast intro: converse_rtranclp_into_rtranclp)
  next
    case Left_loop
    from left [OF this assms(1)] show ?thesis .
  qed (use assms in blast)+
qed

lemma joining_finishes:
  assumes "run_inv r" and "rs_main r = Joining ret"
  shows "\<exists>u. (server_step ts)\<^sup>*\<^sup>* r u \<and> rs_main u = Finished ret"
proof -
  have stop: "rs_stop r" "rs_rcv r \<noteq> Not_created"
    using assms by (auto simp: run_inv_simps split: sum.splits)
  then obtain v where v: "(server_step ts)\<^sup>*\<^sup>* r v" "rs_rcv v = Ended" "rs_handle v = rs_handle r"
    "rs_main v = Joining ret" "rs_stop v" using rcv_ends [OF stop] assms(2) by metis
  obtain w where w: "(server_step ts)\<^sup>*\<^sup>* v w" "rs_rcv w = Ended" "rs_handle w \<in> {Not_created, Ended}"
    "rs_main w = Joining ret"
  proof (cases "rs_handle v = Not_created")
    case True
    with v show thesis by (intro that [of v]) simp_all
  next
    case False
    from handle_ends [OF v(5) this] v(2,4) that show thesis by auto
  qed
  have reach: "(server_step ts)\<^sup>*\<^sup>* r w" using v(1) w(1) by (rule rtranclp_trans)
  have inv: "run_inv w" using server_run.inv_steps [OF reach assms(1)] .
  then have "pool_full (rs_server w)" using w(4) by (intro pool_inv_live) (auto simp: run_inv_def)
  from pool_full_cleanup [OF this] obtain s freed where
    "snsd_free_msg_resource (snsd_server_remove_all (rs_server w)) = Some (s, freed)" by blast
  moreover have "snsd_join_worker w"
    using inv w(2-4) by (cases ret) (auto simp: run_inv_simps snsd_join_worker_def)
  ultimately have "server_step ts w (w\<lparr>rs_server := s, rs_main := Finished ret, rs_freed := freed\<rparr>)"
    using snsd_server_exit.cleanup [OF w(4)] by (simp add: server_step_def)
  with reach show ?thesis by (intro exI conjI) (rule rtranclp.rtrancl_into_rtrancl, assumption+, simp)
qed


section \<open>A run\<close>

lemma sample_serving:
  obtains s t where "snsd_server_run s" "(server_step (snsd_connect_templates_init :: (unit, unit) templates))\<^sup>*\<^sup>* s t"
    "rs_main t = Serving"
proof -
  let ?step = "server_step (snsd_connect_templates_init :: (unit, unit) templates)"
  obtain sv where "snsd_init_sds_resource (\<lambda>_. True) 0 = Some (sv, Inr ())"
    using snsd_init_sds_resource_spec [of "\<lambda>_. True" 0] by auto
  then have "snsd_server_init (\<lambda>_. True) 0 True = Some (sv, Inr ())" by (simp add: snsd_server_init_def)
  then obtain s where s: "snsd_server_run s" "rs_main s = Create_rcv" by (fastforce simp: snsd_server_run_def)
  have step: "?step r u" if "snsd_create_worker r u" for r u using that by (simp add: server_step_def)
  obtain a where a: "?step s a" "rs_main a = Count_rcv"
    using snsd_create_worker.rcv [OF s(2) TrueI] step by fastforce
  obtain b where b: "?step a b" "rs_main b = Create_handle"
    using snsd_create_worker.count_rcv [OF a(2)] step by fastforce
  obtain c where c: "?step b c" "rs_main c = Count_handle"
    using snsd_create_worker.handle [OF b(2) TrueI] step by fastforce
  obtain t where t: "?step c t" "rs_main t = Serving"
    using snsd_create_worker.count_handle [OF c(2)] step by fastforce
  have "?step\<^sup>*\<^sup>* s t" using a(1) b(1) c(1) t(1) by (meson converse_rtranclp_into_rtranclp rtranclp.rtrancl_refl)
  from that [OF s(1) this t(2)] show thesis .
qed



end
