(* ===== verification/Snsd_Log.thy ===== *)
theory Snsd_Log
  imports Snsd_Text
begin

text \<open>
  \<open>src/snsd_log.c\<close> and \<open>src/snsd_log.h\<close>: a line of the log is put together in a buffer of 1024
  bytes; messages that come often go through one of two limiters, which let a number of messages
  pass in a period, for the place in the code or for a key.  The variables of a limiter are the
  state of its functions; the lock, which excludes nothing but a second line, is left out.
\<close>

section \<open>A line\<close>

definition LOG_BUFFER_SIZE :: nat where [simp]: "LOG_BUFFER_SIZE = 1024"
definition SNSD_INFO :: nat where [simp]: "SNSD_INFO = 1"
definition SNSD_BUTT :: nat where [simp]: "SNSD_BUTT = 3"

definition snsd_err :: "string list" where
  "snsd_err = [''[DBG]'', ''[INFO]'', ''[ERR]'']"

text \<open>
  \<open>snprintf(buf + pos, size, ...)\<close> of a text: what it writes, or None if that is not inside the
  buffer.  The size is what the \<open>int\<close> is as a \<open>size_t\<close>.
\<close>

definition snprintf_at :: "nat \<Rightarrow> int \<Rightarrow> string \<Rightarrow> string \<Rightarrow> string option" where
  "snprintf_at pos room src buf =
    (let n = unat (word_of_int room :: u64); w = take (n - 1) src @ [NUL] in
     if n = 0 then Some buf
     else if pos + length w \<le> length buf then Some (mem_put pos w buf)
     else None)"

text \<open>
  \<open>msg\<close> is the text of the format and its arguments, \<open>buf\<close> the buffer as it is on the stack.  The
  result is None for a write outside the buffer, else what goes to the log, if anything does.
\<close>

definition snsd_print_line :: "nat \<Rightarrow> string \<Rightarrow> nat \<Rightarrow> string \<Rightarrow> nat \<Rightarrow> string \<Rightarrow> string option option" where
  "snsd_print_line dbg_level source_name line msg snsd_dgb_level buf =
    (if dbg_level < SNSD_BUTT \<and> dbg_level \<ge> snsd_dgb_level then
       (let head = snsd_err ! dbg_level @ '' ''; n = length head in
        case snprintf_at 0 (int LOG_BUFFER_SIZE) head buf of None \<Rightarrow> None
        | Some buf \<Rightarrow>
            (case snprintf_at n (int LOG_BUFFER_SIZE - int n) msg buf of None \<Rightarrow> None
             | Some buf \<Rightarrow>
                 (let n = n + length msg in
                  case snprintf_at n (int LOG_BUFFER_SIZE - int n)
                      (''['' @ source_name @ '':'' @ dec_nat line @ '']'' @ [LF]) buf of None \<Rightarrow> None
                  | Some buf \<Rightarrow> Some (Some (cstring (buf[LOG_BUFFER_SIZE - 1 := NUL]))))))
     else Some None)"

section \<open>The limiter of a place\<close>

record limiter =
  li_pre :: int
  li_cnt :: u32

definition limiter_start :: "u32 \<Rightarrow> limiter" where
  "limiter_start cnt = \<lparr>li_pre = 0, li_cnt = cnt\<rparr>"

text \<open>\<open>SNSD_LIMIT_PRINT\<close> at time \<open>now\<close>: the new state, and whether the message is printed.\<close>

definition SNSD_LIMIT_PRINT :: "u32 \<Rightarrow> int \<Rightarrow> int \<Rightarrow> limiter \<Rightarrow> limiter \<times> bool" where
  "SNSD_LIMIT_PRINT cnt limit now s =
    (let s = (if now > li_pre s + limit then s\<lparr>li_pre := now, li_cnt := cnt\<rparr> else s) in
     if li_cnt s > 0 then (s\<lparr>li_cnt := li_cnt s - 1\<rparr>, True) else (s, False))"

section \<open>The limiter of a key\<close>

definition KLOG_CNT :: nat where [simp]: "KLOG_CNT = 100"

record key_log =
  kl_key :: u64
  kl_cnt :: u32
  kl_tm :: int

definition klog_find :: "key_log list \<Rightarrow> u64 \<Rightarrow> nat option" where
  "klog_find klog key = first_idx (\<lambda>k. kl_key k = key) klog"

text \<open>
  The loop of \<open>klog_get\<close> over the records from \<open>i\<close> on: the record that is out of date, if one was
  found, the time of the oldest one and its place.
\<close>

fun klog_get_loop ::
  "int \<Rightarrow> int \<Rightarrow> key_log list \<Rightarrow> nat \<Rightarrow> nat option \<Rightarrow> int \<Rightarrow> nat option \<Rightarrow> nat option \<times> nat option" where
  "klog_get_loop now limit [] i kg ot okg = (kg, okg)"
| "klog_get_loop now limit (k # ks) i kg ot okg =
    (let kg = (if kl_tm k = 0 \<or> now - kl_tm k > limit then Some i else kg) in
     if kl_tm k < ot then klog_get_loop now limit ks (Suc i) kg (kl_tm k) (Some i)
     else klog_get_loop now limit ks (Suc i) kg ot okg)"

definition klog_get :: "key_log list \<Rightarrow> int \<Rightarrow> int \<Rightarrow> nat" where
  "klog_get klog now limit =
    (case klog_get_loop now limit klog 0 None now None of
       (Some kg, _) \<Rightarrow> kg
     | (None, Some okg) \<Rightarrow> okg
     | (None, None) \<Rightarrow> 0)"

definition SNSD_PRINT_LIMIT_BY_KEY ::
  "u32 \<Rightarrow> int \<Rightarrow> u64 \<Rightarrow> int \<Rightarrow> key_log list \<Rightarrow> key_log list \<times> bool" where
  "SNSD_PRINT_LIMIT_BY_KEY cnt limit key now klogs =
    (let (kg, reinit) =
       (case klog_find klogs key of
          None \<Rightarrow> (klog_get klogs now limit, True)
        | Some kg \<Rightarrow> (kg, now > kl_tm (klogs ! kg) + limit));
       k = (if reinit then \<lparr>kl_key = key, kl_cnt = 0, kl_tm = now\<rparr> else klogs ! kg);
       k = k\<lparr>kl_cnt := kl_cnt k + 1\<rparr> in
     (klogs[kg := k], kl_cnt k \<le> cnt))"

section \<open>What goes to the log\<close>

lemma dec_nat_plain: "NUL \<notin> set (dec_nat n)"
proof
  assume "NUL \<in> set (dec_nat n)"
  then have "is_digit 10 NUL" by (rule is_digit_dec)
  moreover have "\<not> is_digit 10 NUL" by code_simp
  ultimately show False by contradiction
qed

lemma size_word: "0 \<le> i \<Longrightarrow> i < 2 ^ 64 \<Longrightarrow> unat (word_of_int i :: u64) = nat i"
  by (simp add: unat_eq_nat_uint uint_word_of_int)

lemma size_word_neg: "- (2 ^ 31) \<le> i \<Longrightarrow> i < 0 \<Longrightarrow> 2 ^ 63 \<le> unat (word_of_int i :: u64)"
proof -
  assume i: "- (2 ^ 31) \<le> i" "i < 0"
  have "i mod 2 ^ 64 = (i + 2 ^ 64) mod 2 ^ 64" by simp
  also have "\<dots> = i + 2 ^ 64" using i by (intro mod_pos_pos_trivial) simp_all
  finally show ?thesis using i by (simp add: unat_eq_nat_uint uint_word_of_int)
qed

text \<open>A text in the buffer, with its terminator and what is behind it.\<close>

definition holds_text :: "string \<Rightarrow> string \<Rightarrow> bool" where
  "holds_text t buf \<longleftrightarrow> length buf = LOG_BUFFER_SIZE \<and> (\<exists>r. buf = t @ NUL # r)"

lemma snprintf_at_text:
  assumes "holds_text t buf"
  shows "\<exists>buf'. snprintf_at (length t) (1024 - int (length t)) src buf = Some buf' \<and>
    holds_text (take 1023 (t @ src)) buf'"
proof -
  obtain r where buf: "buf = t @ NUL # r" "length buf = 1024" using assms by (auto simp: holds_text_def)
  then have t: "length t < 1024" by simp
  have n: "unat (word_of_int (1024 - int (length t)) :: u64) = 1024 - length t"
    using t by (subst size_word) simp_all
  let ?w = "take (1023 - length t) src @ [NUL]"
  have len: "length t + length ?w \<le> length buf" using t buf(2) by simp
  have "mem_put (length t) ?w buf = take 1023 (t @ src) @ NUL # drop (length t + length ?w) buf"
    using t by (simp add: mem_put_def buf(1))
  moreover have "length (mem_put (length t) ?w buf) = 1024" using buf(2) len by simp
  ultimately have "holds_text (take 1023 (t @ src)) (mem_put (length t) ?w buf)"
    unfolding holds_text_def by (metis LOG_BUFFER_SIZE_def)
  moreover have "snprintf_at (length t) (1024 - int (length t)) src buf = Some (mem_put (length t) ?w buf)"
    using n t len by (simp add: snprintf_at_def Let_def)
  ultimately show ?thesis by blast
qed

lemma snprintf_at_start:
  assumes "length buf = 1024" and "length src < 1024"
  shows "\<exists>buf'. snprintf_at 0 1024 src buf = Some buf' \<and> holds_text src buf'"
  using assms by (simp add: snprintf_at_def Let_def holds_text_def mem_put_def)

lemma snprintf_at_full:
  assumes "1024 < pos" and "pos < 2 ^ 31" and "length buf = 1024"
  shows "snprintf_at pos (1024 - int pos) src buf = None"
proof -
  have "2 ^ 63 \<le> unat (word_of_int (1024 - int pos) :: u64)" using assms(1,2) by (intro size_word_neg) simp_all
  then show ?thesis using assms(1,3) by (simp add: snprintf_at_def Let_def)
qed

lemma holds_text_line:
  assumes "holds_text t buf" and "NUL \<notin> set t"
  shows "cstring (buf[1023 := NUL]) = t"
proof -
  obtain r where buf: "buf = t @ NUL # r" "length buf = 1024" using assms by (auto simp: holds_text_def)
  then have "\<exists>r'. buf[1023 := NUL] = t @ NUL # r'"
    by (cases "1023 - length t") (auto simp: list_update_append)
  with assms(2) show ?thesis by (auto simp: cstring_terminated)
qed

lemma snsd_err_head:
  assumes "dbg_level < SNSD_BUTT"
  shows "length (snsd_err ! dbg_level) < 8" and "NUL \<notin> set (snsd_err ! dbg_level)"
proof -
  have "dbg_level = 0 \<or> dbg_level = 1 \<or> dbg_level = 2" using assms by auto
  then show "length (snsd_err ! dbg_level) < 8" "NUL \<notin> set (snsd_err ! dbg_level)"
    by (auto simp: snsd_err_def numeral_2_eq_2)
qed

text \<open>
  A line of the log is its level, the message and the place in the code, cut to 1023 characters.
  The buffer is only safe up to that: if level and message alone have more than 1024
  characters the last part of the line is written behind the end of the buffer, with no limit.
\<close>

theorem snsd_print_line_spec:
  assumes "dbg_level < SNSD_BUTT" and "snsd_dgb_level \<le> dbg_level" and "length buf = LOG_BUFFER_SIZE"
    and "length msg < 2 ^ 30" and "NUL \<notin> set (msg @ source_name)"
  shows "snsd_print_line dbg_level source_name line msg snsd_dgb_level buf =
    (let head = snsd_err ! dbg_level @ '' '' @ msg in
     if length head > LOG_BUFFER_SIZE then None
     else Some (Some (take (LOG_BUFFER_SIZE - 1)
       (head @ ''['' @ source_name @ '':'' @ dec_nat line @ '']'' @ [LF]))))"
proof -
  define e where "e = snsd_err ! dbg_level @ '' ''"
  define t where "t = ''['' @ source_name @ '':'' @ dec_nat line @ '']'' @ [LF]"
  have e: "length e < 1024" using snsd_err_head(1) [OF assms(1)] by (simp add: e_def)
  obtain b1 where b1: "snprintf_at 0 1024 e buf = Some b1" "holds_text e b1"
    using snprintf_at_start [of buf e] assms(3) e by auto
  obtain b2 where b2: "snprintf_at (length e) (1024 - int (length e)) msg b1 = Some b2"
    "holds_text (take 1023 (e @ msg)) b2" using snprintf_at_text [OF b1(2)] by blast
  have line: "snsd_print_line dbg_level source_name line msg snsd_dgb_level buf =
      (case snprintf_at (length (e @ msg)) (1024 - int (length (e @ msg))) t b2 of
         None \<Rightarrow> None | Some buf \<Rightarrow> Some (Some (cstring (buf[1023 := NUL]))))"
    using assms(1,2) b1(1) b2(1) by (simp add: snsd_print_line_def Let_def e_def t_def split: option.split)
  have "NUL \<notin> set ((e @ msg) @ t)"
    using snsd_err_head(2) [OF assms(1)] assms(5) by (auto simp: dec_nat_plain e_def t_def)
  then have plain: "NUL \<notin> set (take 1023 ((e @ msg) @ t))" by (auto dest: in_set_takeD)
  consider "length (e @ msg) < 1024" | "length (e @ msg) = 1024" | "length (e @ msg) > 1024" by linarith
  then have "snsd_print_line dbg_level source_name line msg snsd_dgb_level buf =
      (if length (e @ msg) > 1024 then None else Some (Some (take 1023 ((e @ msg) @ t))))"
  proof cases
    case 1
    then have "holds_text (e @ msg) b2" using b2(2) by simp
    from snprintf_at_text [OF this, of t] obtain b3 where
      "snprintf_at (length (e @ msg)) (1024 - int (length (e @ msg))) t b2 = Some b3"
      "holds_text (take 1023 ((e @ msg) @ t)) b3" by blast
    with 1 holds_text_line [OF _ plain] show ?thesis unfolding line by simp
  next
    case 2
    have "take 1023 (w @ t) = take 1023 w" if "length w = 1024" for w using that by simp
    then have "holds_text (take 1023 ((e @ msg) @ t)) b2" using 2 b2(2) by metis
    then have "cstring (b2[1023 := NUL]) = take 1023 ((e @ msg) @ t)" using plain by (rule holds_text_line)
    moreover have "snprintf_at 1024 (1024 - int 1024) t b2 = Some b2" by (simp add: snprintf_at_def)
    ultimately show ?thesis unfolding line 2 by (simp only: option.case less_irrefl if_False)
  next
    case 3
    have "snprintf_at (length (e @ msg)) (1024 - int (length (e @ msg))) t b2 = None"
      using 3 assms(4) e b2(2) by (intro snprintf_at_full) (simp_all add: holds_text_def)
    with 3 show ?thesis unfolding line by simp
  qed
  then show ?thesis by (simp add: Let_def e_def t_def)
qed

theorem snsd_print_line_spec_witness:
  "snsd_print_line 1 ''f.c'' 7 (replicate 1019 CHR ''x'') 1 (replicate 1024 CHR ''?'') = None \<and>
    snsd_print_line 1 ''f.c'' 7 ''up'' 1 (replicate 1024 CHR ''?'') = Some (Some (''[INFO] up[f.c:7]'' @ [LF]))"
proof -
  have "dec_nat 7 = ''7''" by code_simp
  then show ?thesis
    using snsd_print_line_spec [of 1 1 "replicate 1024 CHR ''?''" "replicate 1019 CHR ''x''" "''f.c''" 7]
      snsd_print_line_spec [of 1 1 "replicate 1024 CHR ''?''" "''up''" "''f.c''" 7]
    by (simp add: snsd_err_def)
qed

section \<open>How often it goes there\<close>

fun limit_prints :: "u32 \<Rightarrow> int \<Rightarrow> int list \<Rightarrow> limiter \<Rightarrow> nat" where
  "limit_prints cnt limit [] s = 0"
| "limit_prints cnt limit (now # ts) s =
    (let (s, printed) = SNSD_LIMIT_PRINT cnt limit now s in
     (if printed then 1 else 0) + limit_prints cnt limit ts s)"

definition periods :: "int \<Rightarrow> int \<Rightarrow> int \<Rightarrow> nat" where
  "periods limit since now = nat ((now - since) div (limit + 1))"

lemma periods_step:
  assumes "since + limit < t" and "0 \<le> limit" and "t \<le> now"
  shows "Suc (periods limit t now) \<le> periods limit since now"
proof -
  have "(now - t) div (limit + 1) + 1 = (now - t + (limit + 1)) div (limit + 1)"
    using assms(2) by (intro div_add_self2 [symmetric]) simp
  also have "\<dots> \<le> (now - since) div (limit + 1)" using assms(1,2) by (intro zdiv_mono1) simp_all
  finally have "(now - t) div (limit + 1) + 1 \<le> (now - since) div (limit + 1)" .
  moreover have "0 \<le> (now - t) div (limit + 1)" using assms(2,3) by (simp add: pos_imp_zdiv_nonneg_iff)
  ultimately show ?thesis unfolding periods_def by linarith
qed

lemma take_one: "(if 0 < c then 1 else 0) + unat (if 0 < c then c - 1 else c) = unat c" for c :: u32
  by (simp add: unat_minus_one word_gt_0 unat_gt_0 Suc_leI)



section \<open>The records of the keys\<close>

definition out_of_date :: "int \<Rightarrow> int \<Rightarrow> key_log \<Rightarrow> bool" where
  "out_of_date limit now k \<longleftrightarrow> kl_tm k = 0 \<or> now - kl_tm k > limit"

lemma klog_get_loop_out_of_date:
  "fst (klog_get_loop now limit ks i kg ot okg) = kg \<and> (\<forall>k \<in> set ks. \<not> out_of_date limit now k) \<or>
    (\<exists>j < length ks. fst (klog_get_loop now limit ks i kg ot okg) = Some (i + j) \<and> out_of_date limit now (ks ! j))"
proof (induction ks arbitrary: i kg ot okg)
  case (Cons k ks)
  let ?kg = "if out_of_date limit now k then Some i else kg"
  obtain ot' okg' where r: "klog_get_loop now limit (k # ks) i kg ot okg = klog_get_loop now limit ks (Suc i) ?kg ot' okg'"
    by (cases "kl_tm k < ot") (simp_all add: out_of_date_def)
  from Cons.IH [of "Suc i" ?kg ot' okg']
  consider "fst (klog_get_loop now limit ks (Suc i) ?kg ot' okg') = ?kg" "\<forall>k \<in> set ks. \<not> out_of_date limit now k"
    | j where "j < length ks" "fst (klog_get_loop now limit ks (Suc i) ?kg ot' okg') = Some (Suc i + j)"
      "out_of_date limit now (ks ! j)" by blast
  then show ?case
  proof cases
    case 1
    then show ?thesis unfolding r by (cases "out_of_date limit now k") auto
  next
    case 2
    then show ?thesis unfolding r by (intro disjI2 exI [of _ "Suc j"]) simp
  qed
qed simp

lemma klog_get_out_of_date:
  assumes "k \<in> set klogs" and "out_of_date limit now k"
  shows "klog_get klogs now limit < length klogs \<and> out_of_date limit now (klogs ! klog_get klogs now limit)"
  using klog_get_loop_out_of_date [of now limit klogs 0 None now None] assms
  by (auto simp: klog_get_def split: prod.split option.split)

text \<open>
  A message of one key does not reset the count of another one whose period is not over, as
  long as the key has a record already or some record is out of date: the keys limit themselves, not
  each other, until all hundred records are in use.
\<close>

theorem keyed_records_kept:
  assumes "SNSD_PRINT_LIMIT_BY_KEY cnt limit key now klogs = (klogs', printed)"
    and "i < length klogs" and "kl_key (klogs ! i) \<noteq> key" and "\<not> out_of_date limit now (klogs ! i)"
    and "(\<exists>k \<in> set klogs. kl_key k = key) \<or> (\<exists>k \<in> set klogs. out_of_date limit now k)"
  shows "length klogs' = length klogs \<and> klogs' ! i = klogs ! i"
proof -
  define kg where "kg = (case klog_find klogs key of None \<Rightarrow> klog_get klogs now limit | Some kg \<Rightarrow> kg)"
  have "kg \<noteq> i"
  proof (cases "klog_find klogs key")
    case None
    then have "\<forall>k \<in> set klogs. kl_key k \<noteq> key" by (simp add: klog_find_def)
    with assms(5) obtain k where "k \<in> set klogs" "out_of_date limit now k" by blast
    from klog_get_out_of_date [OF this] None assms(4) show ?thesis by (auto simp: kg_def)
  next
    case (Some j)
    then have "kl_key (klogs ! j) = key" unfolding klog_find_def by (rule first_idx_SomeD)
    with Some assms(3) show ?thesis by (auto simp: kg_def)
  qed
  moreover obtain k where "klogs' = klogs[kg := k]"
    using assms(1) by (auto simp: SNSD_PRINT_LIMIT_BY_KEY_def kg_def Let_def split: option.splits)
  ultimately show ?thesis using assms(2) by simp
qed

definition sample_klogs :: "key_log list" where
  "sample_klogs = [\<lparr>kl_key = 5, kl_cnt = 2, kl_tm = 90\<rparr>, \<lparr>kl_key = 6, kl_cnt = 9, kl_tm = 20\<rparr>]"

theorem keyed_records_kept_witness:
  "fst (SNSD_PRINT_LIMIT_BY_KEY 3 60 7 100 sample_klogs) ! 0 = \<lparr>kl_key = 5, kl_cnt = 2, kl_tm = 90\<rparr>"
  using keyed_records_kept [of 3 60 7 100 sample_klogs
      "fst (SNSD_PRINT_LIMIT_BY_KEY 3 60 7 100 sample_klogs)" "snd (SNSD_PRINT_LIMIT_BY_KEY 3 60 7 100 sample_klogs)" 0]
  by (simp add: sample_klogs_def out_of_date_def)

end
