(* ===== verification/Spec2Isabelle.thy ===== *)
theory Spec2Isabelle
  imports Snsd_Peon_Sched Snsd_Peon_Steps Snsd_Peon_Exit Snsd_Connect Snsd_Listeners Snsd_Server_Props Snsd_Tlv_Props
    Snsd_Direct Snsd_Nvme Snsd_Cfg_Items Snsd_Conn_Props
    Snsd_Mgt_Props Snsd_Mgt_Slaves Snsd_Mgt_List Snsd_Poll Snsd_Server_Run Snsd_Log
begin

text \<open>
  A model of \<open>nvme-snsd\<close>, a daemon that finds the network ports of a host that reach NVMe storage over
  fabrics, announces them to the switches, and connects and disconnects NVMe controllers when the
  switches or the links report a change.  The C code under \<open>src/src\<close> is translated function by function;
  definitions keep the names of the functions, structures and macros they stand for.

  \<^bold>\<open>The program and its parts.\<close>  \<open>main\<close> (\<open>snsd_main.c\<close>) reads the configuration (\<open>snsd_cfg.c\<close>), starts the
  scheduler (\<open>snsd_conn_peon.c\<close>) and the notification server (\<open>snsd_server.c\<close>) and then polls: the
  port collection (\<open>snsd_mgt.c\<close>) updates the list of ports of a mode, the switch mode
  (\<open>snsd_switch.c\<close>) gives ports a socket and announces them (\<open>snsd_reg.c\<close>), the direct mode
  (\<open>snsd_direct.c\<close>) follows the link.  A notification, a lost port or a link that comes up becomes a task:
  \<open>snsd_connect.c\<close> queues it, a worker thread of a peon runs the handler in \<open>snsd_conn_nvme.c\<close>, which talks
  to the kernel through sysfs, \<open>/dev/nvme-fabrics\<close> and the commands of \<open>snsd_nvme.c\<close>.

  \<^bold>\<open>The theories\<close> (definitions first, then the properties of each part):
  \<^item> \<open>Snsd_Prelude\<close>, \<open>Snsd_Text\<close>, \<open>Snsd_Types\<close>: bytes, words, packed structures, error codes; the C library's
    text functions; the types of \<open>snsd.h\<close> and \<open>snsd_connect.h\<close> that all parts share.
  \<^item> \<open>Snsd_List\<close>: the intrusive lists of \<open>snsd_list.h\<close> on an explicit heap of links, and the locale of the
    queue they refine, interpreted on the code's list operations.
  \<^item> \<open>Snsd_Peon\<close>: the scheduler.  \<open>Snsd_Peon_Props\<close> and \<open>Snsd_Peon_Sched\<close> show what one call does (which
    task may run, which are dropped, when requests are delayed or lost), \<open>Snsd_Peon_Steps\<close> what holds in every
    interleaving of the workers on the lists.  \<open>Snsd_Peon_Life\<close> is the life of a peon's threads and of the wait
    queues they sleep on (\<open>snsd_waitq.h\<close>), from \<open>peon_construct\<close> to \<open>peon_deconstruct\<close>; \<open>Snsd_Peon_Exit\<close> the end
    of all peons.
  \<^item> \<open>Snsd_Connect\<close>: the template registry and the requests to the scheduler.
  \<^item> \<open>Snsd_Tlv\<close>, \<open>Snsd_Server\<close>, \<open>Snsd_Query\<close>: decoding a notification, the pool of messages, listeners,
    acknowledgement, dispatch, flood monitor, and the zone query.  \<open>Snsd_Tlv_Props\<close> has the reference parser,
    \<open>Snsd_Server_Props\<close> memory safety and the queues of the pool, \<open>Snsd_Listeners\<close> the address tables.
    \<open>Snsd_Server_Run\<close> is the life of the server's threads, with the pool in every interleaving and the shutdown.
  \<^item> \<open>Snsd_Net\<close>, \<open>Snsd_Lldp\<close>: the record of a port, its sockets, and the frames that announce it.
  \<^item> \<open>Snsd_Switch\<close>, \<open>Snsd_Switch_Props\<close>, \<open>Snsd_Switch_Round\<close>, \<open>Snsd_Direct\<close>: the two modes; slots, their
    quarantine, the pace of announcements, what a round does with ports that are gone.
  \<^item> \<open>Snsd_Mgt\<close>, \<open>Snsd_Mgt_Ports\<close>: collecting the ports.  \<open>Snsd_Mgt_Props\<close> is about the VLAN table,
    \<open>Snsd_Mgt_Slaves\<close> about bondings, \<open>Snsd_Mgt_List\<close> about the list a poll leaves.
  \<^item> \<open>Snsd_Poll\<close>: the main loop, which composes collection, modes and scheduler; its invariant of the two
    lists and what a whole switched round guarantees.
  \<^item> \<open>Snsd_Nvme\<close>: keep alive, log pages and the discovery loop.
  \<^item> \<open>Snsd_Fabrics\<close>, \<open>Snsd_Conn_Nvme\<close>, \<open>Snsd_Conn_Props\<close>: controllers in sysfs, the option text, and the
    handlers of the three kinds of task.
  \<^item> \<open>Snsd_Cfg\<close>, \<open>Snsd_Cfg_Init\<close>, \<open>Snsd_Cfg_Props\<close>, \<open>Snsd_Cfg_Items\<close>: the configuration file: parser, option
    tables, checks and look-ups; reading back a printed section, memory safety, the form of what is stored.
  \<^item> \<open>Snsd_Log\<close>: the line buffer and the two limiters of the log.

  \<^bold>\<open>Conventions.\<close>  A C structure is a record, a global variable a field of its component's state, which its
  functions take and return.  Unsigned integers the code masks, compares or lets wrap are words of
  their width; other integers are \<open>int\<close> or \<open>nat\<close> where they cannot leave their range.  Errors are sums
  or negative codes, as in the code; \<open>None\<close> stands for a memory error (a write outside a buffer, a null
  pointer) unless the definition says that it is an absent value, \<open>Stuck\<close> for a call that does not
  return.  What is outside the repository is an argument: answers of the
  kernel, of the allocator, of threads and clocks are fields of the environment records (\<open>peon_env\<close>,
  \<open>switch_env\<close>, \<open>mgt_env\<close>, \<open>nvme_kernel\<close>, \<open>cfg_env\<close>), and the theorems hold for all of them, or name what
  they need of them.  A critical section is one step; threads are interleaved by step relations.

  \<^bold>\<open>Bounds and loops.\<close>  No fuel is used.  Loops over lists are structural; the loops over
  buffers have measures; the search of the VLAN table and the growing buffer of interfaces may not end in
  general and are \<open>partial_function\<close>s, with theorems that they return.  Constants have their values in the
  code (64 slots, 1000 messages, 32 workers, and so on).

  \<^bold>\<open>Not modelled.\<close>  Texts of log messages and of the help, hexadecimal dumps, the display of configuration
  and ports, and pauses: output without effect on the state.  Locks, condition variables and thread attributes are
  the thread library's, and appear as the steps of the relations; \<open>waitq_waitevent\<close> is never called.  Freeing memory is modelled where the code could free twice or too early (messages,
  tasks, slaves), not where a local buffer is released.  Time is the sequence of the clock's answers.
\<close>

end
